theory Spec2Isabelle
  imports Complex_Main
begin

section \<open>Values, failures and the caller's dictionaries\<close>

text \<open>
  The program computes with Python and numpy floats; the embedding computes with the real
  numbers they approximate, and computes the linear quadrature grid a second time in
  binary64 arithmetic, where rounding decides what the grid is. What is not a real number
  is a failure of the model:
  \<^item> \<open>ValueError\<close>, \<open>KeyError\<close> and \<open>IndexError\<close> are the Python exceptions of that name;
  \<^item> \<open>ZeroDivisionError\<close> is a zero divisor (or a zero base under a negative exponent) in
    arithmetic on Python floats, which raises;
  \<^item> \<open>NotReal\<close> is a value that numpy computes without raising but that is no real number:
    \<open>nan\<close>, \<open>inf\<close> (a zero divisor, the logarithm of a non-positive number, the square
    root of a negative one), or a complex power. The model stops at the first of them.
\<close>

datatype error =
    ValueError string
  | KeyError string
  | IndexError
  | ZeroDivisionError
  | NotReal

definition raised :: "error + 'a \<Rightarrow> bool" where
  "raised res = (case res of Inl NotReal \<Rightarrow> False | Inl _ \<Rightarrow> True | Inr _ \<Rightarrow> False)"

definition bindE :: "error + 'a \<Rightarrow> ('a \<Rightarrow> error + 'b) \<Rightarrow> error + 'b" where
  "bindE m f = (case m of Inl e \<Rightarrow> Inl e | Inr v \<Rightarrow> f v)"

definition py_div :: "real \<Rightarrow> real \<Rightarrow> error + real" where
  "py_div x y = (if y = 0 then Inl ZeroDivisionError else Inr (x / y))"

definition np_div :: "real \<Rightarrow> real \<Rightarrow> error + real" where
  "np_div x y = (if y = 0 then Inl NotReal else Inr (x / y))"

definition is_integer :: "real \<Rightarrow> bool" where
  "is_integer y = (of_int \<lfloor>y\<rfloor> = y)"

text \<open>
  \<open>x ** y\<close> on floats: a positive base gives \<open>x powr y\<close>; a zero base raises under a
  negative exponent; a negative base has a real power for an integral exponent only.
\<close>

definition py_pow :: "real \<Rightarrow> real \<Rightarrow> error + real" where
  "py_pow x y =
     (if 0 < x then Inr (x powr y)
      else if x = 0 then
        (if y = 0 then Inr 1 else if 0 < y then Inr 0 else Inl ZeroDivisionError)
      else if is_integer y then
        Inr ((if even \<lfloor>y\<rfloor> then 1 else - 1) * (\<bar>x\<bar> powr y))
      else Inl NotReal)"

definition np_log :: "real \<Rightarrow> error + real" where
  "np_log x = (if 0 < x then Inr (ln x) else Inl NotReal)"

definition np_log10 :: "real \<Rightarrow> error + real" where
  "np_log10 x = (if 0 < x then Inr (log 10 x) else Inl NotReal)"

definition np_sqrt :: "real \<Rightarrow> error + real" where
  "np_sqrt x = (if 0 \<le> x then Inr (sqrt x) else Inl NotReal)"

text \<open>
  A keyword dictionary maps names to floats. The dictionaries belong to the caller and are
  passed by reference, so they live in a store of objects and the operations take
  references into it.
\<close>

type_synonym kwargs = "string \<rightharpoonup> real"

type_synonym ref = nat

type_synonym store = "ref \<Rightarrow> kwargs"

definition getitem :: "kwargs \<Rightarrow> string \<Rightarrow> error + real" where
  "getitem d k = (case d k of None \<Rightarrow> Inl (KeyError k) | Some v \<Rightarrow> Inr v)"

section \<open>Collaborators\<close>

text \<open>
  The constants module, the cosmology, the light profile, the special functions and the
  sampling utilities are other modules; the engine takes them as they are.
  \<open>gamma_fn\<close> is Euler's Gamma function behind \<open>math.gamma\<close>.
\<close>

record externals =
  const_G :: real
  const_M_sun :: real
  const_Mpc :: real
  const_arcsec :: real
  vel_util_hyp_2F1 :: "real \<Rightarrow> real \<Rightarrow> real \<Rightarrow> real \<Rightarrow> real"
  gamma_fn :: "real \<Rightarrow> real"
  light_profile_light_3d :: "real \<Rightarrow> kwargs \<Rightarrow> real"
  light_profile_light_2d_finite :: "real \<Rightarrow> kwargs \<Rightarrow> real"
  vel_util_draw_hernquist :: "real \<Rightarrow> real"
  vel_util_project2d_random :: "real \<Rightarrow> real \<times> real \<times> real"

text \<open>\<open>math.gamma\<close> raises a \<open>ValueError\<close> at the poles, the non-positive integers.\<close>

definition math_gamma :: "externals \<Rightarrow> real \<Rightarrow> error + real" where
  "math_gamma ext x =
     (if x \<le> 0 \<and> is_integer x then Inl (ValueError ''math domain error'')
      else Inr (gamma_fn ext x))"

text \<open>
  Modelled from the spec: \<open>vel_util.hyp_2F1\<close> is not among the sources; section 6 of the
  specification names it the evaluator of the Gauss hypergeometric function
  \<open>\<^sub>2F\<^sub>1(a, b; c; z)\<close>. The function has a pole where \<open>c\<close> is a non-positive integer, unless
  \<open>a\<close> or \<open>b\<close> is a non-positive integer no smaller than \<open>c\<close>, which ends the series
  before its denominator vanishes. At a pole the evaluator raises nothing and returns an
  infinity, no real number (\<open>None\<close>), which the arithmetic that follows carries along;
  elsewhere it returns the value \<open>vel_util_hyp_2F1\<close> of the function. For positive \<open>r\<close> and
  \<open>a\<close> the engine calls it at arguments below 1, off the branch cut of the function.
\<close>

definition hyp_2F1_pole :: "real \<Rightarrow> real \<Rightarrow> real \<Rightarrow> bool" where
  "hyp_2F1_pole a b c =
     (is_integer c \<and> c \<le> 0 \<and>
      \<not> (is_integer a \<and> a \<le> 0 \<and> c \<le> a) \<and> \<not> (is_integer b \<and> b \<le> 0 \<and> c \<le> b))"

definition hyp_2F1 :: "externals \<Rightarrow> real \<Rightarrow> real \<Rightarrow> real \<Rightarrow> real \<Rightarrow> real option" where
  "hyp_2F1 ext a b c z =
     (if hyp_2F1_pole a b c then None else Some (vel_util_hyp_2F1 ext a b c z))"

text \<open>
  Arithmetic with such a value: a product or a sum with an infinity is no real number; a
  division by a float raises on a zero divisor, whatever is divided.
\<close>

definition times_extended :: "real \<Rightarrow> real option \<Rightarrow> real option" where
  "times_extended x v = map_option (\<lambda>y. x * y) v"

definition plus_extended :: "real option \<Rightarrow> real option \<Rightarrow> real option" where
  "plus_extended v w = (case (v, w) of (Some x, Some y) \<Rightarrow> Some (x + y) | _ \<Rightarrow> None)"

definition py_div_extended :: "real option \<Rightarrow> real \<Rightarrow> error + real option" where
  "py_div_extended v y =
     (if y = 0 then Inl ZeroDivisionError else Inr (map_option (\<lambda>x. x / y) v))"

text \<open>
  Modelled from the spec: \<open>Anisotropy.beta_r\<close> is not among the sources; section 4.1 gives
  the Osipkov-Merritt kernel \<open>\<beta>(r) = r\<^sup>2 / (r\<^sup>2 + r_ani\<^sup>2)\<close>, a pure function.
\<close>

definition beta_r :: "real \<Rightarrow> real \<Rightarrow> real" where
  "beta_r r r_ani = r\<^sup>2 / (r\<^sup>2 + r_ani\<^sup>2)"

section \<open>The analytic kinematics engine\<close>

text \<open>
  Names keep the source's; a leading underscore, which Isabelle does not allow, is written
  \<open>u_\<close>. The engine holds its configuration, the cosmology and one mutable attribute, the
  interpolation memo \<open>_interp_sigma_r2\<close>, absent (\<open>None\<close>) until it is built.
\<close>

record cosmo =
  dd :: real
  epsilon_crit :: real
  arcsec2phys_lens :: "real \<Rightarrow> real"

record engine =
  u_interp_grid_num :: int
  u_log_int :: bool
  u_max_integrate :: real
  u_min_integrate :: real
  u_max_interpolate :: real
  u_min_interpolate :: real
  u_cosmo :: cosmo
  u_interp_sigma_r2 :: "(real \<times> real) list option"

definition init :: "cosmo \<Rightarrow> int \<Rightarrow> bool \<Rightarrow> real \<Rightarrow> real \<Rightarrow> engine" where
  "init kwargs_cosmo interpol_grid_num log_integration max_integrate min_integrate =
     \<lparr> u_interp_grid_num = interpol_grid_num,
       u_log_int = log_integration,
       u_max_integrate = max_integrate,
       u_min_integrate = min_integrate,
       u_max_interpolate = max_integrate,
       u_min_interpolate = min_integrate,
       u_cosmo = kwargs_cosmo,
       u_interp_sigma_r2 = None \<rparr>"

subsection \<open>Parameter resolution\<close>

text \<open>
  The Hernquist scale is resolved by the same lines in \<open>draw_light\<close> and in
  \<open>_read_out_params\<close>: key \<open>a\<close>, else \<open>Rs\<close>, else \<open>0.551 * r_eff\<close>, else a \<open>ValueError\<close>.
\<close>

definition hernquist_a :: "kwargs \<Rightarrow> error + real" where
  "hernquist_a kwargs_light =
     (if ''a'' \<notin> dom kwargs_light then
        (if ''Rs'' \<in> dom kwargs_light then getitem kwargs_light ''Rs''
         else if ''r_eff'' \<in> dom kwargs_light then
           bindE (getitem kwargs_light ''r_eff'') (\<lambda>r_eff. Inr (0.551 * r_eff))
         else Inl (ValueError ''Hernquist half-light radius can not be determined!''))
      else getitem kwargs_light ''a'')"

definition draw_light :: "externals \<Rightarrow> kwargs \<Rightarrow> error + (real \<times> real \<times> real \<times> real)" where
  "draw_light ext kwargs_light =
     bindE (hernquist_a kwargs_light) (\<lambda>a.
       let r = vel_util_draw_hernquist ext a;
           (R, x, y) = vel_util_project2d_random ext r
       in Inr (r, R, x, y))"

text \<open>Equation (14) of Suyu et al. 2010.\<close>

definition u_rho0_r0_gamma :: "externals \<Rightarrow> engine \<Rightarrow> real \<Rightarrow> real \<Rightarrow> error + real" where
  "u_rho0_r0_gamma ext self theta_E gamma =
     bindE (math_gamma ext (gamma / 2)) (\<lambda>g1.
     bindE (math_gamma ext ((gamma - 3) / 2)) (\<lambda>g2.
     bindE (np_div (- 1 * g1) (sqrt pi * g2)) (\<lambda>q1.
     bindE (py_pow theta_E gamma) (\<lambda>p.
     bindE (np_div (q1 * p) (arcsec2phys_lens (u_cosmo self) theta_E)) (\<lambda>q2.
     np_div (q2 * epsilon_crit (u_cosmo self) * const_M_sun ext) ((const_Mpc ext) ^ 3))))))"

text \<open>
  \<open>_read_out_params\<close> returns \<open>(a, gamma, rho0_r0_gamma, r_ani)\<close>. It writes the derived
  normalisation into the mass dictionary when the key is absent; the write happens before
  \<open>gamma\<close> and \<open>r_ani\<close> are read, so it stays when one of those reads raises.
\<close>

definition u_read_out_params ::
  "externals \<Rightarrow> engine \<Rightarrow> store \<Rightarrow> ref \<Rightarrow> ref \<Rightarrow> ref \<Rightarrow> (error + (real \<times> real \<times> real \<times> real)) \<times> store" where
  "u_read_out_params ext self st kwargs_mass kwargs_light kwargs_anisotropy =
     (case hernquist_a (st kwargs_light) of
        Inl e \<Rightarrow> (Inl e, st)
      | Inr a \<Rightarrow>
         (case (if ''rho0_r0_gamma'' \<notin> dom (st kwargs_mass) then
                  (case bindE (getitem (st kwargs_mass) ''theta_E'') (\<lambda>theta_E.
                        bindE (getitem (st kwargs_mass) ''gamma'') (\<lambda>gamma.
                          u_rho0_r0_gamma ext self theta_E gamma)) of
                     Inl e \<Rightarrow> Inl e
                   | Inr v \<Rightarrow> Inr (st(kwargs_mass := (st kwargs_mass)(''rho0_r0_gamma'' \<mapsto> v))))
                else Inr st) of
            Inl e \<Rightarrow> (Inl e, st)
          | Inr st' \<Rightarrow>
             (bindE (getitem (st' kwargs_mass) ''gamma'') (\<lambda>gamma.
              bindE (getitem (st' kwargs_mass) ''rho0_r0_gamma'') (\<lambda>rho0.
              bindE (getitem (st' kwargs_anisotropy) ''r_ani'') (\<lambda>r_ani.
                Inr (a, gamma, rho0, r_ani)))), st')))"


subsection \<open>numpy and scipy\<close>

fun mapE :: "('a \<Rightarrow> error + 'b) \<Rightarrow> 'a list \<Rightarrow> error + 'b list" where
  "mapE f [] = Inr []"
| "mapE f (x # xs) = bindE (f x) (\<lambda>y. bindE (mapE f xs) (\<lambda>ys. Inr (y # ys)))"

definition index :: "'a list \<Rightarrow> nat \<Rightarrow> error + 'a" where
  "index xs i = (if i < length xs then Inr (xs ! i) else Inl IndexError)"

text \<open>
  \<open>np.linspace(start, stop, num)\<close> with the end point: \<open>num\<close> samples \<open>start + i * step\<close>,
  \<open>step = (stop - start) / (num - 1)\<close>; one sample is \<open>[start]\<close>; a negative count raises.
\<close>

definition np_linspace :: "real \<Rightarrow> real \<Rightarrow> int \<Rightarrow> error + real list" where
  "np_linspace start stop num =
     (if num < 0 then Inl (ValueError ''Number of samples must be non-negative'')
      else if num = 1 then Inr [start]
      else Inr (map (\<lambda>i. start + real i * ((stop - start) / (of_int num - 1))) [0..<nat num]))"

text \<open>\<open>np.logspace\<close> raises a positive base to the samples of \<open>np.linspace\<close>.\<close>

definition np_logspace :: "real \<Rightarrow> real \<Rightarrow> int \<Rightarrow> real \<Rightarrow> error + real list" where
  "np_logspace start stop num base =
     bindE (np_linspace start stop num) (\<lambda>y. Inr (map (\<lambda>e. base powr e) y))"

text \<open>
  \<open>np.searchsorted\<close> on a sorted array: the number of entries below the value.
\<close>

definition searchsorted :: "real list \<Rightarrow> real \<Rightarrow> nat" where
  "searchsorted xs v = length (takeWhile (\<lambda>x. x < v) xs)"

text \<open>
  \<open>scipy.interpolate.interp1d(x, y, fill_value="extrapolate")\<close>, linear: the constructor
  sorts the nodes by abscissa (a stable sort) and refuses an empty table; a call finds the
  segment by \<open>searchsorted\<close>, clips its upper index to \<open>1 .. n - 1\<close> and follows the line
  through the segment's end points, inside the table and beyond it. A table with one node
  or with two equal abscissae at the segment divides by zero.
\<close>

definition interp1d :: "real list \<Rightarrow> real list \<Rightarrow> error + (real \<times> real) list" where
  "interp1d x y =
     (if length x \<noteq> length y then Inl (ValueError ''x and y arrays must be equal in length'')
      else if x = [] then Inl (ValueError ''x and y arrays must have at least 1 entries'')
      else Inr (sort_key fst (zip x y)))"

definition interp1d_call :: "(real \<times> real) list \<Rightarrow> real \<Rightarrow> error + real" where
  "interp1d_call t x_new =
     (let x = map fst t; y = map snd t;
          hi = min (max (searchsorted x x_new) 1) (length x - 1);
          lo = hi - 1
      in if length t < 2 then Inl NotReal
         else bindE (np_div (y ! hi - y ! lo) (x ! hi - x ! lo)) (\<lambda>slope.
                Inr (slope * (x_new - x ! lo) + y ! lo)))"

subsection \<open>The radial solver, equation (19) of Suyu et al. 2010\<close>

definition u_sigma_r2 ::
  "externals \<Rightarrow> engine \<Rightarrow> real \<Rightarrow> real \<Rightarrow> real \<Rightarrow> real \<Rightarrow> real \<Rightarrow> error + real" where
  "u_sigma_r2 ext self r a gamma rho0_r0_gamma r_ani =
     bindE (py_pow a (- gamma)) (\<lambda>a_pow.
     bindE (py_div (4 * pi * const_G ext * a_pow * rho0_r0_gamma) (3 - gamma)) (\<lambda>prefac1.
     bindE (py_div (r * (r + a) ^ 3) (r\<^sup>2 + r_ani\<^sup>2)) (\<lambda>prefac2.
     bindE (py_div r a) (\<lambda>r_a.
     bindE (py_div 1 (1 + r_a)) (\<lambda>z1.
     bindE (py_div (- a) r) (\<lambda>z2.
       let hyp1 = hyp_2F1 ext (2 + gamma) gamma (3 + gamma) z1;
           hyp2 = hyp_2F1 ext 3 gamma (1 + gamma) z2
       in
     bindE (py_div (r_ani\<^sup>2) (a\<^sup>2)) (\<lambda>q.
     bindE (py_pow (r_a + 1) (2 + gamma)) (\<lambda>p1.
     bindE (py_div_extended (times_extended q hyp1) ((2 + gamma) * p1)) (\<lambda>fac1.
     bindE (py_pow r_a gamma) (\<lambda>p2.
     bindE (py_div_extended hyp2 (gamma * p2)) (\<lambda>fac2.
       case plus_extended fac1 fac2 of
         None \<Rightarrow> Inl NotReal
       | Some fac \<Rightarrow>
           Inr (prefac1 * prefac2 * fac
                 * (const_arcsec ext * dd (u_cosmo self) * const_Mpc ext)\<^sup>2))))))))))))"

definition sigma_r2 ::
  "externals \<Rightarrow> engine \<Rightarrow> store \<Rightarrow> real \<Rightarrow> ref \<Rightarrow> ref \<Rightarrow> ref \<Rightarrow> (error + real) \<times> store" where
  "sigma_r2 ext self st r kwargs_mass kwargs_light kwargs_anisotropy =
     (case u_read_out_params ext self st kwargs_mass kwargs_light kwargs_anisotropy of
        (Inl e, st') \<Rightarrow> (Inl e, st')
      | (Inr (a, gamma, rho0_r0_gamma, r_ani), st') \<Rightarrow>
          (u_sigma_r2 ext self r a gamma rho0_r0_gamma r_ani, st'))"

subsection \<open>The memoized radial solver\<close>

text \<open>
  The block under \<open>if not hasattr(self, "_interp_sigma_r2")\<close>: the table of the radial
  solver over the log-spaced grid, for the parameters of this call.
\<close>

definition interp_sigma_r2_table ::
  "externals \<Rightarrow> engine \<Rightarrow> real \<Rightarrow> real \<Rightarrow> real \<Rightarrow> real \<Rightarrow> error + (real \<times> real) list" where
  "interp_sigma_r2_table ext self a gamma rho0_r0_gamma r_ani =
     bindE (np_log10 (u_min_integrate self)) (\<lambda>min_log.
     bindE (np_log10 (u_max_integrate self)) (\<lambda>max_log.
     bindE (np_logspace min_log max_log (u_interp_grid_num self) 10) (\<lambda>r_array.
     bindE (mapE (\<lambda>r_i. u_sigma_r2 ext self r_i a gamma rho0_r0_gamma r_ani) r_array)
       (\<lambda>I_R_sigma2_array.
     bindE (mapE np_log r_array) (\<lambda>log_r_array.
       interp1d log_r_array I_R_sigma2_array)))))"

definition ensure_interp_sigma_r2 ::
  "externals \<Rightarrow> engine \<Rightarrow> real \<Rightarrow> real \<Rightarrow> real \<Rightarrow> real \<Rightarrow> (error + (real \<times> real) list) \<times> engine" where
  "ensure_interp_sigma_r2 ext self a gamma rho0_r0_gamma r_ani =
     (case u_interp_sigma_r2 self of
        None \<Rightarrow>
          (case interp_sigma_r2_table ext self a gamma rho0_r0_gamma r_ani of
             Inl e \<Rightarrow> (Inl e, self)
           | Inr t \<Rightarrow> (Inr t, self\<lparr>u_interp_sigma_r2 := Some t\<rparr>))
      | Some t \<Rightarrow> (Inr t, self))"

text \<open>\<open>_sigma_r2_interp\<close> at one radius, and at an array of radii (numpy works by element).\<close>

definition u_sigma_r2_interp ::
  "externals \<Rightarrow> engine \<Rightarrow> real \<Rightarrow> real \<Rightarrow> real \<Rightarrow> real \<Rightarrow> real \<Rightarrow> (error + real) \<times> engine" where
  "u_sigma_r2_interp ext self r a gamma rho0_r0_gamma r_ani =
     (case ensure_interp_sigma_r2 ext self a gamma rho0_r0_gamma r_ani of
        (Inl e, self') \<Rightarrow> (Inl e, self')
      | (Inr t, self') \<Rightarrow> (bindE (np_log r) (interp1d_call t), self'))"

definition u_sigma_r2_interp_array ::
  "externals \<Rightarrow> engine \<Rightarrow> real list \<Rightarrow> real \<Rightarrow> real \<Rightarrow> real \<Rightarrow> real \<Rightarrow> (error + real list) \<times> engine" where
  "u_sigma_r2_interp_array ext self r a gamma rho0_r0_gamma r_ani =
     (case ensure_interp_sigma_r2 ext self a gamma rho0_r0_gamma r_ani of
        (Inl e, self') \<Rightarrow> (Inl e, self')
      | (Inr t, self') \<Rightarrow> (bindE (mapE np_log r) (mapE (interp1d_call t)), self'))"

definition delete_cache :: "engine \<Rightarrow> engine" where
  "delete_cache self =
     (if u_interp_sigma_r2 self \<noteq> None then self\<lparr>u_interp_sigma_r2 := None\<rparr> else self)"

subsection \<open>The projected dispersion\<close>

definition u_sigma_s2 ::
  "externals \<Rightarrow> engine \<Rightarrow> real \<Rightarrow> real \<Rightarrow> real \<Rightarrow> real \<Rightarrow> real \<Rightarrow> real \<Rightarrow> (error + real) \<times> engine" where
  "u_sigma_s2 ext self r R r_ani a gamma rho0_r0_gamma =
     (let beta = beta_r r r_ani in
      case py_div (beta * R\<^sup>2) (r\<^sup>2) of
        Inl e \<Rightarrow> (Inl e, self)
      | Inr q \<Rightarrow>
         (case u_sigma_r2_interp ext self r a gamma rho0_r0_gamma r_ani of
            (Inl e, self') \<Rightarrow> (Inl e, self')
          | (Inr s, self') \<Rightarrow> (Inr ((1 - q) * s), self')))"

definition u_sigma_s2_array ::
  "externals \<Rightarrow> engine \<Rightarrow> real list \<Rightarrow> real \<Rightarrow> real \<Rightarrow> real \<Rightarrow> real \<Rightarrow> real \<Rightarrow> (error + real list) \<times> engine" where
  "u_sigma_s2_array ext self r R r_ani a gamma rho0_r0_gamma =
     (case mapE (\<lambda>r_i. bindE (np_div (beta_r r_i r_ani * R\<^sup>2) (r_i\<^sup>2)) (\<lambda>q. Inr (1 - q))) r of
        Inl e \<Rightarrow> (Inl e, self)
      | Inr w \<Rightarrow>
         (case u_sigma_r2_interp_array ext self r a gamma rho0_r0_gamma r_ani of
            (Inl e, self') \<Rightarrow> (Inl e, self')
          | (Inr s, self') \<Rightarrow> (Inr (map2 (*) w s), self')))"

definition sigma_s2 ::
  "externals \<Rightarrow> engine \<Rightarrow> store \<Rightarrow> real \<Rightarrow> real \<Rightarrow> ref \<Rightarrow> ref \<Rightarrow> ref
     \<Rightarrow> (error + (real \<times> nat)) \<times> engine \<times> store" where
  "sigma_s2 ext self st r R kwargs_mass kwargs_light kwargs_anisotropy =
     (case u_read_out_params ext self st kwargs_mass kwargs_light kwargs_anisotropy of
        (Inl e, st') \<Rightarrow> (Inl e, self, st')
      | (Inr (a, gamma, rho0_r0_gamma, r_ani), st') \<Rightarrow>
         (case u_sigma_s2 ext self r R r_ani a gamma rho0_r0_gamma of
            (Inl e, self') \<Rightarrow> (Inl e, self', st')
          | (Inr v, self') \<Rightarrow> (Inr (v, 1), self', st')))"

subsection \<open>The line integral, equation A15 of Mamon and Lokas 2005\<close>

text \<open>
  The copy of the light dictionary that goes to the light profile; the caller's dictionary
  is read, never written.
\<close>

definition kwargs_light_copy :: "kwargs \<Rightarrow> kwargs" where
  "kwargs_light_copy kwargs_light =
     (case kwargs_light ''r_eff'' of
        None \<Rightarrow> kwargs_light
      | Some r_eff \<Rightarrow> ((kwargs_light(''Rs'' \<mapsto> r_eff * 0.551))(''amp'' \<mapsto> 1))(''r_eff'' := None))"

definition u_integrand_suyu10_eq21 ::
  "externals \<Rightarrow> engine \<Rightarrow> store \<Rightarrow> real list \<Rightarrow> real \<Rightarrow> ref \<Rightarrow> ref \<Rightarrow> ref
     \<Rightarrow> (error + real list) \<times> engine \<times> store" where
  "u_integrand_suyu10_eq21 ext self st r R kwargs_mass kwargs_light kwargs_anisotropy =
     (case u_read_out_params ext self st kwargs_mass kwargs_light kwargs_anisotropy of
        (Inl e, st') \<Rightarrow> (Inl e, self, st')
      | (Inr (a, gamma, rho0_r0_gamma, r_ani), st') \<Rightarrow>
         (let copy = kwargs_light_copy (st' kwargs_light) in
          case u_sigma_s2_array ext self r R r_ani a gamma rho0_r0_gamma of
            (Inl e, self') \<Rightarrow> (Inl e, self', st')
          | (Inr s, self') \<Rightarrow>
             (mapE (\<lambda>(s_i, r_i).
                 bindE (np_sqrt (r_i\<^sup>2 - R\<^sup>2)) (\<lambda>root.
                 bindE (np_div (s_i * r_i) root) (\<lambda>q.
                   Inr (q * light_profile_light_3d ext r_i copy)))) (zip s r),
              self', st')))"

text \<open>
  The grids of \<open>_I_R_sigma2\<close>, for the clamped radius \<open>R\<close>: in log mode the array
  \<open>r_array\<close> with \<open>dlog_r\<close>, in linear mode \<open>r_array\<close> with \<open>dr\<close>.
\<close>

definition log_grid :: "engine \<Rightarrow> real \<Rightarrow> error + (real list \<times> real)" where
  "log_grid self R =
     bindE (np_log R) (\<lambda>min_log.
     bindE (np_log (u_max_integrate self)) (\<lambda>max_log.
     bindE (np_div (max_log - min_log) (of_int (u_interp_grid_num self) - 1)) (\<lambda>dlogr.
     bindE (np_logspace (min_log + dlogr / 2) (max_log + dlogr / 2)
              (u_interp_grid_num self) (exp 1)) (\<lambda>r_array.
     bindE (index r_array 2) (\<lambda>r_2.
     bindE (np_log r_2) (\<lambda>log_r_2.
     bindE (index r_array 1) (\<lambda>r_1.
     bindE (np_log r_1) (\<lambda>log_r_1.
       Inr (r_array, log_r_2 - log_r_1)))))))))"

definition linear_grid :: "engine \<Rightarrow> real \<Rightarrow> error + (real list \<times> real)" where
  "linear_grid self R =
     bindE (np_linspace R (u_max_interpolate self) (u_interp_grid_num self)) (\<lambda>r_array.
     bindE (index r_array 2) (\<lambda>r_2.
     bindE (index r_array 1) (\<lambda>r_1.
       Inr (r_array, r_2 - r_1))))"

text \<open>
  The grid of the mode in force: \<open>r_array\<close>, the radii that \<open>_I_R_sigma2\<close> hands to the
  integrand (\<open>r_array\<close> in log mode, \<open>r_array + dr / 2\<close> in linear mode) and the step. These
  grids are over the real numbers; the linear one is computed in binary64 further down.
\<close>

definition integration_grid :: "engine \<Rightarrow> real \<Rightarrow> error + (real list \<times> real list \<times> real)" where
  "integration_grid self R =
     (if u_log_int self then
        bindE (log_grid self R) (\<lambda>(r_array, dlog_r). Inr (r_array, r_array, dlog_r))
      else
        bindE (linear_grid self R) (\<lambda>(r_array, dr).
          Inr (r_array, map (\<lambda>r_i. r_i + dr / 2) r_array, dr)))"

definition u_I_R_sigma2 ::
  "externals \<Rightarrow> engine \<Rightarrow> store \<Rightarrow> real \<Rightarrow> ref \<Rightarrow> ref \<Rightarrow> ref
     \<Rightarrow> (error + (real \<times> real)) \<times> engine \<times> store" where
  "u_I_R_sigma2 ext self st R0 kwargs_mass kwargs_light kwargs_anisotropy =
     (let R = max R0 (u_min_integrate self) in
      case integration_grid self R of
        Inl e \<Rightarrow> (Inl e, self, st)
      | Inr (r_array, radii, step) \<Rightarrow>
         (case u_integrand_suyu10_eq21 ext self st radii R
                 kwargs_mass kwargs_light kwargs_anisotropy of
            (Inl e, self', st') \<Rightarrow> (Inl e, self', st')
          | (Inr IR_sigma2_, self', st') \<Rightarrow>
             (let IR_sigma2_dr =
                    (if u_log_int self
                     then map2 (\<lambda>v r_i. v * step * r_i) IR_sigma2_ r_array
                     else map (\<lambda>v. v * step) IR_sigma2_);
                  IR_sigma2 = 2 * sum_list IR_sigma2_dr;
                  copy = kwargs_light_copy (st' kwargs_light);
                  IR = light_profile_light_2d_finite ext R copy
              in (Inr (IR_sigma2, IR), self', st'))))"

definition I_R_sigma2_and_IR ::
  "externals \<Rightarrow> engine \<Rightarrow> store \<Rightarrow> real \<Rightarrow> ref \<Rightarrow> ref \<Rightarrow> ref
     \<Rightarrow> (error + (real \<times> real)) \<times> engine \<times> store" where
  "I_R_sigma2_and_IR ext self st R kwargs_mass kwargs_light kwargs_anisotropy =
     u_I_R_sigma2 ext self st R kwargs_mass kwargs_light kwargs_anisotropy"

subsection \<open>The linear grid in binary64\<close>

text \<open>
  Whether a quadrature radius lies above \<open>R\<close> depends on rounding, which the real numbers do
  not show. A float of Python and of numpy is an IEEE 754 binary64 number: zero, or
  \<open>m * 2 ^ (e - 52)\<close> for integers \<open>2 ^ 52 \<le> \<bar>m\<bar> < 2 ^ 53\<close> and \<open>-1022 \<le> e \<le> 1023\<close>, or a
  subnormal number \<open>m * 2 ^ (-1074)\<close> with \<open>\<bar>m\<bar> < 2 ^ 52\<close>. The binade of \<open>x\<close> is the exponent
  \<open>e\<close> of the floats around it and \<open>ulp x\<close> their spacing. An arithmetic operation returns
  its exact result rounded to the nearest float, to the one with the even \<open>m\<close> at a tie, and
  an infinity (\<open>NotReal\<close>) when the rounded magnitude is above the largest float. The two
  signed zeros are not told apart.
\<close>

definition binade :: "real \<Rightarrow> int" where
  "binade x = max \<lfloor>log 2 \<bar>x\<bar>\<rfloor> (- 1022)"

definition ulp :: "real \<Rightarrow> real" where
  "ulp x = 2 powr (of_int (binade x) - 52)"

definition round_half_even :: "real \<Rightarrow> int" where
  "round_half_even y =
     (let n = \<lfloor>y\<rfloor>
      in if y - of_int n < 1 / 2 then n
         else if 1 / 2 < y - of_int n then n + 1
         else if even n then n else n + 1)"

definition max_binary64 :: real where
  "max_binary64 = (2 ^ 53 - 1) * 2 ^ 971"

definition fl :: "real \<Rightarrow> error + real" where
  "fl x =
     (if x = 0 then Inr 0
      else let y = of_int (round_half_even (x / ulp x)) * ulp x
           in if max_binary64 < \<bar>y\<bar> then Inl NotReal else Inr y)"

text \<open>
  \<open>np.linspace(start, stop, num)\<close> operation by operation: \<open>delta = stop - start\<close>,
  \<open>step = delta / div\<close> with \<open>div = num - 1\<close>, the samples \<open>arange(0, num) * step + start\<close>
  (\<open>arange(0, num) / div * delta + start\<close> when the step has rounded to zero), and the last
  sample overwritten with \<open>stop\<close>.
\<close>

definition np_linspace_binary64 :: "real \<Rightarrow> real \<Rightarrow> int \<Rightarrow> error + real list" where
  "np_linspace_binary64 start stop num =
     (if num < 0 then Inl (ValueError ''Number of samples must be non-negative'')
      else
        let divisor = num - 1;
            y = map real [0..<nat num]
        in
        bindE (fl (stop - start)) (\<lambda>delta.
        bindE (if 0 < divisor then
                 bindE (fl (delta / of_int divisor)) (\<lambda>step.
                   if step = 0 then
                     bindE (mapE (\<lambda>y_i. fl (y_i / of_int divisor)) y) (\<lambda>y.
                       mapE (\<lambda>y_i. fl (y_i * delta)) y)
                   else mapE (\<lambda>y_i. fl (y_i * step)) y)
               else mapE (\<lambda>y_i. fl (y_i * delta)) y) (\<lambda>y.
        bindE (mapE (\<lambda>y_i. fl (y_i + start)) y) (\<lambda>y.
          Inr (if 1 < num then y[nat num - 1 := stop] else y)))))"

text \<open>
  The linear branch of \<open>_I_R_sigma2\<close>: \<open>r_array\<close> with \<open>dr = r_array[2] - r_array[1]\<close>, and
  the radii \<open>r_array + dr / 2.0\<close> that it hands to the integrand for a requested radius,
  which it clamps first.
\<close>

definition linear_grid_binary64 :: "engine \<Rightarrow> real \<Rightarrow> error + (real list \<times> real)" where
  "linear_grid_binary64 self R =
     bindE (np_linspace_binary64 R (u_max_interpolate self) (u_interp_grid_num self))
       (\<lambda>r_array.
     bindE (index r_array 2) (\<lambda>r_2.
     bindE (index r_array 1) (\<lambda>r_1.
     bindE (fl (r_2 - r_1)) (\<lambda>dr.
       Inr (r_array, dr)))))"

definition linear_radii_binary64 :: "engine \<Rightarrow> real \<Rightarrow> error + real list" where
  "linear_radii_binary64 self R0 =
     (let R = max R0 (u_min_integrate self) in
      bindE (linear_grid_binary64 self R) (\<lambda>(r_array, dr).
      bindE (fl (dr / 2)) (\<lambda>half.
        mapE (\<lambda>r_i. fl (r_i + half)) r_array)))"

text \<open>
  The radicand \<open>r**2 - R**2\<close> of \<open>_integrand_suyu10_eq21\<close> and its quotient
  \<open>sigma_s2 * r / np.sqrt(r**2 - R**2)\<close>; numpy squares by one multiplication, rounds the
  square root correctly and divides by zero without raising.
\<close>

definition integrand_radicand_binary64 :: "real \<Rightarrow> real \<Rightarrow> error + real" where
  "integrand_radicand_binary64 r R =
     bindE (fl (r * r)) (\<lambda>r_2.
     bindE (fl (R * R)) (\<lambda>R_2.
       fl (r_2 - R_2)))"

definition integrand_quotient_binary64 :: "real \<Rightarrow> real \<Rightarrow> real \<Rightarrow> error + real" where
  "integrand_quotient_binary64 sigma_s2_r r R =
     bindE (fl (sigma_s2_r * r)) (\<lambda>numerator.
     bindE (integrand_radicand_binary64 r R) (\<lambda>radicand.
     bindE (if 0 \<le> radicand then fl (sqrt radicand) else Inl NotReal) (\<lambda>root.
       if root = 0 then Inl NotReal else fl (numerator / root))))"


section \<open>Reference statements and example inputs\<close>

text \<open>
  The closed form of section 4.2 of the specification, written as the specification writes
  it: total real arithmetic, with \<open>powr\<close> for the real powers.
\<close>

definition sigma_r2_closed_form ::
  "externals \<Rightarrow> engine \<Rightarrow> real \<Rightarrow> real \<Rightarrow> real \<Rightarrow> real \<Rightarrow> real \<Rightarrow> real" where
  "sigma_r2_closed_form ext self r a gamma rho0_r0_gamma r_ani =
     (let prefac1 = 4 * pi * const_G ext * a powr (- gamma) * rho0_r0_gamma / (3 - gamma);
          prefac2 = r * (r + a) ^ 3 / (r\<^sup>2 + r_ani\<^sup>2);
          fac = (r_ani\<^sup>2 / a\<^sup>2)
                  * vel_util_hyp_2F1 ext (2 + gamma) gamma (3 + gamma) (1 / (1 + r / a))
                  / ((2 + gamma) * (r / a + 1) powr (2 + gamma))
                + vel_util_hyp_2F1 ext 3 gamma (1 + gamma) (- a / r)
                  / (gamma * (r / a) powr gamma)
      in prefac1 * prefac2 * fac * (const_arcsec ext * dd (u_cosmo self) * const_Mpc ext)\<^sup>2)"

text \<open>
  The slopes at which the radial solver has no value for \<open>r > 0\<close> and \<open>a > 0\<close>, with what
  it does there: a zero divisor at 3, -2 and 0, a pole of the second hypergeometric
  function at the other negative integers.
\<close>

definition singular_slope :: "real \<Rightarrow> error option" where
  "singular_slope gamma =
     (if gamma = 3 \<or> gamma = - 2 \<or> gamma = 0 then Some ZeroDivisionError
      else if is_integer gamma \<and> gamma < 0 then Some NotReal
      else None)"

definition example_externals :: externals where
  "example_externals =
     \<lparr> const_G = 1, const_M_sun = 1, const_Mpc = 1, const_arcsec = 1,
       vel_util_hyp_2F1 = (\<lambda>a b c z. 1),
       gamma_fn = (\<lambda>x. 1),
       light_profile_light_3d = (\<lambda>r kw. 1),
       light_profile_light_2d_finite = (\<lambda>R kw. 1),
       vel_util_draw_hernquist = (\<lambda>a. a),
       vel_util_project2d_random = (\<lambda>r. (r, r, 0)) \<rparr>"

definition example_cosmo :: cosmo where
  "example_cosmo = \<lparr> dd = 1, epsilon_crit = 1, arcsec2phys_lens = (\<lambda>theta. theta) \<rparr>"

text \<open>The engine with the constructor's default grid, mode and bounds.\<close>

definition example_engine :: engine where
  "example_engine = init example_cosmo 200 True 100 (1 / 10000)"

text \<open>
  A store with a mass dictionary at 0, a light dictionary at 1 and an anisotropy
  dictionary at 2.
\<close>

definition example_store :: store where
  "example_store =
     (\<lambda>_. Map.empty)
       (0 := [''theta_E'' \<mapsto> 1, ''gamma'' \<mapsto> 2, ''rho0_r0_gamma'' \<mapsto> 1],
        1 := [''a'' \<mapsto> 1],
        2 := [''r_ani'' \<mapsto> 1])"

text \<open>The same engine with a two-node memo in place.\<close>

definition example_engine_memo :: engine where
  "example_engine_memo = example_engine\<lparr>u_interp_sigma_r2 := Some [(0, 1), (1, 2)]\<rparr>"

text \<open>
  The \<open>i\<close>-th of the \<open>interpol_grid_num\<close> radii log-spaced between \<open>min_integrate\<close> and
  \<open>max_integrate\<close> (section 4.3 of the specification).
\<close>

definition log_spaced_radius :: "engine \<Rightarrow> nat \<Rightarrow> real" where
  "log_spaced_radius self i =
     u_min_integrate self
       * (u_max_integrate self / u_min_integrate self)
           powr (real i / (of_int (u_interp_grid_num self) - 1))"

text \<open>An engine with three grid radii between 1 and 4 that carries a memo of an earlier build.\<close>

definition example_engine_stale :: engine where
  "example_engine_stale = (init example_cosmo 3 True 4 1)\<lparr>u_interp_sigma_r2 := Some [(0, 1), (1, 2)]\<rparr>"

text \<open>
  The quadrature of section 4.5 of the specification. Log mode: the step in \<open>log r\<close>
  between \<open>log R\<close> and \<open>log max_integrate\<close>, and the \<open>i\<close>-th sample, shifted by half a
  step. Linear mode: the step between \<open>R\<close> and the upper bound, and the \<open>i\<close>-th sample,
  shifted by half a step.
\<close>

definition log_step :: "engine \<Rightarrow> real \<Rightarrow> real" where
  "log_step self R = (ln (u_max_integrate self) - ln R) / (of_int (u_interp_grid_num self) - 1)"

definition log_sample :: "engine \<Rightarrow> real \<Rightarrow> nat \<Rightarrow> real" where
  "log_sample self R i = exp (ln R + real i * log_step self R + log_step self R / 2)"

definition linear_step :: "engine \<Rightarrow> real \<Rightarrow> real" where
  "linear_step self R = (u_max_interpolate self - R) / (of_int (u_interp_grid_num self) - 1)"

definition linear_sample :: "engine \<Rightarrow> real \<Rightarrow> nat \<Rightarrow> real" where
  "linear_sample self R i = R + real i * linear_step self R + linear_step self R / 2"

text \<open>
  Engines with three grid points between 1 and 4, in log mode and in linear mode, with a
  two-node memo in place, and the default engine with two grid points.
\<close>

definition example_engine_log :: engine where
  "example_engine_log = (init example_cosmo 3 True 4 1)\<lparr>u_interp_sigma_r2 := Some [(0, 1), (1, 2)]\<rparr>"

definition example_engine_linear :: engine where
  "example_engine_linear = init example_cosmo 3 False 4 1"

definition example_engine_two_points :: engine where
  "example_engine_two_points = init example_cosmo 2 True 100 (1 / 10000)"

text \<open>
  The one change that section 3 of the specification allows on the caller's dictionaries:
  the store is as it was, or the mass dictionary had no \<open>rho0_r0_gamma\<close> and has received
  the value that equation (14) derives from its \<open>theta_E\<close> and \<open>gamma\<close>.
\<close>

definition normalisation_written_back :: "externals \<Rightarrow> engine \<Rightarrow> ref \<Rightarrow> store \<Rightarrow> store \<Rightarrow> bool" where
  "normalisation_written_back ext self kwargs_mass st st' =
     (st' = st \<or>
      (\<exists>theta_E gamma v.
         st kwargs_mass ''rho0_r0_gamma'' = None \<and>
         st kwargs_mass ''theta_E'' = Some theta_E \<and>
         st kwargs_mass ''gamma'' = Some gamma \<and>
         u_rho0_r0_gamma ext self theta_E gamma = Inr v \<and>
         st' = st(kwargs_mass := (st kwargs_mass)(''rho0_r0_gamma'' \<mapsto> v))))"

text \<open>The example store before any normalisation has been derived.\<close>

definition example_store_underived :: store where
  "example_store_underived =
     (\<lambda>_. Map.empty)
       (0 := [''theta_E'' \<mapsto> 1, ''gamma'' \<mapsto> 2],
        1 := [''a'' \<mapsto> 1],
        2 := [''r_ani'' \<mapsto> 1])"

section \<open>The linear basis aggregator\<close>

text \<open>
  The keyword dictionaries of the light models hold floats, integers (\<open>n_max\<close>) and arrays
  (\<open>amp\<close>, \<open>sigma\<close>).
\<close>

datatype pyval = PyFloat real | PyInt int | PyArray "real list"

type_synonym light_kwargs = "string \<rightharpoonup> pyval"

text \<open>
  The exceptions of this component: \<open>NotValid\<close> is the \<open>ValueError\<close> raised for a model
  tag, with its message, \<open>NegativeDimension\<close> the \<open>ValueError\<close> of \<open>np.ones\<close>;
  \<open>MissingKey\<close> and \<open>OutOfRange\<close> are \<open>KeyError\<close> and \<open>IndexError\<close>.
\<close>

datatype basis_error =
    NotValid string
  | NegativeDimension
  | MissingKey string
  | OutOfRange
  | TypeError

definition bindB :: "basis_error + 'a \<Rightarrow> ('a \<Rightarrow> basis_error + 'b) \<Rightarrow> basis_error + 'b" where
  "bindB m f = (case m of Inl e \<Rightarrow> Inl e | Inr v \<Rightarrow> f v)"

definition dict_getitem :: "light_kwargs \<Rightarrow> string \<Rightarrow> basis_error + pyval" where
  "dict_getitem d k = (case d k of None \<Rightarrow> Inl (MissingKey k) | Some v \<Rightarrow> Inr v)"

definition list_getitem :: "'a list \<Rightarrow> nat \<Rightarrow> basis_error + 'a" where
  "list_getitem xs i = (if i < length xs then Inr (xs ! i) else Inl OutOfRange)"

definition py_len :: "pyval \<Rightarrow> basis_error + nat" where
  "py_len v = (case v of PyArray xs \<Rightarrow> Inr (length xs) | _ \<Rightarrow> Inl TypeError)"

definition as_number :: "pyval \<Rightarrow> basis_error + real" where
  "as_number v = (case v of PyFloat x \<Rightarrow> Inr x | PyInt n \<Rightarrow> Inr (of_int n) | PyArray xs \<Rightarrow> Inl TypeError)"

text \<open>\<open>int(x)\<close> truncates towards zero.\<close>

definition py_int :: "real \<Rightarrow> int" where
  "py_int x = (if 0 \<le> x then \<lfloor>x\<rfloor> else \<lceil>x\<rceil>)"

text \<open>\<open>param[i]\<close> and \<open>param[i:j]\<close> on an array: a negative index counts from the end.\<close>

definition array_index :: "real list \<Rightarrow> int \<Rightarrow> basis_error + real" where
  "array_index xs i =
     (let n = int (length xs); j = (if i < 0 then n + i else i)
      in if 0 \<le> j \<and> j < n then Inr (xs ! nat j) else Inl OutOfRange)"

definition array_slice :: "real list \<Rightarrow> int \<Rightarrow> int \<Rightarrow> real list" where
  "array_slice xs i j =
     (let n = int (length xs);
          lo = (if i < 0 then max (n + i) 0 else min i n);
          hi = (if j < 0 then max (n + j) 0 else min j n)
      in take (nat (hi - lo)) (drop (nat lo) xs))"

text \<open>
  The aggregator holds the list of model tags and, by position, the profiles' evaluation
  functions, which are other modules: \<open>function\<close> gives one response, \<open>function_split\<close>
  a list of responses.
\<close>

record linear_basis =
  profile_type_list :: "string list"
  func_function :: "nat \<Rightarrow> real list \<Rightarrow> real list \<Rightarrow> light_kwargs \<Rightarrow> real list"
  func_function_split :: "nat \<Rightarrow> real list \<Rightarrow> real list \<Rightarrow> light_kwargs \<Rightarrow> real list list"

text \<open>
  The tag lists as the three methods write them: \<open>functions_split\<close> and
  \<open>num_param_linear_list\<close> in one order, \<open>update_linear\<close> in another.
\<close>

definition single_amp_models :: "string list" where
  "single_amp_models =
     [''SERSIC'', ''SERSIC_ELLIPSE'', ''CORE_SERSIC'', ''HERNQUIST'', ''HERNQUIST_ELLIPSE'',
      ''PJAFFE'', ''PJAFFE_ELLIPSE'', ''GAUSSIAN'', ''GAUSSIAN_ELLIPSE'', ''POWER_LAW'', ''NIE'',
      ''CHAMELEON'', ''DOUBLE_CHAMELEON'', ''TRIPLE_CHAMELEON'', ''UNIFORM'', ''INTERPOL'']"

definition single_amp_models_update :: "string list" where
  "single_amp_models_update =
     [''SERSIC'', ''SERSIC_ELLIPSE'', ''CORE_SERSIC'', ''HERNQUIST'', ''PJAFFE'',
      ''PJAFFE_ELLIPSE'', ''HERNQUIST_ELLIPSE'', ''GAUSSIAN'', ''GAUSSIAN_ELLIPSE'', ''POWER_LAW'',
      ''NIE'', ''CHAMELEON'', ''DOUBLE_CHAMELEON'', ''TRIPLE_CHAMELEON'', ''UNIFORM'', ''INTERPOL'']"

definition multi_gaussian_models :: "string list" where
  "multi_gaussian_models = [''MULTI_GAUSSIAN'', ''MULTI_GAUSSIAN_ELLIPSE'']"

definition shapelet_models :: "string list" where
  "shapelet_models = [''SHAPELETS'', ''SHAPELETS_POLAR'', ''SHAPELETS_POLAR_EXP'']"

definition model_not_valid :: "string \<Rightarrow> basis_error" where
  "model_not_valid model = NotValid (''model type '' @ model @ '' not valid!'')"

text \<open>The number of shapelet coefficients, written alike in the three methods.\<close>

definition shapelet_num_param :: "string \<Rightarrow> pyval \<Rightarrow> basis_error + int" where
  "shapelet_num_param model n_max =
     bindB (as_number n_max) (\<lambda>n.
       if model \<in> set [''SHAPELETS_POLAR_EXP''] then Inr (py_int ((n + 1)\<^sup>2))
       else Inr (py_int ((n + 1) * (n + 2) / 2)))"

text \<open>\<open>np.ones(num)\<close>; a negative length raises.\<close>

definition np_ones :: "int \<Rightarrow> basis_error + real list" where
  "np_ones num = (if num < 0 then Inl NegativeDimension else Inr (replicate (nat num) 1))"

text \<open>
  The body of the loop of \<open>functions_split\<close> for the model at position \<open>i\<close>: the responses
  it appends and the number it adds to \<open>n\<close>.
\<close>

definition functions_split_body ::
  "linear_basis \<Rightarrow> real list \<Rightarrow> real list \<Rightarrow> light_kwargs list \<Rightarrow> nat \<Rightarrow> string
     \<Rightarrow> basis_error + (real list list \<times> int)" where
  "functions_split_body self x y kwargs_list i model =
     (if model \<in> set single_amp_models then
        bindB (list_getitem kwargs_list i) (\<lambda>kwargs_i.
          let kwargs_new = kwargs_i(''amp'' \<mapsto> PyInt 1)
          in Inr ([func_function self i x y kwargs_new], 1))
      else if model \<in> set multi_gaussian_models then
        bindB (list_getitem kwargs_list i) (\<lambda>kwargs_i.
        bindB (dict_getitem kwargs_i ''amp'') (\<lambda>amp.
        bindB (py_len amp) (\<lambda>num.
        bindB (np_ones (int num)) (\<lambda>ones.
          let kwargs_new = kwargs_i(''amp'' \<mapsto> PyArray ones)
          in Inr (func_function_split self i x y kwargs_new, int num)))))
      else if model \<in> set shapelet_models then
        bindB (list_getitem kwargs_list i) (\<lambda>kwargs.
        bindB (dict_getitem kwargs ''n_max'') (\<lambda>n_max.
        bindB (shapelet_num_param model n_max) (\<lambda>num_param.
        bindB (np_ones num_param) (\<lambda>ones.
          let kwargs_new = kwargs(''amp'' \<mapsto> PyArray ones)
          in Inr (func_function_split self i x y kwargs_new, num_param)))))
      else Inl (model_not_valid model))"

fun functions_split_loop ::
  "linear_basis \<Rightarrow> real list \<Rightarrow> real list \<Rightarrow> light_kwargs list \<Rightarrow> nat option
     \<Rightarrow> (nat \<times> string) list \<Rightarrow> real list list \<times> int \<Rightarrow> basis_error + (real list list \<times> int)" where
  "functions_split_loop self x y kwargs_list k [] (response, n) = Inr (response, n)"
| "functions_split_loop self x y kwargs_list k ((i, model) # rest) (response, n) =
     (if k = None \<or> k = Some i then
        (case functions_split_body self x y kwargs_list i model of
           Inl e \<Rightarrow> Inl e
         | Inr (new, num) \<Rightarrow>
             functions_split_loop self x y kwargs_list k rest (response @ new, n + num))
      else functions_split_loop self x y kwargs_list k rest (response, n))"

definition functions_split ::
  "linear_basis \<Rightarrow> real list \<Rightarrow> real list \<Rightarrow> light_kwargs list \<Rightarrow> nat option
     \<Rightarrow> basis_error + (real list list \<times> int)" where
  "functions_split self x y kwargs_list k =
     functions_split_loop self x y kwargs_list k (enumerate 0 (profile_type_list self)) ([], 0)"

definition num_param_linear_body :: "light_kwargs list \<Rightarrow> nat \<Rightarrow> string \<Rightarrow> basis_error + int" where
  "num_param_linear_body kwargs_list i model =
     (if model \<in> set single_amp_models then Inr 1
      else if model \<in> set multi_gaussian_models then
        bindB (list_getitem kwargs_list i) (\<lambda>kwargs_i.
        bindB (dict_getitem kwargs_i ''sigma'') (\<lambda>sigma.
        bindB (py_len sigma) (\<lambda>num. Inr (int num))))
      else if model \<in> set shapelet_models then
        bindB (list_getitem kwargs_list i) (\<lambda>kwargs_i.
        bindB (dict_getitem kwargs_i ''n_max'') (\<lambda>n_max.
          shapelet_num_param model n_max))
      else Inl (model_not_valid model))"

fun num_param_linear_loop ::
  "light_kwargs list \<Rightarrow> (nat \<times> string) list \<Rightarrow> int list \<Rightarrow> basis_error + int list" where
  "num_param_linear_loop kwargs_list [] n_list = Inr n_list"
| "num_param_linear_loop kwargs_list ((i, model) # rest) n_list =
     (case num_param_linear_body kwargs_list i model of
        Inl e \<Rightarrow> Inl e
      | Inr num \<Rightarrow> num_param_linear_loop kwargs_list rest (n_list @ [num]))"

definition num_param_linear_list :: "linear_basis \<Rightarrow> light_kwargs list \<Rightarrow> basis_error + int list" where
  "num_param_linear_list self kwargs_list =
     num_param_linear_loop kwargs_list (enumerate 0 (profile_type_list self)) []"

text \<open>\<open>num_param_linear\<close> with \<open>list_return=False\<close>: the sum of the list.\<close>

definition num_param_linear :: "linear_basis \<Rightarrow> light_kwargs list \<Rightarrow> basis_error + int" where
  "num_param_linear self kwargs_list =
     bindB (num_param_linear_list self kwargs_list) (\<lambda>n_list. Inr (sum_list n_list))"

text \<open>
  The body of the loop of \<open>update_linear\<close>: the right-hand side is evaluated before the
  dictionary is looked up and written. The list is updated in place, so a failure leaves
  the entries written so far.
\<close>

definition setitem_amp :: "light_kwargs list \<Rightarrow> nat \<Rightarrow> pyval \<Rightarrow> basis_error + light_kwargs list" where
  "setitem_amp kwargs_list k v =
     bindB (list_getitem kwargs_list k) (\<lambda>kwargs_k.
       Inr (kwargs_list[k := kwargs_k(''amp'' \<mapsto> v)]))"

definition update_linear_body ::
  "real list \<Rightarrow> int \<Rightarrow> light_kwargs list \<Rightarrow> nat \<Rightarrow> string
     \<Rightarrow> basis_error + (light_kwargs list \<times> int)" where
  "update_linear_body param i kwargs_list k model =
     (if model \<in> set single_amp_models_update then
        bindB (array_index param i) (\<lambda>v.
        bindB (setitem_amp kwargs_list k (PyFloat v)) (\<lambda>kwargs_list'.
          Inr (kwargs_list', i + 1)))
      else if model \<in> set multi_gaussian_models then
        bindB (list_getitem kwargs_list k) (\<lambda>kwargs_k.
        bindB (dict_getitem kwargs_k ''sigma'') (\<lambda>sigma.
        bindB (py_len sigma) (\<lambda>num_param.
        bindB (setitem_amp kwargs_list k (PyArray (array_slice param i (i + int num_param))))
          (\<lambda>kwargs_list'. Inr (kwargs_list', i + int num_param)))))
      else if model \<in> set shapelet_models then
        bindB (list_getitem kwargs_list k) (\<lambda>kwargs_k.
        bindB (dict_getitem kwargs_k ''n_max'') (\<lambda>n_max.
        bindB (shapelet_num_param model n_max) (\<lambda>num_param.
        bindB (setitem_amp kwargs_list k (PyArray (array_slice param i (i + num_param))))
          (\<lambda>kwargs_list'. Inr (kwargs_list', i + num_param)))))
      else Inl (model_not_valid model))"

fun update_linear_loop ::
  "real list \<Rightarrow> (nat \<times> string) list \<Rightarrow> light_kwargs list \<times> int
     \<Rightarrow> (basis_error + int) \<times> light_kwargs list" where
  "update_linear_loop param [] (kwargs_list, i) = (Inr i, kwargs_list)"
| "update_linear_loop param ((k, model) # rest) (kwargs_list, i) =
     (case update_linear_body param i kwargs_list k model of
        Inl e \<Rightarrow> (Inl e, kwargs_list)
      | Inr (kwargs_list', i') \<Rightarrow> update_linear_loop param rest (kwargs_list', i'))"

definition update_linear ::
  "linear_basis \<Rightarrow> real list \<Rightarrow> int \<Rightarrow> light_kwargs list \<Rightarrow> (basis_error + int) \<times> light_kwargs list" where
  "update_linear self param i kwargs_list =
     update_linear_loop param (enumerate 0 (profile_type_list self)) (kwargs_list, i)"

subsection \<open>Reference statements and example inputs of the aggregator\<close>

text \<open>
  A dictionary matches its model tag when the tag is supported and the dictionary has what
  the three methods read: for the multi-Gaussian models arrays \<open>amp\<close> and \<open>sigma\<close> of one
  length, for the shapelet models a number \<open>n_max\<close>.
\<close>

definition matching_entry :: "string \<Rightarrow> light_kwargs \<Rightarrow> bool" where
  "matching_entry model kwargs =
     (if model \<in> set single_amp_models then True
      else if model \<in> set multi_gaussian_models then
        (case (kwargs ''amp'', kwargs ''sigma'') of
           (Some (PyArray amp), Some (PyArray sigma)) \<Rightarrow> length amp = length sigma
         | _ \<Rightarrow> False)
      else if model \<in> set shapelet_models then
        (case kwargs ''n_max'' of
           Some (PyInt n) \<Rightarrow> True
         | Some (PyFloat n) \<Rightarrow> True
         | _ \<Rightarrow> False)
      else False)"

text \<open>The number of linear coefficients of one model with its dictionary.\<close>

definition linear_count :: "string \<Rightarrow> light_kwargs \<Rightarrow> int" where
  "linear_count model kwargs =
     (if model \<in> set single_amp_models then 1
      else if model \<in> set multi_gaussian_models then
        (case kwargs ''sigma'' of Some (PyArray sigma) \<Rightarrow> int (length sigma) | _ \<Rightarrow> 0)
      else
        (case kwargs ''n_max'' of
           Some n_max \<Rightarrow> (case shapelet_num_param model n_max of Inr num \<Rightarrow> num | Inl e \<Rightarrow> 0)
         | None \<Rightarrow> 0))"

text \<open>
  What the aggregator expects of the profiles: \<open>function_split\<close> returns one response for
  each amplitude it is given.
\<close>

definition one_response_per_amplitude :: "linear_basis \<Rightarrow> bool" where
  "one_response_per_amplitude self =
     (\<forall>i x y kwargs amp. kwargs ''amp'' = Some (PyArray amp)
        \<longrightarrow> length (func_function_split self i x y kwargs) = length amp)"

definition example_profile_split :: "nat \<Rightarrow> real list \<Rightarrow> real list \<Rightarrow> light_kwargs \<Rightarrow> real list list" where
  "example_profile_split i x y kwargs =
     (case kwargs ''amp'' of Some (PyArray amp) \<Rightarrow> map (\<lambda>a. map (\<lambda>x_j. a) x) amp | _ \<Rightarrow> [])"

definition example_basis :: "string list \<Rightarrow> linear_basis" where
  "example_basis light_model_list =
     \<lparr> profile_type_list = light_model_list,
       func_function = (\<lambda>i x y kwargs. map (\<lambda>x_j. 1) x),
       func_function_split = example_profile_split \<rparr>"

text \<open>
  Three models with matching dictionaries, and a multi-Gaussian dictionary with one
  amplitude and two widths.
\<close>

definition example_models :: "string list" where
  "example_models = [''SERSIC'', ''MULTI_GAUSSIAN'', ''SHAPELETS'']"

definition example_kwargs_list :: "light_kwargs list" where
  "example_kwargs_list =
     [Map.empty,
      [''amp'' \<mapsto> PyArray [1, 1], ''sigma'' \<mapsto> PyArray [1, 2]],
      [''n_max'' \<mapsto> PyInt 1]]"

definition example_kwargs_one_amp_two_sigma :: "light_kwargs list" where
  "example_kwargs_one_amp_two_sigma = [[''amp'' \<mapsto> PyArray [1], ''sigma'' \<mapsto> PyArray [1, 2]]]"

section \<open>The hypergeometric function\<close>

text \<open>
  Modelled from the spec: \<open>vel_util.hyp_2F1\<close> is not among the sources; section 6 of the
  specification names it the Gauss hypergeometric function \<open>\<^sub>2F\<^sub>1(a, b; c; z)\<close>. That function
  is the sum of the hypergeometric series for \<open>0 \<le> z < 1\<close> and, for \<open>z < 0\<close>, its
  continuation, which Pfaff's transformation expresses by the series at \<open>z / (z - 1)\<close>.
\<close>

definition hyp_series_term :: "real \<Rightarrow> real \<Rightarrow> real \<Rightarrow> real \<Rightarrow> nat \<Rightarrow> real" where
  "hyp_series_term a b c z n =
     pochhammer a n * pochhammer b n / (pochhammer c n * fact n) * z ^ n"

definition hyp_series :: "real \<Rightarrow> real \<Rightarrow> real \<Rightarrow> real \<Rightarrow> real" where
  "hyp_series a b c z = (\<Sum>n. hyp_series_term a b c z n)"

definition gauss_2F1 :: "real \<Rightarrow> real \<Rightarrow> real \<Rightarrow> real \<Rightarrow> real" where
  "gauss_2F1 a b c z =
     (if z < 0 then (1 - z) powr (- a) * hyp_series a (c - b) c (z / (z - 1))
      else hyp_series a b c z)"

text \<open>The example collaborators with the hypergeometric function in its place.\<close>

definition example_externals_gauss :: externals where
  "example_externals_gauss = example_externals\<lparr>vel_util_hyp_2F1 := gauss_2F1\<rparr>"

section \<open>Properties of the engine\<close>

lemma bindE_simps [simp]:
  "bindE (Inl e) f = Inl e"
  "bindE (Inr v) f = f v"
  by (simp_all add: bindE_def)

subsection \<open>Resolution of the Hernquist scale\<close>

lemma hernquist_a_cases:
  "hernquist_a d =
     (case d ''a'' of Some v \<Rightarrow> Inr v
      | None \<Rightarrow> (case d ''Rs'' of Some v \<Rightarrow> Inr v
         | None \<Rightarrow> (case d ''r_eff'' of Some v \<Rightarrow> Inr (0.551 * v)
            | None \<Rightarrow> Inl (ValueError ''Hernquist half-light radius can not be determined!''))))"
  by (auto simp: hernquist_a_def getitem_def dom_def split: option.splits)

lemma draw_light_fails_iff: "(\<exists>e. draw_light ext d = Inl e) \<longleftrightarrow> (\<exists>e. hernquist_a d = Inl e)"
  by (cases "hernquist_a d") (auto simp: draw_light_def Let_def split: prod.splits)

lemma bindE_Inl_iff: "bindE m f = Inl e \<longleftrightarrow> m = Inl e \<or> (\<exists>v. m = Inr v \<and> f v = Inl e)"
  by (cases m) simp_all

lemma bindE_Inr_iff: "bindE m f = Inr w \<longleftrightarrow> (\<exists>v. m = Inr v \<and> f v = Inr w)"
  by (cases m) simp_all

lemma u_rho0_r0_gamma_error:
  assumes "u_rho0_r0_gamma ext self t g = Inl e"
  shows "e = ValueError ''math domain error'' \<or> e = NotReal \<or> e = ZeroDivisionError"
  using assms unfolding u_rho0_r0_gamma_def bindE_Inl_iff
  by (auto simp: math_gamma_def np_div_def py_pow_def split: if_splits)

lemma getitem_error: "getitem d k = Inl e \<Longrightarrow> e = KeyError k"
  by (auto simp: getitem_def split: option.splits)

lemma u_read_out_params_error:
  assumes "fst (u_read_out_params ext self st m l k) = Inl e"
  shows "hernquist_a (st l) = Inl e \<or> (\<exists>key. e = KeyError key)
         \<or> e = ValueError ''math domain error'' \<or> e = NotReal \<or> e = ZeroDivisionError"
proof (cases "hernquist_a (st l)")
  case (Inl e')
  then show ?thesis using assms by (simp add: u_read_out_params_def)
next
  case (Inr a)
  show ?thesis
  proof (cases "''rho0_r0_gamma'' \<in> dom (st m)")
    case True
    then have "bindE (getitem (st m) ''gamma'') (\<lambda>gamma.
              bindE (getitem (st m) ''rho0_r0_gamma'') (\<lambda>rho0.
              bindE (getitem (st k) ''r_ani'') (\<lambda>r_ani.
                Inr (a, gamma, rho0, r_ani)))) = Inl e"
      using assms Inr by (simp add: u_read_out_params_def)
    then show ?thesis
      unfolding bindE_Inl_iff by (auto dest: getitem_error)
  next
    case False
    let ?d = "bindE (getitem (st m) ''theta_E'') (\<lambda>theta_E.
                bindE (getitem (st m) ''gamma'') (\<lambda>gamma. u_rho0_r0_gamma ext self theta_E gamma))"
    show ?thesis
    proof (cases ?d)
      case (Inl e')
      then have "e = e'" using assms Inr False by (simp add: u_read_out_params_def)
      then show ?thesis
        using Inl unfolding bindE_Inl_iff
        by (auto dest: getitem_error u_rho0_r0_gamma_error)
    next
      case d: (Inr v)
      let ?st = "st(m := (st m)(''rho0_r0_gamma'' \<mapsto> v))"
      have "bindE (getitem (?st m) ''gamma'') (\<lambda>gamma.
              bindE (getitem (?st m) ''rho0_r0_gamma'') (\<lambda>rho0.
              bindE (getitem (?st k) ''r_ani'') (\<lambda>r_ani.
                Inr (a, gamma, rho0, r_ani)))) = Inl e"
        using assms Inr False d by (simp add: u_read_out_params_def)
      then show ?thesis
        unfolding bindE_Inl_iff by (auto dest: getitem_error)
    qed
  qed
qed

lemma u_read_out_params_config_error:
  "fst (u_read_out_params ext self st m l k)
     = Inl (ValueError ''Hernquist half-light radius can not be determined!'')
   \<longleftrightarrow> hernquist_a (st l)
     = Inl (ValueError ''Hernquist half-light radius can not be determined!'')"
proof
  assume "fst (u_read_out_params ext self st m l k)
     = Inl (ValueError ''Hernquist half-light radius can not be determined!'')"
  from u_read_out_params_error [OF this] show "hernquist_a (st l)
     = Inl (ValueError ''Hernquist half-light radius can not be determined!'')"
    by simp
next
  assume "hernquist_a (st l)
     = Inl (ValueError ''Hernquist half-light radius can not be determined!'')"
  then show "fst (u_read_out_params ext self st m l k)
     = Inl (ValueError ''Hernquist half-light radius can not be determined!'')"
    by (simp add: u_read_out_params_def)
qed

lemma u_read_out_params_scale:
  "fst (u_read_out_params ext self st m l k) = Inr (a, g, rho, ra) \<Longrightarrow> hernquist_a (st l) = Inr a"
  by (auto simp: u_read_out_params_def bindE_def split: sum.splits if_splits)

text \<open>
  C4. The Hernquist scale is key \<open>a\<close> when present, else \<open>Rs\<close>, else \<open>0.551 * r_eff\<close>; the
  resolution fails, with the \<open>ValueError\<close> that names the half-light radius, exactly when
  none of the three keys is present. \<open>draw_light\<close> fails exactly then, and
  \<open>_read_out_params\<close>, through which \<open>sigma_r2\<close>, \<open>sigma_s2\<close> and the aggregator read their
  parameters, raises that error exactly then and otherwise returns the resolved scale.
  So \<open>{Rs: 2.0}\<close> gives 2.0 and \<open>{r_eff: 10.0}\<close> gives 5.51.
\<close>

theorem hernquist_scale_resolution:
  "(d ''a'' = Some v \<longrightarrow> hernquist_a d = Inr v) \<and>
   (d ''a'' = None \<and> d ''Rs'' = Some v \<longrightarrow> hernquist_a d = Inr v) \<and>
   (d ''a'' = None \<and> d ''Rs'' = None \<and> d ''r_eff'' = Some v
      \<longrightarrow> hernquist_a d = Inr (0.551 * v)) \<and>
   ((\<exists>e. hernquist_a d = Inl e) \<longleftrightarrow> d ''a'' = None \<and> d ''Rs'' = None \<and> d ''r_eff'' = None) \<and>
   (d ''a'' = None \<and> d ''Rs'' = None \<and> d ''r_eff'' = None \<longrightarrow>
      hernquist_a d = Inl (ValueError ''Hernquist half-light radius can not be determined!'')) \<and>
   ((\<exists>e. draw_light ext d = Inl e) \<longleftrightarrow> d ''a'' = None \<and> d ''Rs'' = None \<and> d ''r_eff'' = None) \<and>
   (fst (u_read_out_params ext self st m l k)
       = Inl (ValueError ''Hernquist half-light radius can not be determined!'')
      \<longleftrightarrow> st l ''a'' = None \<and> st l ''Rs'' = None \<and> st l ''r_eff'' = None) \<and>
   (fst (u_read_out_params ext self st m l k) = Inr (a, g, rho, ra)
      \<longrightarrow> hernquist_a (st l) = Inr a) \<and>
   hernquist_a [''Rs'' \<mapsto> 2.0] = Inr 2.0 \<and>
   hernquist_a [''r_eff'' \<mapsto> 10.0] = Inr 5.51"
proof -
  have fails: "(\<exists>e. hernquist_a d' = Inl e) \<longleftrightarrow> d' ''a'' = None \<and> d' ''Rs'' = None \<and> d' ''r_eff'' = None"
    for d'
    by (auto simp: hernquist_a_cases split: option.splits)
  have msg: "hernquist_a d' = Inl (ValueError ''Hernquist half-light radius can not be determined!'')
      \<longleftrightarrow> d' ''a'' = None \<and> d' ''Rs'' = None \<and> d' ''r_eff'' = None" for d'
    by (auto simp: hernquist_a_cases split: option.splits)
  have resolved: "(d ''a'' = Some v \<longrightarrow> hernquist_a d = Inr v) \<and>
      (d ''a'' = None \<and> d ''Rs'' = Some v \<longrightarrow> hernquist_a d = Inr v) \<and>
      (d ''a'' = None \<and> d ''Rs'' = None \<and> d ''r_eff'' = Some v
         \<longrightarrow> hernquist_a d = Inr (0.551 * v))"
    by (simp add: hernquist_a_cases)
  have examples: "hernquist_a [''Rs'' \<mapsto> 2.0] = Inr 2.0 \<and> hernquist_a [''r_eff'' \<mapsto> 10.0] = Inr 5.51"
    by (simp add: hernquist_a_cases)
  show ?thesis
    using resolved examples fails [of d] msg [of d] msg [of "st l"]
      draw_light_fails_iff [of ext d] u_read_out_params_config_error [of ext self st m l k]
      u_read_out_params_scale [of ext self st m l k a g rho ra]
    by blast
qed

theorem hernquist_scale_resolution_witness:
  "hernquist_a [''a'' \<mapsto> 3, ''Rs'' \<mapsto> 2] = Inr 3 \<and>
   hernquist_a [''Rs'' \<mapsto> 2, ''r_eff'' \<mapsto> 10] = Inr 2 \<and>
   hernquist_a [''r_eff'' \<mapsto> 10] = Inr (0.551 * 10) \<and>
   hernquist_a Map.empty = Inl (ValueError ''Hernquist half-light radius can not be determined!'') \<and>
   (\<exists>e. draw_light example_externals Map.empty = Inl e) \<and>
   fst (u_read_out_params example_externals example_engine example_store 0 2 2)
     = Inl (ValueError ''Hernquist half-light radius can not be determined!'') \<and>
   fst (u_read_out_params example_externals example_engine example_store 0 1 2) = Inr (1, 2, 1, 1) \<and>
   hernquist_a (example_store 1) = Inr 1"
proof -
  have r: "fst (u_read_out_params example_externals example_engine example_store 0 1 2)
             = Inr (1, 2, 1, 1)"
    by (simp add: u_read_out_params_def hernquist_a_cases example_store_def getitem_def)
  show ?thesis
    using r
      hernquist_scale_resolution [of "[''a'' \<mapsto> 3, ''Rs'' \<mapsto> 2]" 3]
      hernquist_scale_resolution [of "[''Rs'' \<mapsto> 2, ''r_eff'' \<mapsto> 10]" 2]
      hernquist_scale_resolution [of "[''r_eff'' \<mapsto> 10]" 10]
      hernquist_scale_resolution [of Map.empty 0 example_externals example_engine example_store 0 2 2]
      hernquist_scale_resolution [of Map.empty 0 example_externals example_engine example_store 0 1 2
        1 2 1 1]
    by (simp add: example_store_def)
qed

subsection \<open>The radial solver\<close>

lemma is_integer_of_int [simp]: "is_integer (of_int k)"
  by (simp add: is_integer_def)

lemma is_integer_numeral [simp]:
  "is_integer 0" "is_integer 1" "is_integer (numeral n)" "is_integer (- 1)"
  "is_integer (- numeral n)"
  by (simp_all add: is_integer_def)

lemma is_integer_iff: "is_integer x \<longleftrightarrow> (\<exists>k. x = of_int k)"
  by (auto simp: is_integer_def)

lemma is_integer_add_numeral [simp]:
  "is_integer (numeral n + x) \<longleftrightarrow> is_integer x"
  "is_integer (1 + x) \<longleftrightarrow> is_integer x"
  by (simp_all add: is_integer_def)

lemma is_integer_negative: "is_integer x \<Longrightarrow> x < 0 \<Longrightarrow> x \<le> - 1"
  by (auto simp: is_integer_iff)

lemma hyp_2F1_pole_first:
  "hyp_2F1_pole (2 + gamma) gamma (3 + gamma) \<longleftrightarrow> is_integer gamma \<and> gamma \<le> - 3"
  by (auto simp: hyp_2F1_pole_def)

lemma hyp_2F1_pole_second:
  "hyp_2F1_pole 3 gamma (1 + gamma) \<longleftrightarrow> is_integer gamma \<and> gamma < 0"
  using is_integer_negative [of gamma] by (auto simp: hyp_2F1_pole_def)

lemma singular_slope_None_iff:
  "singular_slope gamma = None \<longleftrightarrow> gamma \<noteq> 3 \<and> \<not> (is_integer gamma \<and> gamma \<le> 0)"
  by (auto simp: singular_slope_def)

lemma singular_slope_between [simp]:
  "0 < gamma \<Longrightarrow> gamma < 3 \<Longrightarrow> singular_slope gamma = None"
  by (simp add: singular_slope_None_iff)

lemma u_sigma_r2_cases:
  assumes "0 < r" "0 < a"
  shows "u_sigma_r2 ext self r a gamma rho r_ani =
           (case singular_slope gamma of
              Some e \<Rightarrow> Inl e
            | None \<Rightarrow> Inr (sigma_r2_closed_form ext self r a gamma rho r_ani))"
proof -
  have ra: "0 < r / a" using assms by simp
  have d2: "r\<^sup>2 + r_ani\<^sup>2 \<noteq> 0"
    using assms by (metis add_pos_nonneg less_numeral_extra(3) zero_le_power2 zero_less_power)
  have d3: "1 + r / a \<noteq> 0" using ra by linarith
  have d3': "0 < r / a + 1" using ra by linarith
  show ?thesis
    using assms ra d2 d3 d3' is_integer_negative [of gamma]
    by (simp add: u_sigma_r2_def py_pow_def py_div_def sigma_r2_closed_form_def Let_def
          singular_slope_def hyp_2F1_def hyp_2F1_pole_first hyp_2F1_pole_second
          py_div_extended_def times_extended_def plus_extended_def)
qed

lemma u_sigma_r2_regular:
  assumes "0 < r" "0 < a" "singular_slope gamma = None"
  shows "u_sigma_r2 ext self r a gamma rho r_ani
           = Inr (sigma_r2_closed_form ext self r a gamma rho r_ani)"
  using assms by (simp add: u_sigma_r2_cases)

lemma u_sigma_r2_memo_independent:
  "u_sigma_r2 ext (self\<lparr>u_interp_sigma_r2 := m\<rparr>) r a gamma rho r_ani
     = u_sigma_r2 ext self r a gamma rho r_ani"
  by (simp add: u_sigma_r2_def cong: option.case_cong)

text \<open>
  C1, amended. For \<open>r > 0\<close>, \<open>a > 0\<close> and a slope \<open>gamma\<close> other than 3 and the
  non-positive integers 0, -1, -2, ..., the radial solver returns
  \<open>prefac1 * prefac2 * fac * (arcsec * dd * Mpc)\<^sup>2\<close> of section 4.2.
  It does not read the memo: with any memo in place it returns the same value, computed
  from the two hypergeometric values of this call. The public \<open>sigma_r2\<close> returns that
  value for the parameters that \<open>_read_out_params\<close> resolves.
\<close>

theorem sigma_r2_closed_form_regular_slope:
  assumes "0 < r" and "0 < a" and "gamma \<noteq> 3" and "\<not> (is_integer gamma \<and> gamma \<le> 0)"
  shows "u_sigma_r2 ext self r a gamma rho r_ani
           = Inr (sigma_r2_closed_form ext self r a gamma rho r_ani) \<and>
         u_sigma_r2 ext (self\<lparr>u_interp_sigma_r2 := m\<rparr>) r a gamma rho r_ani
           = Inr (sigma_r2_closed_form ext self r a gamma rho r_ani) \<and>
         (u_read_out_params ext self st km kl ka = (Inr (a, gamma, rho, r_ani), st')
            \<longrightarrow> sigma_r2 ext self st r km kl ka
                  = (Inr (sigma_r2_closed_form ext self r a gamma rho r_ani), st'))"
  using assms
  by (simp add: u_sigma_r2_regular singular_slope_None_iff u_sigma_r2_memo_independent
        sigma_r2_def)

theorem sigma_r2_closed_form_regular_slope_witness:
  "(0::real) < 1 \<and> (2::real) \<noteq> 3 \<and> \<not> (is_integer 2 \<and> (2::real) \<le> 0) \<and>
   (- 1 / 2 :: real) \<noteq> 3 \<and> \<not> (is_integer (- 1 / 2) \<and> (- 1 / 2 :: real) \<le> 0) \<and>
   u_sigma_r2 example_externals example_engine 1 1 (- 1 / 2) 1 1
     = Inr (sigma_r2_closed_form example_externals example_engine 1 1 (- 1 / 2) 1 1) \<and>
   u_sigma_r2 example_externals example_engine 1 1 2 1 1
     = Inr (sigma_r2_closed_form example_externals example_engine 1 1 2 1 1) \<and>
   u_sigma_r2 example_externals example_engine_memo 1 1 2 1 1
     = Inr (sigma_r2_closed_form example_externals example_engine 1 1 2 1 1) \<and>
   sigma_r2 example_externals example_engine example_store 1 0 1 2
     = (Inr (sigma_r2_closed_form example_externals example_engine 1 1 2 1 1), example_store)"
proof -
  have p: "u_read_out_params example_externals example_engine example_store 0 1 2
             = (Inr (1, 2, 1, 1), example_store)"
    by (simp add: u_read_out_params_def hernquist_a_cases example_store_def getitem_def)
  have half: "\<not> is_integer (- 1 / 2)"
    by (simp add: is_integer_def)
  show ?thesis
    using p half sigma_r2_closed_form_regular_slope [of 1 1 2 example_externals example_engine 1 1
        "Some [(0, 1), (1, 2)]" example_store 0 1 2 example_store]
      sigma_r2_closed_form_regular_slope [of 1 1 "- 1 / 2" example_externals example_engine 1 1]
    by (simp add: example_engine_memo_def)
qed

text \<open>
  C1 as the specification states it excludes the slopes 0 and 3 only. At \<open>gamma = -2\<close> the divisor
  \<open>(2 + gamma) * (r / a + 1) ** (2 + gamma)\<close> of the first term of \<open>fac\<close> is zero, and
  the solver returns no value.
\<close>

theorem sigma_r2_slope_minus_two_counterexample:
  "u_sigma_r2 example_externals example_engine 1 1 (- 2) 1 1 = Inl ZeroDivisionError"
  by (simp add: u_sigma_r2_def py_pow_def py_div_def py_div_extended_def example_externals_def)

text \<open>
  At the other negative integers no divisor is zero, and the second hypergeometric function
  \<open>\<^sub>2F\<^sub>1(3, gamma; 1 + gamma; -a / r)\<close> is at a pole: at \<open>gamma = -1\<close> the solver raises
  nothing and returns no real number. At \<open>gamma = -3\<close> the first function is at a pole
  as well.
\<close>

lemma sigma_r2_slope_minus_one_pole:
  "u_sigma_r2 example_externals example_engine 1 1 (- 1) 1 1 = Inl NotReal"
  "hyp_2F1 example_externals (2 + - 3) (- 3) (3 + - 3) (1 / 2) = None"
  "u_sigma_r2 example_externals example_engine 1 1 (- 3) 1 1 = Inl NotReal"
  using u_sigma_r2_cases [of 1 1 example_externals example_engine "- 1" 1 1]
    u_sigma_r2_cases [of 1 1 example_externals example_engine "- 3" 1 1]
  by (simp_all add: singular_slope_def hyp_2F1_def hyp_2F1_pole_def)

subsection \<open>The memo in place\<close>

lemma ensure_interp_sigma_r2_memo:
  "u_interp_sigma_r2 self = Some t \<Longrightarrow>
     ensure_interp_sigma_r2 ext self a gamma rho r_ani = (Inr t, self)"
  by (simp add: ensure_interp_sigma_r2_def)

lemma ensure_interp_sigma_r2_built:
  "ensure_interp_sigma_r2 ext self a gamma rho r_ani = (Inr t, self')
     \<Longrightarrow> u_interp_sigma_r2 self' = Some t"
  by (auto simp: ensure_interp_sigma_r2_def split: option.splits sum.splits)

lemma u_sigma_r2_interp_memo:
  "u_interp_sigma_r2 self = Some t \<Longrightarrow>
     u_sigma_r2_interp ext self r a gamma rho r_ani = (bindE (np_log r) (interp1d_call t), self)"
  by (simp add: u_sigma_r2_interp_def ensure_interp_sigma_r2_memo)

lemma u_sigma_r2_interp_built:
  assumes "u_sigma_r2_interp ext self r a gamma rho r_ani = (Inr v, self')"
  shows "\<exists>t. u_interp_sigma_r2 self' = Some t"
proof (cases "ensure_interp_sigma_r2 ext self a gamma rho r_ani")
  case (Pair res s)
  then show ?thesis
    using assms by (cases res) (auto simp: u_sigma_r2_interp_def dest: ensure_interp_sigma_r2_built)
qed

lemma interp1d_call_not_raised: "\<not> raised (interp1d_call t x)"
  by (simp add: interp1d_call_def raised_def np_div_def Let_def)

lemma lookup_not_raised: "\<not> raised (bindE (np_log r) (interp1d_call t))"
  by (cases "0 < r") (simp_all add: np_log_def interp1d_call_not_raised, simp add: raised_def)

text \<open>
  C6. With the memo in place, \<open>_sigma_r2_interp\<close> returns the table's value at \<open>log r\<close> and
  leaves the engine as it is, whatever parameters it is given: two calls at the same
  radius with different \<open>(a, gamma, rho0_r0_gamma, r_ani)\<close> return the same result, and
  none raises. So after a call has built the memo for one parameter tuple, a call with
  another tuple returns the value of the first.
\<close>

theorem stale_memo_ignores_parameters:
  "(u_interp_sigma_r2 self = Some t \<longrightarrow>
      u_sigma_r2_interp ext self r a gamma rho r_ani
        = u_sigma_r2_interp ext self r a' gamma' rho' r_ani' \<and>
      u_sigma_r2_interp ext self r a' gamma' rho' r_ani'
        = (bindE (np_log r) (interp1d_call t), self) \<and>
      \<not> raised (fst (u_sigma_r2_interp ext self r a' gamma' rho' r_ani'))) \<and>
   (u_sigma_r2_interp ext self0 r0 a gamma rho r_ani = (Inr v, self) \<longrightarrow>
      u_sigma_r2_interp ext self r a' gamma' rho' r_ani'
        = u_sigma_r2_interp ext self r a gamma rho r_ani \<and>
      \<not> raised (fst (u_sigma_r2_interp ext self r a' gamma' rho' r_ani')))"
proof -
  have memo: "u_sigma_r2_interp ext self r a gamma rho r_ani
        = u_sigma_r2_interp ext self r a' gamma' rho' r_ani' \<and>
      u_sigma_r2_interp ext self r a' gamma' rho' r_ani'
        = (bindE (np_log r) (interp1d_call t), self) \<and>
      \<not> raised (fst (u_sigma_r2_interp ext self r a' gamma' rho' r_ani'))"
    if "u_interp_sigma_r2 self = Some t" for t
    using that by (simp add: u_sigma_r2_interp_memo lookup_not_raised)
  show ?thesis
  proof (intro conjI impI)
    assume "u_sigma_r2_interp ext self0 r0 a gamma rho r_ani = (Inr v, self)"
    then obtain t' where "u_interp_sigma_r2 self = Some t'"
      using u_sigma_r2_interp_built by blast
    from memo [OF this]
    show "u_sigma_r2_interp ext self r a' gamma' rho' r_ani'
        = u_sigma_r2_interp ext self r a gamma rho r_ani"
      and "\<not> raised (fst (u_sigma_r2_interp ext self r a' gamma' rho' r_ani'))"
      by (simp_all add: lookup_not_raised)
  qed (use memo in \<open>simp_all add: lookup_not_raised\<close>)
qed

lemma example_memo_lookup:
  "bindE (np_log 1) (interp1d_call [(0, 1), (1, 2)]) = Inr 1"
  by (simp add: np_log_def interp1d_call_def searchsorted_def np_div_def Let_def)

theorem stale_memo_ignores_parameters_witness:
  "u_interp_sigma_r2 example_engine_memo = Some [(0, 1), (1, 2)] \<and>
   u_sigma_r2_interp example_externals example_engine_memo 1 1 2 1 1 = (Inr 1, example_engine_memo) \<and>
   u_sigma_r2_interp example_externals example_engine_memo 1 5 1 7 3 = (Inr 1, example_engine_memo) \<and>
   \<not> raised (fst (u_sigma_r2_interp example_externals example_engine_memo 1 5 1 7 3))"
proof -
  have m: "u_interp_sigma_r2 example_engine_memo = Some [(0, 1), (1, 2)]"
    by (simp add: example_engine_memo_def)
  have b: "u_sigma_r2_interp example_externals example_engine_memo 1 1 2 1 1
             = (Inr 1, example_engine_memo)"
    by (simp add: u_sigma_r2_interp_memo [OF m] example_memo_lookup)
  show ?thesis
    using m b
      stale_memo_ignores_parameters [of example_engine_memo "[(0, 1), (1, 2)]" example_externals
        1 1 2 1 1 5 1 7 3 example_engine_memo 1 1]
    by (simp add: example_memo_lookup raised_def)
qed

subsection \<open>Arrays\<close>

lemma mapE_Inr: "(\<And>x. x \<in> set xs \<Longrightarrow> f x = Inr (g x)) \<Longrightarrow> mapE f xs = Inr (map g xs)"
  by (induction xs) simp_all

lemma mapE_Inl: "xs \<noteq> [] \<Longrightarrow> (\<And>x. x \<in> set xs \<Longrightarrow> f x = Inl e) \<Longrightarrow> mapE f xs = Inl e"
  by (cases xs) simp_all

lemma np_linspace_samples:
  "2 \<le> num \<Longrightarrow>
     np_linspace start stop num
       = Inr (map (\<lambda>i. start + real i * ((stop - start) / (of_int num - 1))) [0..<nat num])"
  by (simp add: np_linspace_def)

lemma np_logspace_samples:
  "2 \<le> num \<Longrightarrow>
     np_logspace start stop num base
       = Inr (map (\<lambda>i. base powr (start + real i * ((stop - start) / (of_int num - 1))))
                [0..<nat num])"
  by (simp add: np_logspace_def np_linspace_samples comp_def)

lemma searchsorted_node:
  assumes "sorted_wrt (<) xs" and "i < length xs"
  shows "searchsorted xs (xs ! i) = i"
proof -
  have "takeWhile (\<lambda>x. x < xs ! i) xs = take i xs"
  proof (rule takeWhile_eq_take_P_nth)
    fix j assume "j < i" "j < length xs"
    then show "xs ! j < xs ! i"
      using assms sorted_wrt_nth_less by blast
  qed simp
  then show ?thesis
    using assms(2) by (simp add: searchsorted_def)
qed

lemma interp1d_sorted:
  assumes "sorted_wrt (<) xs" and "length xs = length ys" and "xs \<noteq> []"
  shows "interp1d xs ys = Inr (zip xs ys)"
proof -
  have "sorted xs"
    using assms(1) by (rule sorted_wrt_mono_rel [rotated]) simp
  then have "sorted (map fst (zip xs ys))"
    using assms(2) by simp
  then have "sort_key fst (zip xs ys) = zip xs ys"
    by (rule sort_key_id_if_sorted)
  then show ?thesis
    using assms by (simp add: interp1d_def)
qed

lemma interp1d_call_node:
  assumes sorted: "sorted_wrt (<) xs" and len: "length xs = length ys" "2 \<le> length xs"
    and i: "i < length xs"
  shows "interp1d_call (zip xs ys) (xs ! i) = Inr (ys ! i)"
proof -
  have fst: "map fst (zip xs ys) = xs" and snd: "map snd (zip xs ys) = ys"
    using len by simp_all
  have ss: "searchsorted xs (xs ! i) = i"
    using sorted i by (rule searchsorted_node)
  show ?thesis
  proof (cases "i = 0")
    case True
    have "xs ! 0 < xs ! 1"
      using sorted_wrt_nth_less [OF sorted, of 0 1] len by simp
    then show ?thesis
      using True len ss
      by (simp add: interp1d_call_def fst snd Let_def np_div_def)
  next
    case False
    then have hi: "min (max i 1) (length xs - 1) = i"
      using i by simp
    have "xs ! (i - 1) < xs ! i"
      using sorted_wrt_nth_less [OF sorted, of "i - 1" i] i False by simp
    then show ?thesis
      using len ss hi by (simp add: interp1d_call_def fst snd Let_def np_div_def)
  qed
qed


subsection \<open>The memo rebuilt\<close>

lemma log_spaced_radius_powr:
  assumes "0 < u_min_integrate self" and "u_min_integrate self < u_max_integrate self"
  shows "10 powr (log 10 (u_min_integrate self)
                   + real i * (log 10 (u_max_integrate self) - log 10 (u_min_integrate self))
                       / (of_int (u_interp_grid_num self) - 1))
           = log_spaced_radius self i"
proof -
  let ?mn = "u_min_integrate self" and ?mx = "u_max_integrate self"
  let ?d = "of_int (u_interp_grid_num self) - 1 :: real"
  have pos: "0 < ?mx" "0 < ?mx / ?mn" using assms by simp_all
  have "log 10 ?mx - log 10 ?mn = log 10 (?mx / ?mn)"
    using assms pos by (simp add: log_divide)
  then have "real i * (log 10 ?mx - log 10 ?mn) / ?d = log 10 (?mx / ?mn) * (real i / ?d)"
    by (metis mult.commute times_divide_eq_right)
  then have "10 powr (real i * (log 10 ?mx - log 10 ?mn) / ?d)
               = (10 powr log 10 (?mx / ?mn)) powr (real i / ?d)"
    by (simp only: powr_powr)
  also have "\<dots> = (?mx / ?mn) powr (real i / ?d)"
    using pos by simp
  finally have "10 powr (real i * (log 10 ?mx - log 10 ?mn) / ?d)
                  = (?mx / ?mn) powr (real i / ?d)" .
  moreover have "10 powr log 10 ?mn = ?mn"
    using assms by simp
  ultimately show ?thesis
    by (simp only: powr_add log_spaced_radius_def)
qed

lemma log_spaced_radius_pos:
  "0 < u_min_integrate self \<Longrightarrow> u_min_integrate self < u_max_integrate self
     \<Longrightarrow> 0 < log_spaced_radius self i"
  by (simp add: log_spaced_radius_def)

lemma log_spaced_radius_increasing:
  assumes "0 < u_min_integrate self" and "u_min_integrate self < u_max_integrate self"
    and "2 \<le> u_interp_grid_num self" and "i < j"
  shows "ln (log_spaced_radius self i) < ln (log_spaced_radius self j)"
proof -
  let ?q = "u_max_integrate self / u_min_integrate self"
  let ?d = "of_int (u_interp_grid_num self) - 1 :: real"
  have q: "1 < ?q" using assms by simp
  have d: "0 < ?d" using assms by simp
  have "real i / ?d < real j / ?d"
    using assms d by (simp add: divide_strict_right_mono)
  then have "?q powr (real i / ?d) < ?q powr (real j / ?d)"
    using q by simp
  then have "log_spaced_radius self i < log_spaced_radius self j"
    using assms by (simp add: log_spaced_radius_def)
  then show ?thesis
    using assms by (simp add: log_spaced_radius_pos)
qed

lemma np_logspace_grid:
  assumes "0 < u_min_integrate self" and "u_min_integrate self < u_max_integrate self"
    and "2 \<le> u_interp_grid_num self"
  shows "np_logspace (log 10 (u_min_integrate self)) (log 10 (u_max_integrate self))
           (u_interp_grid_num self) 10
         = Inr (map (log_spaced_radius self) [0..<nat (u_interp_grid_num self)])"
  using assms by (simp add: np_logspace_samples log_spaced_radius_powr)

lemma interp_sigma_r2_table_cases:
  assumes cfg: "0 < u_min_integrate self" "u_min_integrate self < u_max_integrate self"
      "2 \<le> u_interp_grid_num self"
    and a: "0 < a"
  shows "interp_sigma_r2_table ext self a gamma rho r_ani =
           (case singular_slope gamma of
              Some e \<Rightarrow> Inl e
            | None \<Rightarrow>
                Inr (zip (map (\<lambda>i. ln (log_spaced_radius self i))
                            [0..<nat (u_interp_grid_num self)])
                         (map (\<lambda>i. sigma_r2_closed_form ext self (log_spaced_radius self i)
                                     a gamma rho r_ani)
                            [0..<nat (u_interp_grid_num self)])))"
proof -
  let ?n = "nat (u_interp_grid_num self)"
  let ?grid = "map (log_spaced_radius self) [0..<?n]"
  have n: "2 \<le> ?n" using cfg by simp
  have pos: "0 < r" if "r \<in> set ?grid" for r
    using that cfg by (auto simp: log_spaced_radius_pos)
  have mx: "0 < u_max_integrate self" using cfg by simp
  have logs: "mapE np_log ?grid = Inr (map ln ?grid)"
    by (rule mapE_Inr) (simp add: np_log_def pos)
  have start: "interp_sigma_r2_table ext self a gamma rho r_ani =
      bindE (mapE (\<lambda>r_i. u_sigma_r2 ext self r_i a gamma rho r_ani) ?grid)
        (\<lambda>I_R_sigma2_array. interp1d (map ln ?grid) I_R_sigma2_array)"
    using cfg mx by (simp add: interp_sigma_r2_table_def np_log10_def np_logspace_grid logs)
  show ?thesis
  proof (cases "singular_slope gamma")
    case (Some e)
    have "?grid \<noteq> []" using n by simp
    then have "mapE (\<lambda>r_i. u_sigma_r2 ext self r_i a gamma rho r_ani) ?grid = Inl e"
      by (rule mapE_Inl) (use Some a pos in \<open>simp add: u_sigma_r2_cases\<close>)
    then show ?thesis using Some start by simp
  next
    case None
    have vals: "mapE (\<lambda>r_i. u_sigma_r2 ext self r_i a gamma rho r_ani) ?grid
             = Inr (map (\<lambda>r_i. sigma_r2_closed_form ext self r_i a gamma rho r_ani) ?grid)"
      by (rule mapE_Inr) (use None a pos in \<open>simp add: u_sigma_r2_cases\<close>)
    have "sorted_wrt (<) (map ln ?grid)"
      using cfg by (simp add: sorted_wrt_iff_nth_less log_spaced_radius_increasing)
    then have "interp1d (map ln ?grid)
                 (map (\<lambda>r_i. sigma_r2_closed_form ext self r_i a gamma rho r_ani) ?grid)
               = Inr (zip (map ln ?grid)
                   (map (\<lambda>r_i. sigma_r2_closed_form ext self r_i a gamma rho r_ani) ?grid))"
      using n by (intro interp1d_sorted) auto
    then show ?thesis
      using None start vals by (simp add: comp_def)
  qed
qed

lemma u_sigma_r2_interp_rebuilt_node:
  assumes cfg: "0 < u_min_integrate self" "u_min_integrate self < u_max_integrate self"
      "2 \<le> u_interp_grid_num self"
    and a: "0 < a"
    and fresh: "u_interp_sigma_r2 self = None"
    and i: "i < nat (u_interp_grid_num self)"
  shows "fst (u_sigma_r2_interp ext self (log_spaced_radius self i) a gamma rho r_ani)
           = u_sigma_r2 ext self (log_spaced_radius self i) a gamma rho r_ani"
proof (cases "singular_slope gamma")
  case (Some e)
  then show ?thesis
    using cfg a fresh
    by (simp add: u_sigma_r2_interp_def ensure_interp_sigma_r2_def interp_sigma_r2_table_cases
          u_sigma_r2_cases log_spaced_radius_pos)
next
  case None
  let ?n = "nat (u_interp_grid_num self)"
  let ?xs = "map (\<lambda>i. ln (log_spaced_radius self i)) [0..<?n]"
  let ?ys = "map (\<lambda>i. sigma_r2_closed_form ext self (log_spaced_radius self i) a gamma rho r_ani)
               [0..<?n]"
  have "sorted_wrt (<) ?xs"
    using cfg by (simp add: sorted_wrt_iff_nth_less log_spaced_radius_increasing)
  then have "interp1d_call (zip ?xs ?ys) (?xs ! i) = Inr (?ys ! i)"
    using cfg i by (intro interp1d_call_node) simp_all
  then have "interp1d_call (zip ?xs ?ys) (ln (log_spaced_radius self i))
               = Inr (sigma_r2_closed_form ext self (log_spaced_radius self i) a gamma rho r_ani)"
    using i by simp
  then show ?thesis
    using None cfg a fresh
    by (simp add: u_sigma_r2_interp_def ensure_interp_sigma_r2_def interp_sigma_r2_table_cases
          u_sigma_r2_cases log_spaced_radius_pos np_log_def)
qed


lemma delete_cache_fields [simp]:
  "u_interp_sigma_r2 (delete_cache self) = None"
  "u_min_integrate (delete_cache self) = u_min_integrate self"
  "u_max_integrate (delete_cache self) = u_max_integrate self"
  "u_max_interpolate (delete_cache self) = u_max_interpolate self"
  "u_interp_grid_num (delete_cache self) = u_interp_grid_num self"
  "u_log_int (delete_cache self) = u_log_int self"
  "u_cosmo (delete_cache self) = u_cosmo self"
  by (simp_all add: delete_cache_def)

lemma delete_cache_closed_forms [simp]:
  "log_spaced_radius (delete_cache self) i = log_spaced_radius self i"
  "u_sigma_r2 ext (delete_cache self) r a gamma rho r_ani = u_sigma_r2 ext self r a gamma rho r_ani"
  "sigma_r2_closed_form ext (delete_cache self) r a gamma rho r_ani
     = sigma_r2_closed_form ext self r a gamma rho r_ani"
  by (simp_all add: log_spaced_radius_def u_sigma_r2_def sigma_r2_closed_form_def
        cong: option.case_cong)

lemma u_sigma_r2_interp_rebuilt_memo:
  assumes cfg: "0 < u_min_integrate self" "u_min_integrate self < u_max_integrate self"
      "2 \<le> u_interp_grid_num self"
    and a: "0 < a"
    and fresh: "u_interp_sigma_r2 self = None"
    and regular: "singular_slope gamma = None"
  shows "u_interp_sigma_r2 (snd (u_sigma_r2_interp ext self r a gamma rho r_ani))
           = Some (map (\<lambda>j. (ln (log_spaced_radius self j),
                             sigma_r2_closed_form ext self (log_spaced_radius self j)
                               a gamma rho r_ani))
                     [0..<nat (u_interp_grid_num self)])"
  using assms
  by (simp add: u_sigma_r2_interp_def ensure_interp_sigma_r2_def interp_sigma_r2_table_cases
        zip_map_map zip_same_conv_map)

text \<open>
  C7. Take an engine with \<open>0 < min_integrate < max_integrate\<close> and at least two grid
  points, and a scale \<open>a > 0\<close>. On a fresh engine, and on any engine after \<open>delete_cache\<close>,
  the memoized solver called at the \<open>i\<close>-th log-spaced grid radius returns what the
  closed-form solver returns there for the parameters of that call; for a slope other
  than 3 and the non-positive integers this is the closed-form value, and the memo it leaves holds the
  closed-form values of these parameters at the \<open>interpol_grid_num\<close> grid radii. A memo
  built earlier for another \<open>r_ani\<close> has no effect once \<open>delete_cache\<close> has run.
\<close>

theorem rebuilt_memo_matches_closed_form:
  assumes "0 < u_min_integrate self" and "u_min_integrate self < u_max_integrate self"
    and "2 \<le> u_interp_grid_num self" and "0 < a"
    and "i < nat (u_interp_grid_num self)"
  shows "(u_interp_sigma_r2 self = None \<longrightarrow>
            fst (u_sigma_r2_interp ext self (log_spaced_radius self i) a gamma rho r_ani)
              = u_sigma_r2 ext self (log_spaced_radius self i) a gamma rho r_ani) \<and>
         fst (u_sigma_r2_interp ext (delete_cache self) (log_spaced_radius self i)
                a gamma rho r_ani)
           = u_sigma_r2 ext self (log_spaced_radius self i) a gamma rho r_ani \<and>
         (gamma \<noteq> 3 \<and> \<not> (is_integer gamma \<and> gamma \<le> 0) \<longrightarrow>
            fst (u_sigma_r2_interp ext (delete_cache self) (log_spaced_radius self i)
                   a gamma rho r_ani)
              = Inr (sigma_r2_closed_form ext self (log_spaced_radius self i) a gamma rho r_ani) \<and>
            u_interp_sigma_r2 (snd (u_sigma_r2_interp ext (delete_cache self) r a gamma rho r_ani))
              = Some (map (\<lambda>j. (ln (log_spaced_radius self j),
                                sigma_r2_closed_form ext self (log_spaced_radius self j)
                                  a gamma rho r_ani))
                        [0..<nat (u_interp_grid_num self)]))"
proof -
  have fresh: "fst (u_sigma_r2_interp ext self (log_spaced_radius self i) a gamma rho r_ani)
                 = u_sigma_r2 ext self (log_spaced_radius self i) a gamma rho r_ani"
    if "u_interp_sigma_r2 self = None"
    using assms that by (intro u_sigma_r2_interp_rebuilt_node)
  have deleted: "fst (u_sigma_r2_interp ext (delete_cache self)
                        (log_spaced_radius (delete_cache self) i) a gamma rho r_ani)
                   = u_sigma_r2 ext (delete_cache self)
                       (log_spaced_radius (delete_cache self) i) a gamma rho r_ani"
    using assms by (intro u_sigma_r2_interp_rebuilt_node) simp_all
  have memo: "u_interp_sigma_r2
                (snd (u_sigma_r2_interp ext (delete_cache self) r a gamma rho r_ani))
           = Some (map (\<lambda>j. (ln (log_spaced_radius (delete_cache self) j),
                             sigma_r2_closed_form ext (delete_cache self)
                               (log_spaced_radius (delete_cache self) j) a gamma rho r_ani))
                     [0..<nat (u_interp_grid_num (delete_cache self))])"
    if "singular_slope gamma = None"
    using assms that by (intro u_sigma_r2_interp_rebuilt_memo) simp_all
  have pos: "0 < log_spaced_radius self i"
    using assms by (simp add: log_spaced_radius_pos)
  show ?thesis
    using fresh deleted memo pos assms(4)
    by (simp add: u_sigma_r2_regular singular_slope_None_iff)
qed

theorem rebuilt_memo_matches_closed_form_witness:
  "0 < u_min_integrate example_engine_stale \<and>
   u_min_integrate example_engine_stale < u_max_integrate example_engine_stale \<and>
   2 \<le> u_interp_grid_num example_engine_stale \<and> (0::real) < 1 \<and>
   1 < nat (u_interp_grid_num example_engine_stale) \<and>
   u_interp_sigma_r2 example_engine_stale = Some [(0, 1), (1, 2)] \<and>
   fst (u_sigma_r2_interp example_externals (delete_cache example_engine_stale)
          (log_spaced_radius example_engine_stale 1) 1 2 1 5)
     = Inr (sigma_r2_closed_form example_externals example_engine_stale
              (log_spaced_radius example_engine_stale 1) 1 2 1 5) \<and>
   u_interp_sigma_r2 example_engine_linear = None \<and>
   fst (u_sigma_r2_interp example_externals example_engine_linear
          (log_spaced_radius example_engine_linear 1) 1 2 1 5)
     = u_sigma_r2 example_externals example_engine_linear
         (log_spaced_radius example_engine_linear 1) 1 2 1 5"
proof -
  have cfg: "0 < u_min_integrate example_engine_stale"
    "u_min_integrate example_engine_stale < u_max_integrate example_engine_stale"
    "2 \<le> u_interp_grid_num example_engine_stale"
    "1 < nat (u_interp_grid_num example_engine_stale)"
    "u_interp_sigma_r2 example_engine_stale = Some [(0, 1), (1, 2)]"
    by (simp_all add: example_engine_stale_def init_def)
  have fresh: "0 < u_min_integrate example_engine_linear"
    "u_min_integrate example_engine_linear < u_max_integrate example_engine_linear"
    "2 \<le> u_interp_grid_num example_engine_linear"
    "1 < nat (u_interp_grid_num example_engine_linear)"
    "u_interp_sigma_r2 example_engine_linear = None"
    by (simp_all add: example_engine_linear_def init_def)
  have a: "(0::real) < 1" by simp
  have "fst (u_sigma_r2_interp example_externals (delete_cache example_engine_stale)
          (log_spaced_radius example_engine_stale 1) 1 2 1 5)
     = Inr (sigma_r2_closed_form example_externals example_engine_stale
              (log_spaced_radius example_engine_stale 1) 1 2 1 5)"
    using rebuilt_memo_matches_closed_form [OF cfg(1) cfg(2) cfg(3) a cfg(4),
        where ext = example_externals and gamma = 2 and rho = 1 and r_ani = 5,
        THEN conjunct2, THEN conjunct2]
    by simp
  moreover have "fst (u_sigma_r2_interp example_externals example_engine_linear
          (log_spaced_radius example_engine_linear 1) 1 2 1 5)
     = u_sigma_r2 example_externals example_engine_linear
         (log_spaced_radius example_engine_linear 1) 1 2 1 5"
    using rebuilt_memo_matches_closed_form [OF fresh(1) fresh(2) fresh(3) a fresh(4),
        where ext = example_externals and gamma = 2 and rho = 1 and r_ani = 5,
        THEN conjunct1] fresh(5)
    by blast
  ultimately show ?thesis
    using cfg fresh by simp
qed

subsection \<open>The projected dispersion\<close>

lemma u_sigma_s2_cases:
  assumes "r \<noteq> 0"
  shows "u_sigma_s2 ext self r R r_ani a gamma rho =
           (case u_sigma_r2_interp ext self r a gamma rho r_ani of
              (Inl e, self') \<Rightarrow> (Inl e, self')
            | (Inr s, self') \<Rightarrow> (Inr ((1 - beta_r r r_ani * R\<^sup>2 / r\<^sup>2) * s), self'))"
  using assms by (simp add: u_sigma_s2_def py_div_def Let_def)

text \<open>
  C5. For \<open>r > 0\<close> the projected dispersion is \<open>(1 - \<beta>(r) * R\<^sup>2 / r\<^sup>2)\<close> times the value of
  the memoized radial solver at \<open>r\<close>, with \<open>\<beta>(r) = r\<^sup>2 / (r\<^sup>2 + r_ani\<^sup>2)\<close>; a failure of the
  solver is passed on, and the engine is left as the solver leaves it. At \<open>R = r\<close> the
  factor is \<open>1 - \<beta>(r)\<close>. The public \<open>sigma_s2\<close> returns that value with the weight 1.
\<close>

theorem sigma_s2_projection:
  assumes "0 < r"
    and "u_sigma_r2_interp ext self r a gamma rho r_ani = (res, self')"
  shows "beta_r r r_ani = r\<^sup>2 / (r\<^sup>2 + r_ani\<^sup>2) \<and>
         (res = Inr s \<longrightarrow>
            u_sigma_s2 ext self r R r_ani a gamma rho
              = (Inr ((1 - beta_r r r_ani * R\<^sup>2 / r\<^sup>2) * s), self') \<and>
            u_sigma_s2 ext self r r r_ani a gamma rho
              = (Inr ((1 - beta_r r r_ani) * s), self') \<and>
            (u_read_out_params ext self st km kl ka = (Inr (a, gamma, rho, r_ani), st')
               \<longrightarrow> sigma_s2 ext self st r R km kl ka
                     = (Inr ((1 - beta_r r r_ani * R\<^sup>2 / r\<^sup>2) * s, 1), self', st'))) \<and>
         (res = Inl e \<longrightarrow> u_sigma_s2 ext self r R r_ani a gamma rho = (Inl e, self'))"
proof -
  have edge: "beta_r r r_ani * r\<^sup>2 / r\<^sup>2 = beta_r r r_ani"
    using assms(1) by simp
  show ?thesis
    using assms by (simp add: u_sigma_s2_cases edge sigma_s2_def) (simp add: beta_r_def)
qed

theorem sigma_s2_projection_witness:
  "(0::real) < 1 \<and>
   u_sigma_r2_interp example_externals example_engine_memo 1 1 2 1 1 = (Inr 1, example_engine_memo) \<and>
   beta_r 1 1 = 1 / 2 \<and>
   u_sigma_s2 example_externals example_engine_memo 1 (1 / 2) 1 1 2 1
     = (Inr (7 / 8), example_engine_memo) \<and>
   u_sigma_s2 example_externals example_engine_memo 1 1 1 1 2 1
     = (Inr (1 / 2), example_engine_memo) \<and>
   sigma_s2 example_externals example_engine_memo example_store 1 (1 / 2) 0 1 2
     = (Inr (7 / 8, 1), example_engine_memo, example_store) \<and>
   u_sigma_r2_interp example_externals example_engine 1 1 3 1 1
     = (Inl ZeroDivisionError, example_engine) \<and>
   u_sigma_s2 example_externals example_engine 1 (1 / 2) 1 1 3 1
     = (Inl ZeroDivisionError, example_engine)"
proof -
  have m: "u_interp_sigma_r2 example_engine_memo = Some [(0, 1), (1, 2)]"
    by (simp add: example_engine_memo_def)
  have b: "u_sigma_r2_interp example_externals example_engine_memo 1 1 2 1 1
             = (Inr 1, example_engine_memo)"
    by (simp add: u_sigma_r2_interp_memo [OF m] example_memo_lookup)
  have p: "u_read_out_params example_externals example_engine_memo example_store 0 1 2
             = (Inr (1, 2, 1, 1), example_store)"
    by (simp add: u_read_out_params_def hernquist_a_cases example_store_def getitem_def)
  have z: "(0::real) < 1" by simp
  have cfg: "0 < u_min_integrate example_engine"
    "u_min_integrate example_engine < u_max_integrate example_engine"
    "2 \<le> u_interp_grid_num example_engine" "u_interp_sigma_r2 example_engine = None"
    by (simp_all add: example_engine_def init_def)
  have "interp_sigma_r2_table example_externals example_engine 1 3 1 1 = Inl ZeroDivisionError"
    using interp_sigma_r2_table_cases [OF cfg(1-3) z, of example_externals 3 1 1]
    by (simp add: singular_slope_def)
  then have f: "u_sigma_r2_interp example_externals example_engine 1 1 3 1 1
                  = (Inl ZeroDivisionError, example_engine)"
    using cfg(4) by (simp add: u_sigma_r2_interp_def ensure_interp_sigma_r2_def)
  have fail: "u_sigma_s2 example_externals example_engine 1 (1 / 2) 1 1 3 1
     = (Inl ZeroDivisionError, example_engine)"
    using sigma_s2_projection [where r = 1 and ext = example_externals and self = example_engine
        and a = 1 and gamma = 3 and rho = 1 and r_ani = 1 and res = "Inl ZeroDivisionError"
        and self' = example_engine and e = ZeroDivisionError and R = "1 / 2", OF z f]
    by simp
  show ?thesis
    using b p f fail
      sigma_s2_projection [where r = 1 and ext = example_externals and self = example_engine_memo
        and a = 1 and gamma = 2 and rho = 1 and r_ani = 1 and res = "Inr 1"
        and self' = example_engine_memo and s = 1 and R = "1 / 2" and st = example_store
        and km = 0 and kl = 1 and ka = 2 and st' = example_store, OF z b]
    by (simp add: power2_eq_square)
qed

subsection \<open>The quadrature grids\<close>

lemma index_simps:
  "i < length xs \<Longrightarrow> index xs i = Inr (xs ! i)"
  "length xs \<le> i \<Longrightarrow> index xs i = Inl IndexError"
  by (simp_all add: index_def)

lemma exp_1_powr: "exp 1 powr x = exp (x::real)"
  by (simp add: powr_def)

lemma log_grid_array:
  assumes "0 < R" and "0 < u_max_integrate self" and "2 \<le> u_interp_grid_num self"
  shows "np_logspace (ln R + log_step self R / 2) (ln (u_max_integrate self) + log_step self R / 2)
           (u_interp_grid_num self) (exp 1)
         = Inr (map (log_sample self R) [0..<nat (u_interp_grid_num self)])"
proof -
  have d: "of_int (u_interp_grid_num self) - 1 \<noteq> (0::real)"
    using assms(3) by simp
  have "ln (u_max_integrate self) + log_step self R / 2 - (ln R + log_step self R / 2)
          = log_step self R * (of_int (u_interp_grid_num self) - 1)"
    using d by (simp add: log_step_def)
  then have step: "(ln (u_max_integrate self) + log_step self R / 2 - (ln R + log_step self R / 2))
          / (of_int (u_interp_grid_num self) - 1) = log_step self R"
    using d by simp
  have "exp 1 powr (ln R + log_step self R / 2 + real i * log_step self R) = log_sample self R i"
    for i
    by (simp add: exp_1_powr log_sample_def add.commute add.left_commute)
  then show ?thesis
    using assms(3) by (simp only: np_logspace_samples step)
qed

lemma ln_log_sample [simp]: "ln (log_sample self R i) = ln R + real i * log_step self R + log_step self R / 2"
  by (simp add: log_sample_def)

lemma log_sample_pos [simp]: "0 < log_sample self R i"
  by (simp add: log_sample_def)

lemma log_grid_samples:
  assumes "0 < R" and "0 < u_max_integrate self" and "3 \<le> u_interp_grid_num self"
  shows "log_grid self R
           = Inr (map (log_sample self R) [0..<nat (u_interp_grid_num self)], log_step self R)"
proof -
  have d: "of_int (u_interp_grid_num self) - 1 \<noteq> (0::real)"
    using assms(3) by simp
  have dlogr: "np_div (ln (u_max_integrate self) - ln R) (of_int (u_interp_grid_num self) - 1)
                 = Inr (log_step self R)"
    using d by (simp add: np_div_def log_step_def)
  have n: "2 < nat (u_interp_grid_num self)" "1 < nat (u_interp_grid_num self)"
    using assms(3) by simp_all
  show ?thesis
    using assms n
    by (simp add: log_grid_def np_log_def dlogr log_grid_array index_simps)
qed

lemma log_grid_two_points:
  assumes "0 < R" and "0 < u_max_integrate self" and "u_interp_grid_num self = 2"
  shows "log_grid self R = Inl IndexError"
proof -
  have dlogr: "np_div (ln (u_max_integrate self) - ln R) (of_int (u_interp_grid_num self) - 1)
                 = Inr (log_step self R)"
    using assms(3) by (simp add: np_div_def log_step_def)
  have arr: "np_logspace (ln R + log_step self R / 2)
               (ln (u_max_integrate self) + log_step self R / 2) (u_interp_grid_num self) (exp 1)
             = Inr (map (log_sample self R) [0..<nat (u_interp_grid_num self)])"
    using assms by (intro log_grid_array) simp_all
  have short: "index (map (log_sample self R) [0..<nat (u_interp_grid_num self)]) 2 = Inl IndexError"
    using assms(3) by (simp add: index_simps)
  show ?thesis
    using assms(1,2) by (simp add: log_grid_def np_log_def dlogr arr short)
qed

lemma linear_grid_samples:
  assumes "3 \<le> u_interp_grid_num self"
  shows "linear_grid self R
           = Inr (map (\<lambda>i. R + real i * linear_step self R) [0..<nat (u_interp_grid_num self)],
                  linear_step self R)"
proof -
  have n: "2 < nat (u_interp_grid_num self)" "1 < nat (u_interp_grid_num self)"
    using assms by simp_all
  show ?thesis
    using assms n
    by (simp add: linear_grid_def np_linspace_samples index_simps linear_step_def)
qed

lemma linear_grid_two_points:
  assumes "u_interp_grid_num self = 2"
  shows "linear_grid self R = Inl IndexError"
proof -
  have arr: "np_linspace R (u_max_interpolate self) (u_interp_grid_num self)
       = Inr (map (\<lambda>i. R + real i * ((u_max_interpolate self - R)
                                          / (of_int (u_interp_grid_num self) - 1)))
                [0..<nat (u_interp_grid_num self)])"
    using assms by (intro np_linspace_samples) simp
  have n: "nat (u_interp_grid_num self) = 2"
    using assms by simp
  show ?thesis
    by (simp add: linear_grid_def arr index_simps n)
qed

lemma integration_grid_samples:
  assumes "0 < R" and "0 < u_max_integrate self" and "3 \<le> u_interp_grid_num self"
  shows "integration_grid self R =
           (if u_log_int self then
              Inr (map (log_sample self R) [0..<nat (u_interp_grid_num self)],
                   map (log_sample self R) [0..<nat (u_interp_grid_num self)],
                   log_step self R)
            else
              Inr (map (\<lambda>i. R + real i * linear_step self R) [0..<nat (u_interp_grid_num self)],
                   map (linear_sample self R) [0..<nat (u_interp_grid_num self)],
                   linear_step self R))"
  using assms
  by (simp add: integration_grid_def log_grid_samples linear_grid_samples linear_sample_def comp_def)

lemma integration_grid_two_points:
  assumes "0 < R" and "0 < u_max_integrate self" and "u_interp_grid_num self = 2"
  shows "integration_grid self R = Inl IndexError"
  using assms by (simp add: integration_grid_def log_grid_two_points linear_grid_two_points)


lemma log_sample_above:
  assumes "0 < R" and "R < u_max_integrate self" and "1 < u_interp_grid_num self"
  shows "R < log_sample self R i"
proof -
  have "ln R < ln (u_max_integrate self)"
    using assms by simp
  then have step: "0 < log_step self R"
    using assms(3) by (simp add: log_step_def)
  have "0 \<le> real i * log_step self R"
    using step by simp
  then have "ln R < ln R + real i * log_step self R + log_step self R / 2"
    using step by linarith
  then have "exp (ln R) < log_sample self R i"
    unfolding log_sample_def by (simp only: exp_less_cancel_iff)
  then show ?thesis
    using assms(1) by simp
qed

lemma linear_sample_above:
  assumes "R < u_max_interpolate self" and "1 < u_interp_grid_num self"
  shows "R < linear_sample self R i"
proof -
  have step: "0 < linear_step self R"
    using assms by (simp add: linear_step_def)
  have "0 \<le> real i * linear_step self R"
    using step by simp
  then show ?thesis
    using step unfolding linear_sample_def by linarith
qed

lemma radicand_positive:
  assumes "0 < R" and "R < r"
  shows "0 < r\<^sup>2 - R\<^sup>2"
    and "\<exists>root. np_sqrt (r\<^sup>2 - R\<^sup>2) = Inr root \<and> root \<noteq> 0"
    and "bindE (np_sqrt (r\<^sup>2 - R\<^sup>2)) (\<lambda>root. np_div (s * r) root) = Inr (s * r / sqrt (r\<^sup>2 - R\<^sup>2))"
proof -
  have "R\<^sup>2 < r\<^sup>2"
    using assms by (simp add: power_strict_mono)
  then show pos: "0 < r\<^sup>2 - R\<^sup>2" by simp
  then have "sqrt (r\<^sup>2 - R\<^sup>2) \<noteq> 0" by simp
  then show "\<exists>root. np_sqrt (r\<^sup>2 - R\<^sup>2) = Inr root \<and> root \<noteq> 0"
    and "bindE (np_sqrt (r\<^sup>2 - R\<^sup>2)) (\<lambda>root. np_div (s * r) root) = Inr (s * r / sqrt (r\<^sup>2 - R\<^sup>2))"
    using pos by (simp_all add: np_sqrt_def np_div_def)
qed

text \<open>
  Over the real numbers, where no sum is rounded, the half step keeps every radius above
  \<open>R\<close>. Let \<open>0 < min_integrate \<le> R < max_integrate\<close> with more than one grid point, on an
  engine whose interpolation bound is its integration bound, as the constructor sets it.
  With two grid points \<open>_I_R_sigma2\<close> raises an \<open>IndexError\<close> while it builds the grid and
  evaluates nothing. With three or more it hands the integrand the half-step shifted
  samples of the mode in force, log or linear, and every radius \<open>r\<close> it hands over is above
  \<open>R\<close>: the radicand \<open>r\<^sup>2 - R\<^sup>2\<close> is positive, its square root is defined and not zero, and
  the quotient of the integrand is the real quotient. In binary64 the half step can round
  away, as the next subsection shows.
\<close>

lemma exact_quadrature_radii_above_R:
  assumes "0 < u_min_integrate self" and "u_min_integrate self \<le> R"
    and "R < u_max_integrate self" and "1 < u_interp_grid_num self"
    and "u_max_interpolate self = u_max_integrate self"
  shows "(u_interp_grid_num self = 2 \<longrightarrow>
            integration_grid self (max R (u_min_integrate self)) = Inl IndexError \<and>
            I_R_sigma2_and_IR ext self st R km kl ka = (Inl IndexError, self, st)) \<and>
         (3 \<le> u_interp_grid_num self \<longrightarrow>
            (\<exists>r_array step.
               integration_grid self (max R (u_min_integrate self))
                 = Inr (r_array,
                        map (if u_log_int self then log_sample self R else linear_sample self R)
                          [0..<nat (u_interp_grid_num self)],
                        step))) \<and>
         (\<forall>r_array radii step.
            integration_grid self (max R (u_min_integrate self)) = Inr (r_array, radii, step) \<longrightarrow>
            (\<forall>r \<in> set radii.
               R < r \<and> 0 < r\<^sup>2 - R\<^sup>2 \<and>
               (\<exists>root. np_sqrt (r\<^sup>2 - R\<^sup>2) = Inr root \<and> root \<noteq> 0) \<and>
               (\<forall>s. bindE (np_sqrt (r\<^sup>2 - R\<^sup>2)) (\<lambda>root. np_div (s * r) root)
                      = Inr (s * r / sqrt (r\<^sup>2 - R\<^sup>2)))))"
proof -
  have clamp: "max R (u_min_integrate self) = R"
    using assms(2) by simp
  have R: "0 < R" and mx: "0 < u_max_integrate self"
    using assms by simp_all
  have two: "integration_grid self R = Inl IndexError" if "u_interp_grid_num self = 2"
    using R mx that by (rule integration_grid_two_points)
  have three: "integration_grid self R =
           (if u_log_int self then
              Inr (map (log_sample self R) [0..<nat (u_interp_grid_num self)],
                   map (log_sample self R) [0..<nat (u_interp_grid_num self)],
                   log_step self R)
            else
              Inr (map (\<lambda>i. R + real i * linear_step self R) [0..<nat (u_interp_grid_num self)],
                   map (linear_sample self R) [0..<nat (u_interp_grid_num self)],
                   linear_step self R))"
    if "3 \<le> u_interp_grid_num self"
    using R mx that by (rule integration_grid_samples)
  have above: "R < r" if "integration_grid self R = Inr (r_array, radii, step)" "r \<in> set radii"
    for r_array radii step r
  proof (cases "u_interp_grid_num self = 2")
    case True
    then show ?thesis using two that by simp
  next
    case False
    then have "3 \<le> u_interp_grid_num self" using assms(4) by simp
    from three [OF this] that show ?thesis
      using assms R by (auto simp: log_sample_above linear_sample_above split: if_splits)
  qed
  have safe: "R < r \<and> 0 < r\<^sup>2 - R\<^sup>2 \<and>
               (\<exists>root. np_sqrt (r\<^sup>2 - R\<^sup>2) = Inr root \<and> root \<noteq> 0) \<and>
               (\<forall>s. bindE (np_sqrt (r\<^sup>2 - R\<^sup>2)) (\<lambda>root. np_div (s * r) root)
                      = Inr (s * r / sqrt (r\<^sup>2 - R\<^sup>2)))"
    if "integration_grid self R = Inr (r_array, radii, step)" "r \<in> set radii"
    for r_array radii step r
    using above [OF that] R radicand_positive [of R r] by blast
  have raise: "I_R_sigma2_and_IR ext self st R km kl ka = (Inl IndexError, self, st)"
    if "u_interp_grid_num self = 2"
    using two [OF that] by (simp add: I_R_sigma2_and_IR_def u_I_R_sigma2_def clamp)
  show ?thesis
    unfolding clamp using two three safe raise by (auto split: if_splits)
qed


lemma exact_quadrature_radii_above_R_example:
  "0 < u_min_integrate example_engine_log \<and> u_min_integrate example_engine_log \<le> 2 \<and>
   2 < u_max_integrate example_engine_log \<and> 1 < u_interp_grid_num example_engine_log \<and>
   u_max_interpolate example_engine_log = u_max_integrate example_engine_log \<and>
   u_max_interpolate example_engine_linear = u_max_integrate example_engine_linear \<and>
   (\<exists>r_array step. integration_grid example_engine_log (max 2 (u_min_integrate example_engine_log))
      = Inr (r_array, map (log_sample example_engine_log 2) [0..<3], step)) \<and>
   (\<exists>r_array step.
      integration_grid example_engine_linear (max 2 (u_min_integrate example_engine_linear))
      = Inr (r_array, map (linear_sample example_engine_linear 2) [0..<3], step)) \<and>
   2 < log_sample example_engine_log 2 0 \<and>
   2 < linear_sample example_engine_linear 2 0 \<and>
   u_interp_grid_num example_engine_two_points = 2 \<and>
   integration_grid example_engine_two_points (max 1 (u_min_integrate example_engine_two_points))
     = Inl IndexError"
proof -
  have log: "0 < u_min_integrate example_engine_log" "u_min_integrate example_engine_log \<le> 2"
    "2 < u_max_integrate example_engine_log" "1 < u_interp_grid_num example_engine_log"
    "u_max_interpolate example_engine_log = u_max_integrate example_engine_log"
    "3 \<le> u_interp_grid_num example_engine_log" "u_log_int example_engine_log"
    "nat (u_interp_grid_num example_engine_log) = 3"
    by (simp_all add: example_engine_log_def init_def)
  have lin: "0 < u_min_integrate example_engine_linear" "u_min_integrate example_engine_linear \<le> 2"
    "2 < u_max_integrate example_engine_linear" "1 < u_interp_grid_num example_engine_linear"
    "u_max_interpolate example_engine_linear = u_max_integrate example_engine_linear"
    "3 \<le> u_interp_grid_num example_engine_linear" "\<not> u_log_int example_engine_linear"
    "nat (u_interp_grid_num example_engine_linear) = 3"
    by (simp_all add: example_engine_linear_def init_def)
  note t_log = exact_quadrature_radii_above_R [OF log(1-5), of example_externals example_store 0 1 2]
  note t_lin = exact_quadrature_radii_above_R [OF lin(1-5), of example_externals example_store 0 1 2]
  from t_log log obtain r_array step where
    g_log: "integration_grid example_engine_log (max 2 (u_min_integrate example_engine_log))
      = Inr (r_array, map (log_sample example_engine_log 2) [0..<3], step)"
    by auto
  from t_lin lin obtain r_array' step' where
    g_lin: "integration_grid example_engine_linear (max 2 (u_min_integrate example_engine_linear))
      = Inr (r_array', map (linear_sample example_engine_linear 2) [0..<3], step')"
    by auto
  have two: "0 < u_min_integrate example_engine_two_points"
    "u_min_integrate example_engine_two_points \<le> 1"
    "1 < u_max_integrate example_engine_two_points" "1 < u_interp_grid_num example_engine_two_points"
    "u_max_interpolate example_engine_two_points = u_max_integrate example_engine_two_points"
    "u_interp_grid_num example_engine_two_points = 2"
    by (simp_all add: example_engine_two_points_def init_def)
  have g_two: "integration_grid example_engine_two_points
                 (max 1 (u_min_integrate example_engine_two_points)) = Inl IndexError"
    using exact_quadrature_radii_above_R [OF two(1-5), of example_externals example_store 0 1 2] two(6)
    by blast
  have m: "log_sample example_engine_log 2 0 \<in> set (map (log_sample example_engine_log 2) [0..<3])"
    "linear_sample example_engine_linear 2 0
       \<in> set (map (linear_sample example_engine_linear 2) [0..<3])"
    by simp_all
  have "2 < log_sample example_engine_log 2 0"
    using t_log g_log m(1) by blast
  moreover have "2 < linear_sample example_engine_linear 2 0"
    using t_lin g_lin m(2) by blast
  ultimately show ?thesis
    using log lin g_log g_lin two(6) g_two by blast
qed

subsection \<open>The linear grid in binary64\<close>

text \<open>
  The rounding of a number whose binade is known, and of a float, which is itself.
\<close>

lemma binade_eq:
  assumes "2 powr of_int e \<le> \<bar>x\<bar>" and "\<bar>x\<bar> < 2 powr (of_int e + 1)" and "- 1022 \<le> e"
  shows "binade x = e"
proof -
  have "0 < \<bar>x\<bar>" using assms(1) powr_gt_zero [of 2 "of_int e"] by linarith
  then have "\<lfloor>log 2 \<bar>x\<bar>\<rfloor> = e"
    using assms(1,2) by (simp add: floor_log_eq_powr_iff)
  then show ?thesis using assms(3) by (simp add: binade_def)
qed

lemma round_half_even_of_int [simp]: "round_half_even (of_int m) = m"
  by (simp add: round_half_even_def)

lemma round_half_even_numeral [simp]:
  "round_half_even (numeral k) = numeral k" "round_half_even 0 = 0" "round_half_even 1 = 1"
  by (simp_all add: round_half_even_def)

lemma round_half_even_eq:
  assumes "of_int n \<le> y" and "y < of_int n + 1"
    and "if y - of_int n < 1 / 2 then m = n
         else if 1 / 2 < y - of_int n then m = n + 1
         else m = (if even n then n else n + 1)"
  shows "round_half_even y = m"
proof -
  have "\<lfloor>y\<rfloor> = n" using assms(1,2) by (simp add: floor_unique)
  then show ?thesis using assms(3) by (simp add: round_half_even_def Let_def split: if_splits)
qed

lemma fl_eq:
  assumes "2 powr of_int e \<le> \<bar>x\<bar>" and "\<bar>x\<bar> < 2 powr (of_int e + 1)" and "- 1022 \<le> e"
    and "round_half_even (x / 2 powr (of_int e - 52)) = n"
    and "\<bar>of_int n * 2 powr (of_int e - 52)\<bar> \<le> max_binary64"
  shows "fl x = Inr (of_int n * 2 powr (of_int e - 52))"
proof -
  have "x \<noteq> 0" using assms(1) powr_gt_zero [of 2 "of_int e"] by auto
  moreover have "ulp x = 2 powr (of_int e - 52)"
    using binade_eq [OF assms(1-3)] by (simp add: ulp_def)
  ultimately show ?thesis
    using assms(4,5) by (simp add: fl_def Let_def)
qed

lemma fl_zero [simp]: "fl 0 = Inr 0"
  by (simp add: fl_def)

lemma fl_representable:
  fixes m e :: int
  assumes "2 ^ 52 \<le> \<bar>m\<bar>" and "\<bar>m\<bar> < 2 ^ 53" and "- 1022 \<le> e" and "e \<le> 1023"
  shows "fl (of_int m * 2 powr (of_int e - 52)) = Inr (of_int m * 2 powr (of_int e - 52))"
proof (rule fl_eq)
  let ?u = "2 powr (real_of_int e - 52)"
  have u: "0 < ?u" by simp
  have abs: "\<bar>of_int m * ?u\<bar> = of_int \<bar>m\<bar> * ?u"
    by (simp add: abs_mult)
  have split: "2 powr real_of_int e = 2 ^ 52 * ?u" "2 powr (real_of_int e + 1) = 2 ^ 53 * ?u"
    by (simp_all add: powr_diff powr_add)
  have lo: "(2::real) ^ 52 \<le> of_int \<bar>m\<bar>"
    using assms(1) by (metis of_int_le_iff of_int_numeral of_int_power)
  have hi: "of_int \<bar>m\<bar> < (2::real) ^ 53"
    using assms(2) by (metis of_int_less_iff of_int_numeral of_int_power)
  show "2 powr real_of_int e \<le> \<bar>of_int m * ?u\<bar>"
    unfolding abs split using lo u by (intro mult_right_mono) simp_all
  show "\<bar>of_int m * ?u\<bar> < 2 powr (real_of_int e + 1)"
    unfolding abs split using hi u by (intro mult_strict_right_mono) simp_all
  show "- 1022 \<le> e" by fact
  show "round_half_even (of_int m * ?u / ?u) = m" by simp
  have "of_int \<bar>m\<bar> \<le> (2::real) ^ 53 - 1"
  proof -
    have "\<bar>m\<bar> \<le> 2 ^ 53 - 1" using assms(2) by simp
    then have "real_of_int \<bar>m\<bar> \<le> real_of_int (2 ^ 53 - 1)" by (rule of_int_le_iff [THEN iffD2])
    then show ?thesis by simp
  qed
  moreover have "?u \<le> 2 ^ 971"
  proof -
    have "?u \<le> 2 powr 971" using assms(4) by (intro powr_mono) simp_all
    then show ?thesis by simp
  qed
  ultimately have "of_int \<bar>m\<bar> * ?u \<le> (2 ^ 53 - 1) * 2 ^ 971"
    using u by (intro mult_mono) simp_all
  then show "\<bar>of_int m * ?u\<bar> \<le> max_binary64"
    unfolding abs max_binary64_def .
qed

text \<open>A rounded result is within half a spacing of the exact one.\<close>

lemma round_half_even_error: "\<bar>of_int (round_half_even y) - y\<bar> \<le> 1 / 2"
proof -
  have "of_int \<lfloor>y\<rfloor> \<le> y" "y < of_int \<lfloor>y\<rfloor> + 1"
    by linarith+
  then show ?thesis
    by (auto simp: round_half_even_def Let_def)
qed

lemma ulp_pos: "0 < ulp x"
  by (simp add: ulp_def)

lemma fl_error:
  assumes "fl x = Inr y"
  shows "\<bar>y - x\<bar> \<le> ulp x / 2"
proof (cases "x = 0")
  case True
  then show ?thesis using assms ulp_pos [of 0] by simp
next
  case False
  let ?n = "round_half_even (x / ulp x)"
  have y: "y = of_int ?n * ulp x"
    using assms False by (simp add: fl_def Let_def split: if_splits)
  have "\<bar>of_int ?n - x / ulp x\<bar> * ulp x \<le> 1 / 2 * ulp x"
    using round_half_even_error [of "x / ulp x"] ulp_pos [of x]
    by (intro mult_right_mono) simp_all
  moreover have "\<bar>of_int ?n - x / ulp x\<bar> * ulp x = \<bar>of_int ?n * ulp x - x\<bar>"
  proof -
    have "\<bar>of_int ?n - x / ulp x\<bar> * ulp x = \<bar>(of_int ?n - x / ulp x) * ulp x\<bar>"
      using ulp_pos [of x] by (simp add: abs_mult)
    also have "(of_int ?n - x / ulp x) * ulp x = of_int ?n * ulp x - x"
      using ulp_pos [of x] by (simp add: left_diff_distrib)
    finally show ?thesis .
  qed
  ultimately show ?thesis using y by simp
qed

text \<open>The roundings of the example.\<close>

lemma fl_below_four: "fl (4 - 1 / 2 ^ 51) = Inr (4 - 1 / 2 ^ 51)"
  using fl_eq [of 1 "4 - 1 / 2 ^ 51" "2 ^ 53 - 1"]
  by (simp add: max_binary64_def powr_neg_numeral)

lemma fl_tie_to_four: "fl (4 - 1 / 2 ^ 52) = Inr 4"
  using fl_eq [of 1 "4 - 1 / 2 ^ 52" "2 ^ 53"]
    round_half_even_eq [of "2 ^ 53 - 1" "(4 - 1 / 2 ^ 52) / 2 powr (of_int 1 - 52)" "2 ^ 53"]
  by (simp add: max_binary64_def powr_neg_numeral)

lemma fl_examples:
  "fl (1 / 2 ^ 51) = Inr (1 / 2 ^ 51)"
  "fl (1 / 2 ^ 52) = Inr (1 / 2 ^ 52)"
  "fl 4 = Inr 4"
  using fl_eq [of "- 51" "1 / 2 ^ 51" "2 ^ 52"] fl_eq [of "- 52" "1 / 2 ^ 52" "2 ^ 52"]
    fl_eq [of 2 4 "2 ^ 52"]
  by (simp_all add: max_binary64_def powr_neg_numeral)

lemma fl_square:
  "fl ((4 - 1 / 2 ^ 51) * (4 - 1 / 2 ^ 51)) = Inr (16 - 1 / 2 ^ 48)"
  using fl_eq [of 3 "(4 - 1 / 2 ^ 51) * (4 - 1 / 2 ^ 51)" "2 ^ 53 - 2"]
    round_half_even_eq [of "2 ^ 53 - 2"
      "(4 - 1 / 2 ^ 51) * (4 - 1 / 2 ^ 51) / 2 powr (of_int 3 - 52)" "2 ^ 53 - 2"]
  by (simp add: max_binary64_def powr_neg_numeral)

lemma np_linspace_binary64_below_four:
  "np_linspace_binary64 (4 - 1 / 2 ^ 51) 4 3 = Inr [4 - 1 / 2 ^ 51, 4, 4]"
proof -
  have "[0..<3] = [0, 1, 2]"
    by (simp add: upt_rec)
  then show ?thesis
    using fl_examples fl_below_four fl_tie_to_four
    by (simp add: np_linspace_binary64_def Let_def)
qed

text \<open>
  Away from the end of the range the half step survives: from \<open>R = 2\<close> the same engine
  evaluates the integrand at 2.5, 3.5 and 4.5.
\<close>

lemma fl_more_examples:
  "fl 1 = Inr 1" "fl 2 = Inr 2" "fl 3 = Inr 3" "fl (1 / 2) = Inr (1 / 2)"
  "fl (5 / 2) = Inr (5 / 2)" "fl (7 / 2) = Inr (7 / 2)" "fl (9 / 2) = Inr (9 / 2)"
  using fl_eq [of 0 1 "2 ^ 52"] fl_eq [of 1 2 "2 ^ 52"] fl_eq [of 1 3 "3 * 2 ^ 51"]
    fl_eq [of "- 1" "1 / 2" "2 ^ 52"] fl_eq [of 1 "5 / 2" "5 * 2 ^ 50"]
    fl_eq [of 1 "7 / 2" "7 * 2 ^ 50"] fl_eq [of 2 "9 / 2" "9 * 2 ^ 49"]
  by (simp_all add: max_binary64_def powr_neg_numeral)

lemma linear_radii_binary64_example:
  "linear_radii_binary64 example_engine_linear 2 = Inr [5 / 2, 7 / 2, 9 / 2]"
proof -
  have "[0..<3] = [0, 1, 2]"
    by (simp add: upt_rec)
  then show ?thesis
    using fl_examples fl_more_examples
    by (simp add: linear_radii_binary64_def linear_grid_binary64_def np_linspace_binary64_def
          Let_def index_def example_engine_linear_def init_def)
qed

text \<open>
  C3, where the program departs from it. Take the engine with three grid points between
  \<open>min_integrate = 1\<close> and \<open>max_integrate = 4\<close> in linear mode and \<open>R = 4 - 2 ^ (-51)\<close>, the
  largest float below 4: a float in \<open>[min_integrate, max_integrate)\<close>. The step of
  \<open>np.linspace\<close> is \<open>2 ^ (-52)\<close>, and \<open>R + 2 ^ (-52)\<close> lies midway between \<open>R\<close> and 4 and is
  rounded to 4: \<open>r_array = [R, 4, 4]\<close> and \<open>dr = 0\<close>. The half step adds nothing, the first
  radius handed to the integrand is \<open>R\<close> itself, the radicand \<open>r\<^sup>2 - R\<^sup>2\<close> is zero there and
  the quotient of the integrand is no real number.
\<close>

theorem quadrature_radius_at_R_binary64:
  "fl (4 - 1 / 2 ^ 51) = Inr (4 - 1 / 2 ^ 51) \<and>
   u_min_integrate example_engine_linear \<le> 4 - 1 / 2 ^ 51 \<and>
   4 - 1 / 2 ^ 51 < u_max_integrate example_engine_linear \<and>
   1 < u_interp_grid_num example_engine_linear \<and>
   linear_grid_binary64 example_engine_linear (4 - 1 / 2 ^ 51)
     = Inr ([4 - 1 / 2 ^ 51, 4, 4], 0) \<and>
   linear_radii_binary64 example_engine_linear (4 - 1 / 2 ^ 51) = Inr [4 - 1 / 2 ^ 51, 4, 4] \<and>
   integrand_radicand_binary64 (4 - 1 / 2 ^ 51) (4 - 1 / 2 ^ 51) = Inr 0 \<and>
   integrand_quotient_binary64 1 (4 - 1 / 2 ^ 51) (4 - 1 / 2 ^ 51) = Inl NotReal"
proof -
  have cfg: "u_min_integrate example_engine_linear = 1" "u_max_integrate example_engine_linear = 4"
    "u_max_interpolate example_engine_linear = 4" "u_interp_grid_num example_engine_linear = 3"
    by (simp_all add: example_engine_linear_def init_def)
  have grid: "linear_grid_binary64 example_engine_linear (4 - 1 / 2 ^ 51)
                = Inr ([4 - 1 / 2 ^ 51, 4, 4], 0)"
    unfolding linear_grid_binary64_def cfg np_linspace_binary64_below_four by (simp add: index_def)
  have clamp: "max (4 - 1 / 2 ^ 51) (1::real) = 4 - 1 / 2 ^ 51"
    by simp
  have radii: "linear_radii_binary64 example_engine_linear (4 - 1 / 2 ^ 51)
                 = Inr [4 - 1 / 2 ^ 51, 4, 4]"
    unfolding linear_radii_binary64_def cfg clamp Let_def grid
    using fl_below_four fl_examples by simp
  have radicand: "integrand_radicand_binary64 (4 - 1 / 2 ^ 51) (4 - 1 / 2 ^ 51) = Inr 0"
    unfolding integrand_radicand_binary64_def fl_square by simp
  have quotient: "integrand_quotient_binary64 1 (4 - 1 / 2 ^ 51) (4 - 1 / 2 ^ 51) = Inl NotReal"
    unfolding integrand_quotient_binary64_def radicand using fl_below_four by simp
  show ?thesis
    using fl_below_four grid radii radicand quotient by (simp add: cfg)
qed

subsection \<open>The line integral\<close>

lemma mapE_length: "mapE f xs = Inr ys \<Longrightarrow> length ys = length xs"
proof (induction xs arbitrary: ys)
  case Nil
  then show ?case by simp
next
  case (Cons x xs)
  then show ?case
    by (auto simp: bindE_Inr_iff)
qed

lemma u_sigma_r2_interp_array_length:
  assumes "u_sigma_r2_interp_array ext self r a gamma rho r_ani = (Inr s, self')"
  shows "length s = length r"
proof (cases "ensure_interp_sigma_r2 ext self a gamma rho r_ani")
  case (Pair res e)
  show ?thesis
  proof (cases res)
    case (Inl err)
    then show ?thesis using assms Pair by (simp add: u_sigma_r2_interp_array_def)
  next
    case (Inr t)
    then have "bindE (mapE np_log r) (mapE (interp1d_call t)) = Inr s"
      using assms Pair by (simp add: u_sigma_r2_interp_array_def)
    then obtain ls where "mapE np_log r = Inr ls" "mapE (interp1d_call t) ls = Inr s"
      by (auto simp: bindE_Inr_iff)
    then show ?thesis
      by (auto dest!: mapE_length)
  qed
qed

lemma u_sigma_s2_array_length:
  assumes "u_sigma_s2_array ext self r R r_ani a gamma rho = (Inr s, self')"
  shows "length s = length r"
proof (cases "mapE (\<lambda>r_i. bindE (np_div (beta_r r_i r_ani * R\<^sup>2) (r_i\<^sup>2)) (\<lambda>q. Inr (1 - q))) r")
  case (Inl e)
  then show ?thesis using assms by (simp add: u_sigma_s2_array_def)
next
  case (Inr w)
  then have w: "length w = length r" by (rule mapE_length)
  obtain res e where p: "u_sigma_r2_interp_array ext self r a gamma rho r_ani = (res, e)"
    by (cases "u_sigma_r2_interp_array ext self r a gamma rho r_ani")
  show ?thesis
  proof (cases res)
    case (Inl err)
    then show ?thesis using assms Inr p by (simp add: u_sigma_s2_array_def)
  next
    case i: (Inr s')
    then have "length s' = length r"
      using p u_sigma_r2_interp_array_length by blast
    then show ?thesis
      using assms Inr p i w by (auto simp: u_sigma_s2_array_def)
  qed
qed

lemma u_integrand_suyu10_eq21_length:
  assumes "u_integrand_suyu10_eq21 ext self st r R km kl ka = (Inr vs, self', st')"
  shows "length vs = length r"
proof -
  obtain pr st1 where p: "u_read_out_params ext self st km kl ka = (pr, st1)"
    by (cases "u_read_out_params ext self st km kl ka")
  show ?thesis
  proof (cases pr)
    case (Inl e)
    then show ?thesis using assms p by (simp add: u_integrand_suyu10_eq21_def)
  next
    case (Inr params)
    obtain a gamma rho r_ani where params: "params = (a, gamma, rho, r_ani)"
      by (cases params)
    obtain sr e where s: "u_sigma_s2_array ext self r R r_ani a gamma rho = (sr, e)"
      by (cases "u_sigma_s2_array ext self r R r_ani a gamma rho")
    show ?thesis
    proof (cases sr)
      case (Inl err)
      then show ?thesis
        using assms p Inr params s by (simp add: u_integrand_suyu10_eq21_def)
    next
      case i: (Inr sv)
      then have len: "length sv = length r"
        using s u_sigma_s2_array_length by blast
      have "mapE (\<lambda>(s_i, r_i).
                 bindE (np_sqrt (r_i\<^sup>2 - R\<^sup>2)) (\<lambda>root.
                 bindE (np_div (s_i * r_i) root) (\<lambda>q.
                   Inr (q * light_profile_light_3d ext r_i (kwargs_light_copy (st1 kl))))))
              (zip sv r) = Inr vs"
        using assms p Inr params s i by (auto simp: u_integrand_suyu10_eq21_def Let_def)
      then have "length vs = length (zip sv r)"
        by (rule mapE_length)
      then show ?thesis using len by simp
    qed
  qed
qed

lemma weighted_sum_nth:
  fixes vs :: "real list"
  assumes "length vs = n"
  shows "sum_list (map2 (\<lambda>v r_i. v * step * r_i) vs (map f [0..<n]))
           = (\<Sum>i<n. vs ! i * (step * f i))"
proof -
  have "sum_list (map2 (\<lambda>v r_i. v * step * r_i) vs (map f [0..<n]))
          = (\<Sum>i = 0..<n. map2 (\<lambda>v r_i. v * step * r_i) vs (map f [0..<n]) ! i)"
    using assms by (simp add: sum_list_sum_nth)
  also have "\<dots> = (\<Sum>i = 0..<n. vs ! i * (step * f i))"
    using assms by (intro sum.cong) (auto simp: ac_simps)
  finally show ?thesis
    by (simp add: atLeast0LessThan)
qed

text \<open>
  C2, amended. In log mode with at least three grid points and positive bounds, the
  aggregator clamps \<open>R\<close> to \<open>max R min_integrate\<close>, builds the \<open>interpol_grid_num\<close> samples
  \<open>exp (log R + i * step + step / 2)\<close> with \<open>step = (log max_integrate - log R) /
  (interpol_grid_num - 1)\<close>, and hands them to the integrand. When the integrand returns
  the values \<open>vs\<close>, the aggregator returns twice the sum of \<open>vs\<^sub>i * (step * r\<^sub>i)\<close>, paired with
  the light profile's finite-aperture brightness at the clamped radius, which does not
  depend on \<open>vs\<close>; when the integrand fails, so does the aggregator.
\<close>

theorem log_mode_line_integral:
  assumes "u_log_int self" and "3 \<le> u_interp_grid_num self"
    and "0 < u_min_integrate self" and "0 < u_max_integrate self"
    and "R = max R0 (u_min_integrate self)"
    and "u_integrand_suyu10_eq21 ext self st
           (map (log_sample self R) [0..<nat (u_interp_grid_num self)]) R km kl ka
         = (res, self', st')"
  shows "integration_grid self R
           = Inr (map (log_sample self R) [0..<nat (u_interp_grid_num self)],
                  map (log_sample self R) [0..<nat (u_interp_grid_num self)],
                  log_step self R) \<and>
         (res = Inr vs \<longrightarrow>
            length vs = nat (u_interp_grid_num self) \<and>
            I_R_sigma2_and_IR ext self st R0 km kl ka
              = (Inr (2 * (\<Sum>i<nat (u_interp_grid_num self).
                             vs ! i * (log_step self R * log_sample self R i)),
                      light_profile_light_2d_finite ext R (kwargs_light_copy (st' kl))),
                 self', st')) \<and>
         (res = Inl e \<longrightarrow> I_R_sigma2_and_IR ext self st R0 km kl ka = (Inl e, self', st'))"
proof -
  let ?n = "nat (u_interp_grid_num self)"
  have R: "0 < R" using assms(3,5) by simp
  have grid: "integration_grid self R
           = Inr (map (log_sample self R) [0..<?n], map (log_sample self R) [0..<?n],
                  log_step self R)"
    using integration_grid_samples [OF R assms(4) assms(2)] assms(1) by simp
  have fail: "I_R_sigma2_and_IR ext self st R0 km kl ka = (Inl e, self', st')" if "res = Inl e"
    using that grid assms(5,6)
    by (simp add: I_R_sigma2_and_IR_def u_I_R_sigma2_def Let_def)
  have ok: "length vs = ?n \<and> I_R_sigma2_and_IR ext self st R0 km kl ka
              = (Inr (2 * (\<Sum>i<?n. vs ! i * (log_step self R * log_sample self R i)),
                      light_profile_light_2d_finite ext R (kwargs_light_copy (st' kl))),
                 self', st')"
    if "res = Inr vs"
  proof -
    have len: "length vs = ?n"
      using u_integrand_suyu10_eq21_length assms(6) that by fastforce
    have "I_R_sigma2_and_IR ext self st R0 km kl ka
            = (Inr (2 * sum_list (map2 (\<lambda>v r_i. v * log_step self R * r_i) vs
                                    (map (log_sample self R) [0..<?n])),
                    light_profile_light_2d_finite ext R (kwargs_light_copy (st' kl))),
               self', st')"
      using that grid assms(1,5,6)
      by (simp add: I_R_sigma2_and_IR_def u_I_R_sigma2_def Let_def)
    then show ?thesis
      using len by (simp only: weighted_sum_nth [OF len])
  qed
  show ?thesis
    using grid ok fail by blast
qed

text \<open>
  C2 as the specification states it is for every grid size that the configuration
  allows, which is any above 1. With two grid points \<open>r_array[2]\<close> does not exist and
  the aggregator raises an \<open>IndexError\<close>.
\<close>

theorem line_integral_two_points_counterexample:
  "I_R_sigma2_and_IR example_externals example_engine_two_points example_store 1 0 1 2
     = (Inl IndexError, example_engine_two_points, example_store)"
proof -
  have "integration_grid example_engine_two_points 1 = Inl IndexError"
    by (rule integration_grid_two_points) (simp_all add: example_engine_two_points_def init_def)
  then show ?thesis
    by (simp add: I_R_sigma2_and_IR_def u_I_R_sigma2_def example_engine_two_points_def init_def)
qed


lemma mapE_map: "mapE f (map h xs) = mapE (\<lambda>x. f (h x)) xs"
  by (induction xs) simp_all

lemma u_integrand_suyu10_eq21_memo:
  assumes memo: "u_interp_sigma_r2 self = Some t"
    and params: "u_read_out_params ext self st km kl ka = (Inr (a, gamma, rho, r_ani), st')"
    and R: "0 < R" and radii: "\<And>r. r \<in> set rs \<Longrightarrow> R < r"
    and table: "\<And>r. r \<in> set rs \<Longrightarrow> interp1d_call t (ln r) = Inr (g r)"
  shows "u_integrand_suyu10_eq21 ext self st rs R km kl ka
           = (Inr (map (\<lambda>r. (1 - beta_r r r_ani * R\<^sup>2 / r\<^sup>2) * g r * r / sqrt (r\<^sup>2 - R\<^sup>2)
                            * light_profile_light_3d ext r (kwargs_light_copy (st' kl))) rs),
              self, st')"
proof -
  have pos: "0 < r" if "r \<in> set rs" for r
    using radii [OF that] R by simp
  have w: "mapE (\<lambda>r_i. bindE (np_div (beta_r r_i r_ani * R\<^sup>2) (r_i\<^sup>2)) (\<lambda>q. Inr (1 - q))) rs
             = Inr (map (\<lambda>r. 1 - beta_r r r_ani * R\<^sup>2 / r\<^sup>2) rs)"
    by (rule mapE_Inr) (use pos in \<open>auto simp: np_div_def\<close>)
  have logs: "mapE np_log rs = Inr (map ln rs)"
    by (rule mapE_Inr) (simp add: np_log_def pos)
  have lookup: "mapE (interp1d_call t) (map ln rs) = Inr (map g rs)"
    unfolding mapE_map by (rule mapE_Inr) (rule table)
  have interp: "u_sigma_r2_interp_array ext self rs a gamma rho r_ani = (Inr (map g rs), self)"
    by (simp add: u_sigma_r2_interp_array_def ensure_interp_sigma_r2_memo [OF memo] logs lookup)
  have s: "u_sigma_s2_array ext self rs R r_ani a gamma rho
             = (Inr (map (\<lambda>r. (1 - beta_r r r_ani * R\<^sup>2 / r\<^sup>2) * g r) rs), self)"
    by (simp add: u_sigma_s2_array_def w interp zip_map_map zip_same_conv_map)
  have last: "mapE (\<lambda>(s_i, r_i).
                 bindE (np_sqrt (r_i\<^sup>2 - R\<^sup>2)) (\<lambda>root.
                 bindE (np_div (s_i * r_i) root) (\<lambda>q. Inr (q * nu r_i))))
              (zip (map sg rs) rs)
            = Inr (map (\<lambda>r. sg r * r / sqrt (r\<^sup>2 - R\<^sup>2) * nu r) rs)" for sg nu
  proof -
    have "0 < r\<^sup>2 - R\<^sup>2" if "r \<in> set rs" for r
      using radicand_positive(1) [OF R radii [OF that]] .
    then have "mapE (\<lambda>r. bindE (np_sqrt (r\<^sup>2 - R\<^sup>2)) (\<lambda>root.
                 bindE (np_div (sg r * r) root) (\<lambda>q. Inr (q * nu r)))) rs
            = Inr (map (\<lambda>r. sg r * r / sqrt (r\<^sup>2 - R\<^sup>2) * nu r) rs)"
      by (intro mapE_Inr) (fastforce simp: np_sqrt_def np_div_def)
    then show ?thesis
      by (simp add: zip_map1 zip_same_conv_map mapE_map)
  qed
  show ?thesis
    by (simp add: u_integrand_suyu10_eq21_def params s last Let_def)
qed

lemma example_memo_line: "interp1d_call [(0, 1), (1, 2)] x = Inr (x + 1)"
proof -
  have "min (max (searchsorted [0, 1] x) (Suc 0)) (Suc 0) = Suc 0"
    by simp
  then show ?thesis
    by (simp add: interp1d_call_def Let_def np_div_def)
qed

theorem log_mode_line_integral_witness:
  "u_log_int example_engine_log \<and> 3 \<le> u_interp_grid_num example_engine_log \<and>
   0 < u_min_integrate example_engine_log \<and> 0 < u_max_integrate example_engine_log \<and>
   (2::real) = max 2 (u_min_integrate example_engine_log) \<and>
   (\<exists>vs. u_integrand_suyu10_eq21 example_externals example_engine_log example_store
            (map (log_sample example_engine_log 2) [0..<nat (u_interp_grid_num example_engine_log)])
            2 0 1 2
          = (Inr vs, example_engine_log, example_store) \<and>
         length vs = 3 \<and>
         I_R_sigma2_and_IR example_externals example_engine_log example_store 2 0 1 2
           = (Inr (2 * (\<Sum>i<3. vs ! i * (log_step example_engine_log 2
                                           * log_sample example_engine_log 2 i)), 1),
              example_engine_log, example_store)) \<and>
   I_R_sigma2_and_IR example_externals example_engine_log example_store 2 0 2 2
     = (Inl (ValueError ''Hernquist half-light radius can not be determined!''),
        example_engine_log, example_store)"
proof -
  have cfg: "u_log_int example_engine_log" "3 \<le> u_interp_grid_num example_engine_log"
    "0 < u_min_integrate example_engine_log" "0 < u_max_integrate example_engine_log"
    "(2::real) = max 2 (u_min_integrate example_engine_log)"
    and n: "nat (u_interp_grid_num example_engine_log) = 3"
    and memo: "u_interp_sigma_r2 example_engine_log = Some [(0, 1), (1, 2)]"
    and above: "2 < u_max_integrate example_engine_log" "1 < u_interp_grid_num example_engine_log"
    by (simp_all add: example_engine_log_def init_def)
  have p: "u_read_out_params example_externals example_engine_log example_store 0 1 2
             = (Inr (1, 2, 1, 1), example_store)"
    by (simp add: u_read_out_params_def hernquist_a_cases example_store_def getitem_def)
  have radii: "2 < r"
    if "r \<in> set (map (log_sample example_engine_log 2)
                    [0..<nat (u_interp_grid_num example_engine_log)])" for r
    using that above by (auto simp: log_sample_above)
  let ?vs = "map (\<lambda>r. (1 - beta_r r 1 * 2\<^sup>2 / r\<^sup>2) * (ln r + 1) * r / sqrt (r\<^sup>2 - 2\<^sup>2)
                          * light_profile_light_3d example_externals r
                              (kwargs_light_copy (example_store 1)))
               (map (log_sample example_engine_log 2)
                  [0..<nat (u_interp_grid_num example_engine_log)])"
  have i: "u_integrand_suyu10_eq21 example_externals example_engine_log example_store
            (map (log_sample example_engine_log 2) [0..<nat (u_interp_grid_num example_engine_log)])
            2 0 1 2
          = (Inr ?vs, example_engine_log, example_store)"
    by (rule u_integrand_suyu10_eq21_memo [OF memo p _ radii])
       (simp_all add: example_memo_line)
  have "length ?vs = 3 \<and>
        I_R_sigma2_and_IR example_externals example_engine_log example_store 2 0 1 2
           = (Inr (2 * (\<Sum>i<3. ?vs ! i * (log_step example_engine_log 2
                                           * log_sample example_engine_log 2 i)), 1),
              example_engine_log, example_store)"
    using log_mode_line_integral [OF cfg i, of ?vs] n
    by (simp add: example_externals_def)
  then have ok: "\<exists>vs. u_integrand_suyu10_eq21 example_externals example_engine_log example_store
            (map (log_sample example_engine_log 2) [0..<nat (u_interp_grid_num example_engine_log)])
            2 0 1 2
          = (Inr vs, example_engine_log, example_store) \<and>
         length vs = 3 \<and>
         I_R_sigma2_and_IR example_externals example_engine_log example_store 2 0 1 2
           = (Inr (2 * (\<Sum>i<3. vs ! i * (log_step example_engine_log 2
                                           * log_sample example_engine_log 2 i)), 1),
              example_engine_log, example_store)"
    using i by blast
  have f: "u_integrand_suyu10_eq21 example_externals example_engine_log example_store
            (map (log_sample example_engine_log 2) [0..<nat (u_interp_grid_num example_engine_log)])
            2 0 2 2
          = (Inl (ValueError ''Hernquist half-light radius can not be determined!''),
             example_engine_log, example_store)"
    by (simp add: u_integrand_suyu10_eq21_def u_read_out_params_def hernquist_a_cases
          example_store_def)
  have bad: "I_R_sigma2_and_IR example_externals example_engine_log example_store 2 0 2 2
     = (Inl (ValueError ''Hernquist half-light radius can not be determined!''),
        example_engine_log, example_store)"
    using log_mode_line_integral [OF cfg f] by blast
  show ?thesis
    using cfg ok bad by blast
qed

subsection \<open>The caller's dictionaries\<close>

lemma getitem_Inr_iff: "getitem d k = Inr v \<longleftrightarrow> d k = Some v"
  by (auto simp: getitem_def split: option.splits)

lemma u_read_out_params_store:
  "normalisation_written_back ext self m st (snd (u_read_out_params ext self st m l k))"
proof (cases "hernquist_a (st l)")
  case (Inl e)
  then show ?thesis
    by (simp add: u_read_out_params_def normalisation_written_back_def)
next
  case (Inr a)
  show ?thesis
  proof (cases "st m ''rho0_r0_gamma''")
    case (Some v)
    then show ?thesis
      using Inr by (simp add: u_read_out_params_def normalisation_written_back_def dom_def)
  next
    case None
    let ?d = "bindE (getitem (st m) ''theta_E'') (\<lambda>theta_E.
                bindE (getitem (st m) ''gamma'') (\<lambda>gamma. u_rho0_r0_gamma ext self theta_E gamma))"
    show ?thesis
    proof (cases ?d)
      case (Inl e)
      then show ?thesis
        using Inr None by (simp add: u_read_out_params_def normalisation_written_back_def dom_def)
    next
      case d: (Inr v)
      then obtain theta_E gamma where "st m ''theta_E'' = Some theta_E" "st m ''gamma'' = Some gamma"
        "u_rho0_r0_gamma ext self theta_E gamma = Inr v"
        by (auto simp: bindE_Inr_iff getitem_Inr_iff)
      moreover have "snd (u_read_out_params ext self st m l k)
                       = st(m := (st m)(''rho0_r0_gamma'' \<mapsto> v))"
        using Inr None d by (simp add: u_read_out_params_def dom_def)
      ultimately show ?thesis
        using None unfolding normalisation_written_back_def by blast
    qed
  qed
qed

lemma u_read_out_params_written:
  assumes "fst (u_read_out_params ext self st m l k) = Inr (a, gamma, rho, r_ani)"
  shows "snd (u_read_out_params ext self st m l k) m ''rho0_r0_gamma'' = Some rho"
proof -
  obtain a' where a': "hernquist_a (st l) = Inr a'"
    using assms by (cases "hernquist_a (st l)") (simp_all add: u_read_out_params_def)
  show ?thesis
  proof (cases "st m ''rho0_r0_gamma''")
    case (Some v)
    then show ?thesis
      using assms a'
      by (auto simp: u_read_out_params_def dom_def bindE_Inr_iff getitem_Inr_iff)
  next
    case None
    let ?d = "bindE (getitem (st m) ''theta_E'') (\<lambda>theta_E.
                bindE (getitem (st m) ''gamma'') (\<lambda>gamma. u_rho0_r0_gamma ext self theta_E gamma))"
    show ?thesis
    proof (cases ?d)
      case (Inl e)
      then show ?thesis
        using assms a' None by (simp add: u_read_out_params_def dom_def)
    next
      case (Inr v)
      let ?st = "st(m := (st m)(''rho0_r0_gamma'' \<mapsto> v))"
      have unfolded: "u_read_out_params ext self st m l k
          = (bindE (getitem (?st m) ''gamma'') (\<lambda>gamma.
             bindE (getitem (?st m) ''rho0_r0_gamma'') (\<lambda>rho0.
             bindE (getitem (?st k) ''r_ani'') (\<lambda>r_ani. Inr (a', gamma, rho0, r_ani)))), ?st)"
        using a' None Inr by (simp add: u_read_out_params_def dom_def)
      then have "bindE (getitem (?st m) ''gamma'') (\<lambda>gamma.
             bindE (getitem (?st m) ''rho0_r0_gamma'') (\<lambda>rho0.
             bindE (getitem (?st k) ''r_ani'') (\<lambda>r_ani. Inr (a', gamma, rho0, r_ani))))
           = Inr (a, gamma, rho, r_ani)"
        using assms by simp
      then have "rho = v"
        by (auto simp: bindE_Inr_iff getitem_Inr_iff)
      then show ?thesis
        using unfolded by simp
    qed
  qed
qed

lemma sigma_r2_store:
  "snd (sigma_r2 ext self st r m l k) = snd (u_read_out_params ext self st m l k)"
  by (auto simp: sigma_r2_def split: prod.splits sum.splits)

lemma sigma_s2_store:
  "snd (snd (sigma_s2 ext self st r R m l k)) = snd (u_read_out_params ext self st m l k)"
  by (auto simp: sigma_s2_def split: prod.splits sum.splits)

lemma u_integrand_suyu10_eq21_store:
  "snd (snd (u_integrand_suyu10_eq21 ext self st rs R m l k))
     = snd (u_read_out_params ext self st m l k)"
  by (auto simp: u_integrand_suyu10_eq21_def Let_def split: prod.splits sum.splits)

lemma I_R_sigma2_and_IR_store:
  "snd (snd (I_R_sigma2_and_IR ext self st R m l k)) = st \<or>
   snd (snd (I_R_sigma2_and_IR ext self st R m l k)) = snd (u_read_out_params ext self st m l k)"
proof (cases "integration_grid self (max R (u_min_integrate self))")
  case (Inl e)
  then show ?thesis
    by (simp add: I_R_sigma2_and_IR_def u_I_R_sigma2_def)
next
  case (Inr g)
  obtain r_array radii step where g: "g = (r_array, radii, step)"
    by (cases g)
  let ?i = "u_integrand_suyu10_eq21 ext self st radii (max R (u_min_integrate self)) m l k"
  have "snd (snd (I_R_sigma2_and_IR ext self st R m l k)) = snd (snd ?i)"
    using Inr g
    by (auto simp: I_R_sigma2_and_IR_def u_I_R_sigma2_def Let_def split: prod.splits sum.splits)
  then show ?thesis
    by (simp add: u_integrand_suyu10_eq21_store)
qed

lemma normalisation_written_back_frame:
  assumes "normalisation_written_back ext self m st st'"
  shows "st m ''rho0_r0_gamma'' \<noteq> None \<Longrightarrow> st' = st"
    and "ref \<noteq> m \<Longrightarrow> st' ref = st ref"
    and "key \<noteq> ''rho0_r0_gamma'' \<Longrightarrow> st' m key = st m key"
  using assms by (auto simp: normalisation_written_back_def)


text \<open>
  C8. Whatever \<open>sigma_r2\<close>, \<open>sigma_s2\<close> or the aggregator returns, the store of the
  caller's dictionaries is afterwards as it was, or the mass dictionary, which had no
  \<open>rho0_r0_gamma\<close>, has received the value that equation (14) derives from its \<open>theta_E\<close>
  and \<open>gamma\<close>. Hence a mass dictionary that has the key is left unchanged, no other key
  of it changes, and a light or anisotropy dictionary that is another object than the
  mass dictionary is never changed. When the parameters resolve, the normalisation that
  was used is in the mass dictionary afterwards, and a second call changes nothing more.
\<close>

theorem only_normalisation_written_back:
  "normalisation_written_back ext self m st (snd (sigma_r2 ext self st r m l k)) \<and>
   normalisation_written_back ext self m st (snd (snd (sigma_s2 ext self st r R m l k))) \<and>
   normalisation_written_back ext self m st (snd (snd (I_R_sigma2_and_IR ext self st R m l k))) \<and>
   (normalisation_written_back ext self m st st' \<longrightarrow>
      (st m ''rho0_r0_gamma'' \<noteq> None \<longrightarrow> st' = st) \<and>
      (l \<noteq> m \<longrightarrow> st' l = st l) \<and>
      (k \<noteq> m \<longrightarrow> st' k = st k) \<and>
      (key \<noteq> ''rho0_r0_gamma'' \<longrightarrow> st' m key = st m key)) \<and>
   (fst (u_read_out_params ext self st m l k) = Inr (a, gamma, rho, r_ani) \<longrightarrow>
      snd (sigma_r2 ext self st r m l k) m ''rho0_r0_gamma'' = Some rho \<and>
      snd (snd (sigma_s2 ext self st r R m l k)) m ''rho0_r0_gamma'' = Some rho \<and>
      snd (sigma_r2 ext self (snd (sigma_r2 ext self st r m l k)) r' m l k)
        = snd (sigma_r2 ext self st r m l k) \<and>
      snd (snd (sigma_s2 ext self (snd (snd (sigma_s2 ext self st r R m l k))) r' R' m l k))
        = snd (snd (sigma_s2 ext self st r R m l k)))"
proof -
  let ?st1 = "snd (u_read_out_params ext self st m l k)"
  have one: "normalisation_written_back ext self m st ?st1"
    by (rule u_read_out_params_store)
  have refl: "normalisation_written_back ext self m st st"
    by (simp add: normalisation_written_back_def)
  have agg: "normalisation_written_back ext self m st
               (snd (snd (I_R_sigma2_and_IR ext self st R m l k)))"
    using I_R_sigma2_and_IR_store [of ext self st R m l k] one refl by auto
  have frame: "(st m ''rho0_r0_gamma'' \<noteq> None \<longrightarrow> st' = st) \<and>
      (l \<noteq> m \<longrightarrow> st' l = st l) \<and> (k \<noteq> m \<longrightarrow> st' k = st k) \<and>
      (key \<noteq> ''rho0_r0_gamma'' \<longrightarrow> st' m key = st m key)"
    if "normalisation_written_back ext self m st st'"
    using normalisation_written_back_frame [OF that] by blast
  have again: "?st1 m ''rho0_r0_gamma'' = Some rho \<and>
      snd (u_read_out_params ext self ?st1 m l k) = ?st1"
    if "fst (u_read_out_params ext self st m l k) = Inr (a, gamma, rho, r_ani)"
  proof -
    have w: "?st1 m ''rho0_r0_gamma'' = Some rho"
      using that by (rule u_read_out_params_written)
    have "normalisation_written_back ext self m ?st1 (snd (u_read_out_params ext self ?st1 m l k))"
      by (rule u_read_out_params_store)
    then have "snd (u_read_out_params ext self ?st1 m l k) = ?st1"
      using w by (auto simp: normalisation_written_back_def)
    then show ?thesis using w by simp
  qed
  show ?thesis
    using one agg frame again by (simp add: sigma_r2_store sigma_s2_store)
qed

theorem only_normalisation_written_back_witness:
  "fst (u_read_out_params example_externals example_engine example_store_underived 0 1 2)
     = Inr (1, 2, - 1 / sqrt pi, 1) \<and>
   snd (sigma_r2 example_externals example_engine example_store_underived 1 0 1 2)
     = example_store_underived(0 := (example_store_underived 0)(''rho0_r0_gamma'' \<mapsto> - 1 / sqrt pi)) \<and>
   snd (sigma_r2 example_externals example_engine example_store_underived 1 0 1 2) 1
     = example_store_underived 1 \<and>
   snd (sigma_r2 example_externals example_engine example_store_underived 1 0 1 2) 2
     = example_store_underived 2 \<and>
   snd (sigma_r2 example_externals example_engine example_store_underived 1 0 1 2) 0 ''theta_E''
     = example_store_underived 0 ''theta_E'' \<and>
   snd (sigma_r2 example_externals example_engine
          (snd (sigma_r2 example_externals example_engine example_store_underived 1 0 1 2)) 3 0 1 2)
     = snd (sigma_r2 example_externals example_engine example_store_underived 1 0 1 2) \<and>
   snd (sigma_r2 example_externals example_engine example_store 1 0 1 2) = example_store"
proof -
  have floor: "\<not> is_integer (- (1 / 2))"
    by (simp add: is_integer_def)
  have derived: "u_rho0_r0_gamma example_externals example_engine 1 2 = Inr (- 1 / sqrt pi)"
    by (simp add: u_rho0_r0_gamma_def math_gamma_def floor np_div_def py_pow_def
          example_externals_def example_engine_def init_def example_cosmo_def)
  have p: "u_read_out_params example_externals example_engine example_store_underived 0 1 2
      = (Inr (1, 2, - 1 / sqrt pi, 1),
         example_store_underived(0 := (example_store_underived 0)(''rho0_r0_gamma'' \<mapsto> - 1 / sqrt pi)))"
    by (simp add: u_read_out_params_def hernquist_a_cases example_store_underived_def
          getitem_def derived dom_def)
  have present: "example_store 0 ''rho0_r0_gamma'' \<noteq> None"
    by (simp add: example_store_def)
  note t = only_normalisation_written_back [where ext = example_externals
      and self = example_engine and m = 0 and st = example_store_underived and r = 1 and R = 1
      and l = 1 and k = 2 and key = "''theta_E''" and a = 1 and gamma = 2
      and rho = "- 1 / sqrt pi" and r_ani = 1 and r' = 3 and R' = 1]
  note t' = only_normalisation_written_back [where ext = example_externals
      and self = example_engine and m = 0 and st = example_store and r = 1 and R = 1
      and l = 1 and k = 2 and key = "''theta_E''"
      and st' = "snd (sigma_r2 example_externals example_engine example_store 1 0 1 2)"]
  have unchanged: "snd (sigma_r2 example_externals example_engine example_store 1 0 1 2)
                     = example_store"
    using t' present by blast
  have frame: "snd (sigma_r2 example_externals example_engine example_store_underived 1 0 1 2) 1
       = example_store_underived 1 \<and>
     snd (sigma_r2 example_externals example_engine example_store_underived 1 0 1 2) 2
       = example_store_underived 2 \<and>
     snd (sigma_r2 example_externals example_engine example_store_underived 1 0 1 2) 0 ''theta_E''
       = example_store_underived 0 ''theta_E''"
    using t [where st' = "snd (sigma_r2 example_externals example_engine example_store_underived 1 0 1 2)"]
    by simp
  have again: "snd (sigma_r2 example_externals example_engine
          (snd (sigma_r2 example_externals example_engine example_store_underived 1 0 1 2)) 3 0 1 2)
     = snd (sigma_r2 example_externals example_engine example_store_underived 1 0 1 2)"
    using t [where st' = example_store_underived] p by simp
  show ?thesis
    using p unchanged frame again by (simp add: sigma_r2_store)
qed

section \<open>Properties of the linear basis aggregator\<close>

lemma bindB_simps [simp]:
  "bindB (Inl e) f = Inl e"
  "bindB (Inr v) f = f v"
  by (simp_all add: bindB_def)

lemma single_amp_models_same: "set single_amp_models_update = set single_amp_models"
  by (auto simp: single_amp_models_update_def single_amp_models_def)

lemma py_int_nonneg: "- 1 < x \<Longrightarrow> 0 \<le> py_int x"
  by (auto simp: py_int_def)

lemma shapelet_num_param_nonneg: "shapelet_num_param model v = Inr num \<Longrightarrow> 0 \<le> num"
proof -
  assume a: "shapelet_num_param model v = Inr num"
  have tri: "- 1 < (n + 1) * (n + 2) / 2" for n :: real
  proof -
    have "0 \<le> (n + 3 / 2)\<^sup>2" by simp
    also have "(n + 3 / 2)\<^sup>2 = (n + 1) * (n + 2) + 1 / 4"
      by (simp add: power2_eq_square algebra_simps)
    finally show ?thesis by simp
  qed
  have sq: "- 1 < (n + 1)\<^sup>2" for n :: real
    using zero_le_power2 [of "n + 1"] by linarith
  show ?thesis
    using a tri sq
    by (cases v) (auto simp: shapelet_num_param_def as_number_def py_int_nonneg split: if_splits)
qed

lemma list_getitem_middle [simp]: "list_getitem (pre @ kw # kws) (length pre) = Inr kw"
  by (simp add: list_getitem_def)

lemma matching_entry_shapelet:
  assumes "matching_entry model kw" and "model \<notin> set single_amp_models"
    and "model \<notin> set multi_gaussian_models"
  obtains v num where "model \<in> set shapelet_models" "kw ''n_max'' = Some v"
    "shapelet_num_param model v = Inr num" "linear_count model kw = num" "0 \<le> num"
proof -
  from assms have m: "model \<in> set shapelet_models"
    by (auto simp: matching_entry_def split: if_splits)
  from assms m obtain v where v: "kw ''n_max'' = Some v" "\<exists>x. as_number v = Inr x"
    by (auto simp: matching_entry_def as_number_def split: option.splits pyval.splits)
  then obtain num where num: "shapelet_num_param model v = Inr num"
    by (cases "model = ''SHAPELETS_POLAR_EXP''") (auto simp: shapelet_num_param_def)
  then have "linear_count model kw = num"
    using assms v by (simp add: linear_count_def)
  then show ?thesis
    using that m v num shapelet_num_param_nonneg by blast
qed

lemma matching_entry_multi_gaussian:
  assumes "matching_entry model kw" and "model \<notin> set single_amp_models"
    and "model \<in> set multi_gaussian_models"
  obtains amp sigma where "kw ''amp'' = Some (PyArray amp)" "kw ''sigma'' = Some (PyArray sigma)"
    "length amp = length sigma" "linear_count model kw = int (length sigma)"
proof -
  have m: "(case (kw ''amp'', kw ''sigma'') of
           (Some (PyArray amp), Some (PyArray sigma)) \<Rightarrow> length amp = length sigma
         | _ \<Rightarrow> False)"
    using assms by (simp add: matching_entry_def)
  then obtain va vs where v: "kw ''amp'' = Some va" "kw ''sigma'' = Some vs"
    by (cases "kw ''amp''"; cases "kw ''sigma''") (auto split: pyval.splits)
  then obtain amp sigma where a: "va = PyArray amp" "vs = PyArray sigma"
    using m by (cases va; cases vs) auto
  then have "length amp = length sigma"
    using m v by simp
  moreover have "linear_count model kw = int (length sigma)"
    using assms v a by (simp add: linear_count_def)
  ultimately show ?thesis
    using that v a by blast
qed

lemma linear_count_nonneg: "matching_entry model kw \<Longrightarrow> 0 \<le> linear_count model kw"
  by (metis linear_count_def matching_entry_multi_gaussian matching_entry_shapelet of_nat_0_le_iff
      zero_le_one)

lemma num_param_linear_body_matching:
  assumes "matching_entry model kw"
  shows "num_param_linear_body (pre @ kw # kws) (length pre) model = Inr (linear_count model kw)"
proof (cases "model \<in> set single_amp_models")
  case True
  then show ?thesis by (simp add: num_param_linear_body_def linear_count_def)
next
  case False
  show ?thesis
  proof (cases "model \<in> set multi_gaussian_models")
    case True
    from matching_entry_multi_gaussian [OF assms False True] obtain amp sigma where
      "kw ''sigma'' = Some (PyArray sigma)" "linear_count model kw = int (length sigma)"
      by metis
    then show ?thesis
      using False True by (simp add: num_param_linear_body_def dict_getitem_def py_len_def)
  next
    case nm: False
    from matching_entry_shapelet [OF assms False nm] obtain v num where
      "model \<in> set shapelet_models" "kw ''n_max'' = Some v"
      "shapelet_num_param model v = Inr num" "linear_count model kw = num"
      by metis
    then show ?thesis
      using False nm by (simp add: num_param_linear_body_def dict_getitem_def)
  qed
qed

lemma functions_split_body_matching:
  assumes "matching_entry model kw"
  shows "\<exists>new. functions_split_body self x y (pre @ kw # kws) (length pre) model
                  = Inr (new, linear_count model kw) \<and>
               (one_response_per_amplitude self \<longrightarrow> int (length new) = linear_count model kw)"
proof (cases "model \<in> set single_amp_models")
  case True
  then show ?thesis by (simp add: functions_split_body_def linear_count_def)
next
  case False
  show ?thesis
  proof (cases "model \<in> set multi_gaussian_models")
    case True
    from matching_entry_multi_gaussian [OF assms False True] obtain amp sigma where
      "kw ''amp'' = Some (PyArray amp)" "kw ''sigma'' = Some (PyArray sigma)"
      "length amp = length sigma" "linear_count model kw = int (length sigma)"
      by metis
    then show ?thesis
      using False True
      by (simp add: functions_split_body_def dict_getitem_def py_len_def np_ones_def
            one_response_per_amplitude_def)
  next
    case nm: False
    from matching_entry_shapelet [OF assms False nm] obtain v num where
      "model \<in> set shapelet_models" "kw ''n_max'' = Some v"
      "shapelet_num_param model v = Inr num" "linear_count model kw = num" "0 \<le> num"
      by metis
    then show ?thesis
      using False nm
      by (simp add: functions_split_body_def dict_getitem_def np_ones_def
            one_response_per_amplitude_def)
  qed
qed

lemma update_linear_body_matching:
  assumes "matching_entry model kw" and "0 \<le> i"
    and "i + linear_count model kw \<le> int (length param)"
  shows "\<exists>kw'. update_linear_body param i (pre @ kw # kws) (length pre) model
                  = Inr (pre @ kw' # kws, i + linear_count model kw)"
proof (cases "model \<in> set single_amp_models")
  case True
  then have "linear_count model kw = 1" by (simp add: linear_count_def)
  then have "array_index param i = Inr (param ! nat i)"
    using assms by (simp add: array_index_def Let_def)
  then show ?thesis
    using True by (simp add: update_linear_body_def single_amp_models_same setitem_amp_def
        linear_count_def)
next
  case False
  show ?thesis
  proof (cases "model \<in> set multi_gaussian_models")
    case True
    from matching_entry_multi_gaussian [OF assms(1) False True] obtain amp sigma where
      "kw ''sigma'' = Some (PyArray sigma)" "linear_count model kw = int (length sigma)"
      by metis
    then show ?thesis
      using False True
      by (simp add: update_linear_body_def single_amp_models_same setitem_amp_def
            dict_getitem_def py_len_def)
  next
    case nm: False
    from matching_entry_shapelet [OF assms(1) False nm] obtain v num where
      "model \<in> set shapelet_models" "kw ''n_max'' = Some v"
      "shapelet_num_param model v = Inr num" "linear_count model kw = num"
      by metis
    then show ?thesis
      using False nm
      by (simp add: update_linear_body_def single_amp_models_same setitem_amp_def
            dict_getitem_def)
  qed
qed


lemma num_param_linear_loop_prefix:
  assumes "list_all2 matching_entry ms kws"
  shows "num_param_linear_loop (pre @ kws @ rest) (enumerate (length pre) (ms @ post)) acc
           = num_param_linear_loop (pre @ kws @ rest)
               (enumerate (length pre + length ms) post) (acc @ map2 linear_count ms kws)"
  using assms
proof (induction ms kws arbitrary: pre acc rule: list_all2_induct)
  case Nil
  then show ?case by simp
next
  case (Cons m ms kw kws)
  have "num_param_linear_loop ((pre @ [kw]) @ kws @ rest)
          (enumerate (length (pre @ [kw])) (ms @ post)) (acc @ [linear_count m kw])
        = num_param_linear_loop ((pre @ [kw]) @ kws @ rest)
            (enumerate (length (pre @ [kw]) + length ms) post)
            ((acc @ [linear_count m kw]) @ map2 linear_count ms kws)"
    by (rule Cons.IH)
  then show ?case
    using num_param_linear_body_matching [OF Cons.hyps(1), of pre "kws @ rest"]
    by simp
qed

lemma functions_split_loop_prefix:
  assumes "list_all2 matching_entry ms kws"
  shows "\<exists>new. functions_split_loop self x y (pre @ kws @ rest) None
                  (enumerate (length pre) (ms @ post)) (response, n)
               = functions_split_loop self x y (pre @ kws @ rest) None
                   (enumerate (length pre + length ms) post)
                   (response @ new, n + sum_list (map2 linear_count ms kws)) \<and>
               (one_response_per_amplitude self
                  \<longrightarrow> int (length new) = sum_list (map2 linear_count ms kws))"
  using assms
proof (induction ms kws arbitrary: pre response n rule: list_all2_induct)
  case Nil
  show ?case by (intro exI [of _ "[]"]) simp
next
  case (Cons m ms kw kws)
  obtain new1 where new1:
    "functions_split_body self x y (pre @ kw # kws @ rest) (length pre) m
       = Inr (new1, linear_count m kw)"
    "one_response_per_amplitude self \<longrightarrow> int (length new1) = linear_count m kw"
    using functions_split_body_matching [OF Cons.hyps(1), of self x y pre "kws @ rest"] by blast
  obtain new2 where new2:
    "functions_split_loop self x y ((pre @ [kw]) @ kws @ rest) None
        (enumerate (length (pre @ [kw])) (ms @ post)) (response @ new1, n + linear_count m kw)
     = functions_split_loop self x y ((pre @ [kw]) @ kws @ rest) None
         (enumerate (length (pre @ [kw]) + length ms) post)
         ((response @ new1) @ new2, n + linear_count m kw + sum_list (map2 linear_count ms kws))"
    "one_response_per_amplitude self \<longrightarrow> int (length new2) = sum_list (map2 linear_count ms kws)"
    using Cons.IH [of "pre @ [kw]" "response @ new1" "n + linear_count m kw"] by blast
  show ?case
    using new1 new2 by (intro exI [of _ "new1 @ new2"]) (simp add: add.assoc)
qed

lemma update_linear_loop_prefix:
  assumes "list_all2 matching_entry ms kws" and "0 \<le> i"
    and "i + sum_list (map2 linear_count ms kws) \<le> int (length param)"
  shows "\<exists>kws'. length kws' = length kws \<and>
           update_linear_loop param (enumerate (length pre) (ms @ post)) (pre @ kws @ rest, i)
             = update_linear_loop param (enumerate (length pre + length ms) post)
                 (pre @ kws' @ rest, i + sum_list (map2 linear_count ms kws))"
  using assms
proof (induction ms kws arbitrary: pre i rule: list_all2_induct)
  case Nil
  show ?case by (intro exI [of _ "[]"]) simp
next
  case (Cons m ms kw kws)
  have c: "0 \<le> linear_count m kw"
    using Cons.hyps(1) by (rule linear_count_nonneg)
  have tail: "0 \<le> sum_list (map2 linear_count ms kws)"
    using Cons.hyps(2)
    by (intro sum_list_nonneg) (auto simp: list_all2_conv_all_nth in_set_zip linear_count_nonneg)
  have fits: "i + linear_count m kw \<le> int (length param)"
    using Cons.prems tail by simp
  obtain kw' where kw':
    "update_linear_body param i (pre @ kw # kws @ rest) (length pre) m
       = Inr (pre @ kw' # kws @ rest, i + linear_count m kw)"
    using update_linear_body_matching [OF Cons.hyps(1) Cons.prems(1) fits, of pre "kws @ rest"]
    by blast
  have "\<exists>kws'. length kws' = length kws \<and>
           update_linear_loop param (enumerate (length (pre @ [kw'])) (ms @ post))
               ((pre @ [kw']) @ kws @ rest, i + linear_count m kw)
             = update_linear_loop param (enumerate (length (pre @ [kw']) + length ms) post)
                 ((pre @ [kw']) @ kws' @ rest,
                  i + linear_count m kw + sum_list (map2 linear_count ms kws))"
    using Cons.prems c by (intro Cons.IH) simp_all
  then obtain kws' where kws': "length kws' = length kws"
    "update_linear_loop param (enumerate (length (pre @ [kw'])) (ms @ post))
               ((pre @ [kw']) @ kws @ rest, i + linear_count m kw)
             = update_linear_loop param (enumerate (length (pre @ [kw']) + length ms) post)
                 ((pre @ [kw']) @ kws' @ rest,
                  i + linear_count m kw + sum_list (map2 linear_count ms kws))"
    by blast
  show ?case
    using kw' kws' by (intro exI [of _ "kw' # kws'"]) (simp add: add.assoc)
qed


lemma bodies_not_valid:
  assumes "model \<notin> set single_amp_models" and "model \<notin> set multi_gaussian_models"
    and "model \<notin> set shapelet_models"
  shows "functions_split_body self x y kwargs_list i model = Inl (model_not_valid model)"
    and "num_param_linear_body kwargs_list i model = Inl (model_not_valid model)"
    and "update_linear_body param j kwargs_list i model = Inl (model_not_valid model)"
  using assms
  by (simp_all add: functions_split_body_def num_param_linear_body_def update_linear_body_def
        single_amp_models_same)

lemma counts_agree_matching:
  assumes "list_all2 matching_entry (profile_type_list self) kwargs_list"
  shows "num_param_linear_list self kwargs_list
           = Inr (map2 linear_count (profile_type_list self) kwargs_list)"
    and "\<exists>response. functions_split self x y kwargs_list None
             = Inr (response, sum_list (map2 linear_count (profile_type_list self) kwargs_list)) \<and>
           (one_response_per_amplitude self \<longrightarrow>
              int (length response)
                = sum_list (map2 linear_count (profile_type_list self) kwargs_list))"
    and "0 \<le> i \<Longrightarrow>
         i + sum_list (map2 linear_count (profile_type_list self) kwargs_list) \<le> int (length param)
         \<Longrightarrow> fst (update_linear self param i kwargs_list)
               = Inr (i + sum_list (map2 linear_count (profile_type_list self) kwargs_list))"
proof -
  show "num_param_linear_list self kwargs_list
           = Inr (map2 linear_count (profile_type_list self) kwargs_list)"
    using num_param_linear_loop_prefix [OF assms, of "[]" "[]" "[]" "[]"]
    by (simp add: num_param_linear_list_def)
  show "\<exists>response. functions_split self x y kwargs_list None
             = Inr (response, sum_list (map2 linear_count (profile_type_list self) kwargs_list)) \<and>
           (one_response_per_amplitude self \<longrightarrow>
              int (length response)
                = sum_list (map2 linear_count (profile_type_list self) kwargs_list))"
    using functions_split_loop_prefix [OF assms, of self x y "[]" "[]" "[]" "[]" 0]
    by (simp add: functions_split_def)
  show "fst (update_linear self param i kwargs_list)
               = Inr (i + sum_list (map2 linear_count (profile_type_list self) kwargs_list))"
    if "0 \<le> i"
      "i + sum_list (map2 linear_count (profile_type_list self) kwargs_list) \<le> int (length param)"
    using update_linear_loop_prefix [OF assms that, of "[]" "[]" "[]"]
    by (auto simp: update_linear_def)
qed

lemma counts_agree_not_valid:
  assumes models: "profile_type_list self = ms @ model # post"
    and bad: "model \<notin> set single_amp_models" "model \<notin> set multi_gaussian_models"
      "model \<notin> set shapelet_models"
    and m: "list_all2 matching_entry ms (take (length ms) kwargs_list)"
  shows "functions_split self x y kwargs_list None = Inl (model_not_valid model)"
    and "num_param_linear_list self kwargs_list = Inl (model_not_valid model)"
    and "0 \<le> i \<Longrightarrow>
         i + sum_list (map2 linear_count ms (take (length ms) kwargs_list)) \<le> int (length param)
         \<Longrightarrow> fst (update_linear self param i kwargs_list) = Inl (model_not_valid model)"
proof -
  let ?kws = "take (length ms) kwargs_list" and ?rest = "drop (length ms) kwargs_list"
  have split: "[] @ ?kws @ ?rest = kwargs_list" by simp
  show "functions_split self x y kwargs_list None = Inl (model_not_valid model)"
    using functions_split_loop_prefix [OF m, of self x y "[]" ?rest "model # post" "[]" 0]
      bodies_not_valid(1) [OF bad]
    unfolding split by (auto simp: functions_split_def models)
  show "num_param_linear_list self kwargs_list = Inl (model_not_valid model)"
    using num_param_linear_loop_prefix [OF m, of "[]" ?rest "model # post" "[]"]
      bodies_not_valid(2) [OF bad]
    unfolding split by (simp add: num_param_linear_list_def models)
  show "fst (update_linear self param i kwargs_list) = Inl (model_not_valid model)"
    if "0 \<le> i"
      "i + sum_list (map2 linear_count ms (take (length ms) kwargs_list)) \<le> int (length param)"
    using update_linear_loop_prefix [OF m that, of "[]" "model # post" ?rest]
      bodies_not_valid(3) [OF bad]
    by (auto simp: update_linear_def models)
qed

text \<open>
  C10, amended. Let every dictionary match its model tag, a multi-Gaussian dictionary
  having as many amplitudes as widths. Then \<open>num_param_linear_list\<close> returns the list of
  the models' coefficient counts, \<open>num_param_linear\<close> its sum, \<open>functions_split\<close> with
  \<open>k = None\<close> that same sum as \<open>n\<close>, with as many responses when every profile returns
  one response per amplitude, and \<open>update_linear\<close>, when \<open>param\<close> has the entries from
  \<open>i\<close> on that the sum asks for, returns \<open>i\<close> advanced by that sum. When the tags before
  the first unsupported tag have matching dictionaries, the three methods raise the same
  error that names the unsupported tag.
\<close>

theorem linear_counts_agree:
  "(list_all2 matching_entry (profile_type_list self) kwargs_list \<longrightarrow>
      num_param_linear_list self kwargs_list
        = Inr (map2 linear_count (profile_type_list self) kwargs_list) \<and>
      num_param_linear self kwargs_list
        = Inr (sum_list (map2 linear_count (profile_type_list self) kwargs_list)) \<and>
      (\<exists>response.
         functions_split self x y kwargs_list None
           = Inr (response, sum_list (map2 linear_count (profile_type_list self) kwargs_list)) \<and>
         (one_response_per_amplitude self \<longrightarrow>
            int (length response)
              = sum_list (map2 linear_count (profile_type_list self) kwargs_list))) \<and>
      (0 \<le> i \<and>
       i + sum_list (map2 linear_count (profile_type_list self) kwargs_list) \<le> int (length param)
       \<longrightarrow> fst (update_linear self param i kwargs_list)
             = Inr (i + sum_list (map2 linear_count (profile_type_list self) kwargs_list)))) \<and>
   (profile_type_list self = ms @ model # post \<and>
    model \<notin> set single_amp_models \<and> model \<notin> set multi_gaussian_models \<and>
    model \<notin> set shapelet_models \<and>
    list_all2 matching_entry ms (take (length ms) kwargs_list) \<longrightarrow>
      functions_split self x y kwargs_list None = Inl (model_not_valid model) \<and>
      num_param_linear_list self kwargs_list = Inl (model_not_valid model) \<and>
      num_param_linear self kwargs_list = Inl (model_not_valid model) \<and>
      (0 \<le> i \<and>
       i + sum_list (map2 linear_count ms (take (length ms) kwargs_list)) \<le> int (length param)
       \<longrightarrow> fst (update_linear self param i kwargs_list) = Inl (model_not_valid model)))"
proof (intro conjI impI)
  assume m: "list_all2 matching_entry (profile_type_list self) kwargs_list"
  show "num_param_linear_list self kwargs_list
        = Inr (map2 linear_count (profile_type_list self) kwargs_list)"
    using m by (rule counts_agree_matching(1))
  then show "num_param_linear self kwargs_list
        = Inr (sum_list (map2 linear_count (profile_type_list self) kwargs_list))"
    by (simp add: num_param_linear_def)
  show "\<exists>response.
         functions_split self x y kwargs_list None
           = Inr (response, sum_list (map2 linear_count (profile_type_list self) kwargs_list)) \<and>
         (one_response_per_amplitude self \<longrightarrow>
            int (length response)
              = sum_list (map2 linear_count (profile_type_list self) kwargs_list))"
    using m by (rule counts_agree_matching(2))
  show "fst (update_linear self param i kwargs_list)
             = Inr (i + sum_list (map2 linear_count (profile_type_list self) kwargs_list))"
    if "0 \<le> i \<and>
       i + sum_list (map2 linear_count (profile_type_list self) kwargs_list) \<le> int (length param)"
    using counts_agree_matching(3) [OF m] that by blast
next
  assume a: "profile_type_list self = ms @ model # post \<and>
    model \<notin> set single_amp_models \<and> model \<notin> set multi_gaussian_models \<and>
    model \<notin> set shapelet_models \<and>
    list_all2 matching_entry ms (take (length ms) kwargs_list)"
  then have models: "profile_type_list self = ms @ model # post"
    and bad: "model \<notin> set single_amp_models" "model \<notin> set multi_gaussian_models"
      "model \<notin> set shapelet_models"
    and m: "list_all2 matching_entry ms (take (length ms) kwargs_list)"
    by simp_all
  show "functions_split self x y kwargs_list None = Inl (model_not_valid model)"
    using models bad m by (rule counts_agree_not_valid(1))
  show l: "num_param_linear_list self kwargs_list = Inl (model_not_valid model)"
    using models bad m by (rule counts_agree_not_valid(2))
  then show "num_param_linear self kwargs_list = Inl (model_not_valid model)"
    by (simp add: num_param_linear_def)
  show "fst (update_linear self param i kwargs_list) = Inl (model_not_valid model)"
    if "0 \<le> i \<and>
       i + sum_list (map2 linear_count ms (take (length ms) kwargs_list)) \<le> int (length param)"
    using counts_agree_not_valid(3) [OF models bad m] that by blast
qed


lemma example_contract: "one_response_per_amplitude (example_basis models)"
  by (simp add: one_response_per_amplitude_def example_basis_def example_profile_split_def)

lemma tag_memberships:
  "''SERSIC'' \<in> set single_amp_models"
  "''MULTI_GAUSSIAN'' \<notin> set single_amp_models"
  "''MULTI_GAUSSIAN'' \<in> set multi_gaussian_models"
  "''SHAPELETS'' \<notin> set single_amp_models"
  "''SHAPELETS'' \<notin> set multi_gaussian_models"
  "''SHAPELETS'' \<in> set shapelet_models"
  "''BOGUS'' \<notin> set single_amp_models"
  "''BOGUS'' \<notin> set multi_gaussian_models"
  "''BOGUS'' \<notin> set shapelet_models"
  by (simp_all add: single_amp_models_def multi_gaussian_models_def shapelet_models_def)

lemma py_int_3: "py_int 3 = 3"
  by (simp add: py_int_def)

theorem linear_counts_agree_witness:
  "list_all2 matching_entry (profile_type_list (example_basis example_models)) example_kwargs_list \<and>
   one_response_per_amplitude (example_basis example_models) \<and>
   num_param_linear_list (example_basis example_models) example_kwargs_list = Inr [1, 2, 3] \<and>
   num_param_linear (example_basis example_models) example_kwargs_list = Inr 6 \<and>
   (\<exists>response. functions_split (example_basis example_models) [0] [0] example_kwargs_list None
                 = Inr (response, 6) \<and> int (length response) = 6) \<and>
   fst (update_linear (example_basis example_models) [1, 2, 3, 4, 5, 6] 0 example_kwargs_list)
     = Inr 6 \<and>
   functions_split (example_basis [''SERSIC'', ''BOGUS'']) [0] [0] example_kwargs_list None
     = Inl (model_not_valid ''BOGUS'') \<and>
   num_param_linear (example_basis [''SERSIC'', ''BOGUS'']) example_kwargs_list
     = Inl (model_not_valid ''BOGUS'') \<and>
   fst (update_linear (example_basis [''SERSIC'', ''BOGUS'']) [1, 2, 3, 4, 5, 6] 0 example_kwargs_list)
     = Inl (model_not_valid ''BOGUS'')"
proof -
  have counts: "map2 linear_count example_models example_kwargs_list = [1, 2, 3]"
    by (simp add: example_models_def example_kwargs_list_def linear_count_def tag_memberships
          shapelet_num_param_def as_number_def py_int_3)
  have m: "list_all2 matching_entry (profile_type_list (example_basis example_models))
             example_kwargs_list"
    by (simp add: example_basis_def example_models_def example_kwargs_list_def matching_entry_def
          tag_memberships)
  have c: "one_response_per_amplitude (example_basis example_models)"
    by (rule example_contract)
  have models: "profile_type_list (example_basis example_models) = example_models"
    by (simp add: example_basis_def)
  have ok: "num_param_linear_list (example_basis example_models) example_kwargs_list = Inr [1, 2, 3] \<and>
      num_param_linear (example_basis example_models) example_kwargs_list = Inr 6 \<and>
      (\<exists>response. functions_split (example_basis example_models) [0] [0] example_kwargs_list None
                 = Inr (response, 6) \<and> int (length response) = 6) \<and>
      fst (update_linear (example_basis example_models) [1, 2, 3, 4, 5, 6] 0 example_kwargs_list)
        = Inr 6"
    using m c linear_counts_agree [where self = "example_basis example_models"
        and kwargs_list = example_kwargs_list and x = "[0]" and y = "[0]" and i = 0
        and param = "[1, 2, 3, 4, 5, 6]", THEN conjunct1]
    by (simp add: models counts)
  have bogus: "profile_type_list (example_basis [''SERSIC'', ''BOGUS''])
                 = [''SERSIC''] @ ''BOGUS'' # []"
    by (simp add: example_basis_def)
  have pre: "list_all2 matching_entry [''SERSIC''] (take (length [''SERSIC'']) example_kwargs_list)"
    by (simp add: example_kwargs_list_def matching_entry_def tag_memberships)
  have one: "sum_list (map2 linear_count [''SERSIC''] (take (Suc 0) example_kwargs_list)) = 1"
    by (simp add: example_kwargs_list_def linear_count_def tag_memberships)
  have bad: "functions_split (example_basis [''SERSIC'', ''BOGUS'']) [0] [0] example_kwargs_list None
       = Inl (model_not_valid ''BOGUS'') \<and>
     num_param_linear (example_basis [''SERSIC'', ''BOGUS'']) example_kwargs_list
       = Inl (model_not_valid ''BOGUS'') \<and>
     fst (update_linear (example_basis [''SERSIC'', ''BOGUS'']) [1, 2, 3, 4, 5, 6] 0
            example_kwargs_list)
       = Inl (model_not_valid ''BOGUS'')"
    using bogus pre tag_memberships
      linear_counts_agree [where self = "example_basis [''SERSIC'', ''BOGUS'']"
        and kwargs_list = example_kwargs_list and x = "[0]" and y = "[0]" and i = 0
        and param = "[1, 2, 3, 4, 5, 6]" and ms = "[''SERSIC'']" and model = "''BOGUS''"
        and post = "[]", THEN conjunct2]
    by (simp add: one)
  show ?thesis
    using m c ok bad by blast
qed

text \<open>
  C10 as it is stated asks of the dictionaries only that they match their tags. With one
  amplitude and two widths \<open>functions_split\<close> counts the amplitudes and returns 1 where
  \<open>num_param_linear\<close> and \<open>update_linear\<close> count the widths and return 2; and with a
  \<open>param\<close> that has no entry at \<open>i\<close>, \<open>update_linear\<close> raises an \<open>IndexError\<close>.
\<close>

theorem linear_counts_disagree_counterexample:
  "functions_split (example_basis [''MULTI_GAUSSIAN'']) [0] [0] example_kwargs_one_amp_two_sigma None
     = Inr ([[1]], 1) \<and>
   num_param_linear (example_basis [''MULTI_GAUSSIAN'']) example_kwargs_one_amp_two_sigma = Inr 2 \<and>
   fst (update_linear (example_basis [''MULTI_GAUSSIAN'']) [5, 6] 0 example_kwargs_one_amp_two_sigma)
     = Inr 2 \<and>
   num_param_linear (example_basis [''SERSIC'']) [Map.empty] = Inr 1 \<and>
   fst (update_linear (example_basis [''SERSIC'']) [] 0 [Map.empty]) = Inl OutOfRange"
  by (simp add: functions_split_def num_param_linear_def num_param_linear_list_def update_linear_def
        example_basis_def example_kwargs_one_amp_two_sigma_def enumerate_simps
        functions_split_body_def num_param_linear_body_def update_linear_body_def
        single_amp_models_same tag_memberships list_getitem_def dict_getitem_def py_len_def
        np_ones_def example_profile_split_def setitem_amp_def array_index_def)

section \<open>The sign of the radial dispersion\<close>

lemma hyp_series_term_nonneg:
  assumes "0 < a" and "0 < b" and "0 < c" and "0 \<le> z"
  shows "0 \<le> hyp_series_term a b c z n"
  using assms
  by (simp add: hyp_series_term_def pochhammer_nonneg pochhammer_pos less_imp_le)

lemma hyp_series_term_Suc:
  assumes "0 < c"
  shows "hyp_series_term a b c z (Suc n)
           = hyp_series_term a b c z n
               * ((a + real n) * (b + real n) * z / ((c + real n) * (real n + 1)))"
proof -
  have "pochhammer c n \<noteq> 0"
    using pochhammer_pos [OF assms, of n] by simp
  moreover have "c + real n \<noteq> 0"
    using assms by (simp add: add_pos_nonneg less_imp_neq [THEN not_sym])
  ultimately show ?thesis
    by (simp add: hyp_series_term_def pochhammer_Suc field_simps)
qed

lemma hyp_ratio_bound:
  assumes a: "0 < a" and b: "0 < b" and c: "0 < c" and z: "0 \<le> z" "z < 1"
  shows "\<exists>N. \<forall>n\<ge>N. (a + real n) * (b + real n) * z / ((c + real n) * (real n + 1))
                       \<le> (1 + z) / 2"
proof -
  define e where "e = (1 - z) / 2"
  define D where "D = z * (a + b + a * b)"
  have e: "0 < e" using z by (simp add: e_def)
  have D: "0 \<le> D" using a b z by (simp add: D_def)
  obtain N where N: "D / e < real N"
    using reals_Archimedean2 by blast
  have "(a + real n) * (b + real n) * z / ((c + real n) * (real n + 1)) \<le> (1 + z) / 2"
    if "N \<le> n" for n
  proof -
    have "0 \<le> D / e" using D e by simp
    then have n1: "1 \<le> real n"
      using N that by (metis le_less_trans less_le_trans of_nat_le_iff of_nat_0_less_iff
          of_nat_1 of_nat_less_iff less_one linorder_not_less of_nat_0)
    have "D / e < real n" using N that by (simp add: less_le_trans)
    then have De: "D \<le> e * real n"
      using e by (simp add: pos_divide_less_eq mult.commute less_imp_le)
    have "z * ((a + b) * real n + a * b) \<le> z * ((a + b + a * b) * real n)"
    proof (rule mult_left_mono [OF _ z(1)])
      have "a * b \<le> a * b * real n"
        using a b n1 by (simp add: mult_pos_pos less_imp_le)
      then show "(a + b) * real n + a * b \<le> (a + b + a * b) * real n"
        by (simp add: algebra_simps)
    qed
    also have "\<dots> = D * real n" by (simp add: D_def)
    also have "\<dots> \<le> e * real n * real n"
      using De by (simp add: mult_right_mono)
    finally have lin: "z * ((a + b) * real n + a * b) \<le> e * (real n)\<^sup>2"
      by (simp add: power2_eq_square mult.assoc)
    have "(a + real n) * (b + real n) * z = z * (real n)\<^sup>2 + z * ((a + b) * real n + a * b)"
      by (simp add: power2_eq_square algebra_simps)
    also have "\<dots> \<le> (z + e) * (real n)\<^sup>2"
      using lin by (simp add: algebra_simps)
    also have "\<dots> \<le> (z + e) * ((c + real n) * (real n + 1))"
    proof (rule mult_left_mono)
      have "real n * real n \<le> (c + real n) * (real n + 1)"
        using c by (intro mult_mono) simp_all
      then show "(real n)\<^sup>2 \<le> (c + real n) * (real n + 1)"
        by (simp add: power2_eq_square)
      show "0 \<le> z + e" using z e by simp
    qed
    finally have "(a + real n) * (b + real n) * z \<le> (z + e) * ((c + real n) * (real n + 1))" .
    moreover have "0 < (c + real n) * (real n + 1)"
      using c by (simp add: add_pos_nonneg)
    ultimately have "(a + real n) * (b + real n) * z / ((c + real n) * (real n + 1)) \<le> z + e"
      by (simp add: pos_divide_le_eq)
    also have "z + e = (1 + z) / 2"
      by (simp add: e_def field_simps)
    finally show ?thesis .
  qed
  then show ?thesis by blast
qed

lemma hyp_series_summable:
  assumes "0 < a" and "0 < b" and "0 < c" and "0 \<le> z" and "z < 1"
  shows "summable (hyp_series_term a b c z)"
proof -
  obtain N where N: "\<And>n. N \<le> n \<Longrightarrow>
      (a + real n) * (b + real n) * z / ((c + real n) * (real n + 1)) \<le> (1 + z) / 2"
    using hyp_ratio_bound [OF assms] by blast
  show ?thesis
  proof (rule summable_ratio_test [of "(1 + z) / 2" N])
    show "(1 + z) / 2 < 1" using assms(5) by simp
    fix n assume n: "N \<le> n"
    have t: "0 \<le> hyp_series_term a b c z n" "0 \<le> hyp_series_term a b c z (Suc n)"
      using assms by (simp_all add: hyp_series_term_nonneg)
    have "hyp_series_term a b c z (Suc n)
            = hyp_series_term a b c z n
               * ((a + real n) * (b + real n) * z / ((c + real n) * (real n + 1)))"
      using assms(3) by (rule hyp_series_term_Suc)
    also have "\<dots> \<le> hyp_series_term a b c z n * ((1 + z) / 2)"
      using N [OF n] t(1) by (rule mult_left_mono)
    finally show "norm (hyp_series_term a b c z (Suc n))
                    \<le> (1 + z) / 2 * norm (hyp_series_term a b c z n)"
      using t by (simp add: mult.commute)
  qed
qed

lemma hyp_series_nonneg:
  assumes "0 < a" and "0 < b" and "0 < c" and "0 \<le> z" and "z < 1"
  shows "0 \<le> hyp_series a b c z"
  unfolding hyp_series_def
  by (rule suminf_nonneg [OF hyp_series_summable [OF assms]])
     (rule hyp_series_term_nonneg [OF assms(1-4)])


lemma gauss_2F1_first_nonneg:
  assumes "0 < r" and "0 < a" and "0 < gamma"
  shows "0 \<le> gauss_2F1 (2 + gamma) gamma (3 + gamma) (1 / (1 + r / a))"
proof -
  have ra: "0 < r / a" using assms by simp
  then have z: "0 \<le> 1 / (1 + r / a)" "1 / (1 + r / a) < 1"
    by simp_all
  have "0 \<le> hyp_series (2 + gamma) gamma (3 + gamma) (1 / (1 + r / a))"
    using assms(3) z by (intro hyp_series_nonneg) simp_all
  then show ?thesis
    using z(1) by (simp add: gauss_2F1_def)
qed

lemma pfaff_argument:
  fixes z :: real
  assumes "z < 0"
  shows "0 \<le> z / (z - 1)" and "z / (z - 1) < 1"
proof -
  have d: "z - 1 < 0" using assms by simp
  show "0 \<le> z / (z - 1)"
    using assms d by (intro divide_nonpos_neg) simp_all
  show "z / (z - 1) < 1"
    using d by (simp only: neg_divide_less_eq) simp
qed

lemma gauss_2F1_second_nonneg:
  assumes "0 < r" and "0 < a" and "0 < gamma"
  shows "0 \<le> gauss_2F1 3 gamma (1 + gamma) (- a / r)"
proof -
  let ?z = "- a / r"
  have z: "?z < 0" using assms by simp
  have w: "0 \<le> ?z / (?z - 1)" "?z / (?z - 1) < 1"
    using z by (rule pfaff_argument)+
  have "0 \<le> hyp_series 3 (1 + gamma - gamma) (1 + gamma) (?z / (?z - 1))"
    using assms(3) w by (intro hyp_series_nonneg) simp_all
  moreover have "0 \<le> (1 - ?z) powr (- 3)"
    by simp
  ultimately have "0 \<le> (1 - ?z) powr (- 3) * hyp_series 3 (1 + gamma - gamma) (1 + gamma) (?z / (?z - 1))"
    by (rule mult_nonneg_nonneg [rotated])
  then show ?thesis
    using z by (simp only: gauss_2F1_def if_True)
qed

lemma sigma_r2_closed_form_nonneg:
  assumes "0 < r" and "0 < a" and "0 < gamma" and "gamma < 3" and "0 < r_ani" and "0 < rho"
    and "0 < const_G ext"
    and h1: "0 \<le> vel_util_hyp_2F1 ext (2 + gamma) gamma (3 + gamma) (1 / (1 + r / a))"
    and h2: "0 \<le> vel_util_hyp_2F1 ext 3 gamma (1 + gamma) (- a / r)"
  shows "0 \<le> sigma_r2_closed_form ext self r a gamma rho r_ani"
proof -
  have ra: "0 < r / a" using assms by simp
  have prefac1: "0 \<le> 4 * pi * const_G ext * a powr (- gamma) * rho / (3 - gamma)"
    using assms by (simp add: less_imp_le)
  have prefac2: "0 \<le> r * (r + a) ^ 3 / (r\<^sup>2 + r_ani\<^sup>2)"
    using assms by (simp add: less_imp_le add_nonneg_nonneg)
  have fac1: "0 \<le> (r_ani\<^sup>2 / a\<^sup>2)
                  * vel_util_hyp_2F1 ext (2 + gamma) gamma (3 + gamma) (1 / (1 + r / a))
                  / ((2 + gamma) * (r / a + 1) powr (2 + gamma))"
    using assms(3) h1 by (intro divide_nonneg_nonneg mult_nonneg_nonneg) simp_all
  have fac2: "0 \<le> vel_util_hyp_2F1 ext 3 gamma (1 + gamma) (- a / r)
                  / (gamma * (r / a) powr gamma)"
    using assms(3) h2 by (intro divide_nonneg_nonneg mult_nonneg_nonneg) simp_all
  have "0 \<le> 4 * pi * const_G ext * a powr (- gamma) * rho / (3 - gamma)
            * (r * (r + a) ^ 3 / (r\<^sup>2 + r_ani\<^sup>2))
            * ((r_ani\<^sup>2 / a\<^sup>2)
                  * vel_util_hyp_2F1 ext (2 + gamma) gamma (3 + gamma) (1 / (1 + r / a))
                  / ((2 + gamma) * (r / a + 1) powr (2 + gamma))
                + vel_util_hyp_2F1 ext 3 gamma (1 + gamma) (- a / r)
                  / (gamma * (r / a) powr gamma))
            * (const_arcsec ext * dd (u_cosmo self) * const_Mpc ext)\<^sup>2"
    using prefac1 prefac2 fac1 fac2
    by (intro mult_nonneg_nonneg add_nonneg_nonneg) simp_all
  then show ?thesis
    by (simp only: sigma_r2_closed_form_def Let_def)
qed

text \<open>
  C9. Let \<open>hyp_2F1\<close> be the Gauss hypergeometric function and \<open>G\<close> positive, as the
  gravitational constant is. For \<open>r > 0\<close>, \<open>a > 0\<close>, \<open>0 < gamma < 3\<close>, \<open>r_ani > 0\<close> and
  \<open>rho0_r0_gamma > 0\<close> the radial solver returns a value, and the value is not negative.
\<close>

theorem sigma_r2_nonnegative:
  assumes "vel_util_hyp_2F1 ext = gauss_2F1" and "0 < const_G ext"
    and "0 < r" and "0 < a" and "0 < gamma" and "gamma < 3" and "0 < r_ani" and "0 < rho"
  shows "\<exists>v. u_sigma_r2 ext self r a gamma rho r_ani = Inr v \<and> 0 \<le> v"
proof -
  have "u_sigma_r2 ext self r a gamma rho r_ani
          = Inr (sigma_r2_closed_form ext self r a gamma rho r_ani)"
    using assms by (simp add: u_sigma_r2_cases)
  moreover have "0 \<le> sigma_r2_closed_form ext self r a gamma rho r_ani"
    using assms(3-8) assms(2)
  proof (rule sigma_r2_closed_form_nonneg)
    show "0 \<le> vel_util_hyp_2F1 ext (2 + gamma) gamma (3 + gamma) (1 / (1 + r / a))"
      unfolding assms(1) using assms(3-5) by (rule gauss_2F1_first_nonneg)
    show "0 \<le> vel_util_hyp_2F1 ext 3 gamma (1 + gamma) (- a / r)"
      unfolding assms(1) using assms(3-5) by (rule gauss_2F1_second_nonneg)
  qed
  ultimately show ?thesis by blast
qed

theorem sigma_r2_nonnegative_witness:
  "vel_util_hyp_2F1 example_externals_gauss = gauss_2F1 \<and> 0 < const_G example_externals_gauss \<and>
   (0::real) < 1 \<and> (0::real) < 2 \<and> (2::real) < 3 \<and>
   (\<exists>v. u_sigma_r2 example_externals_gauss example_engine 1 1 2 1 1 = Inr v \<and> 0 \<le> v)"
proof -
  have h: "vel_util_hyp_2F1 example_externals_gauss = gauss_2F1"
    and g: "0 < const_G example_externals_gauss"
    by (simp_all add: example_externals_gauss_def example_externals_def)
  have one: "(0::real) < 1" and two: "(0::real) < 2" "(2::real) < 3"
    by simp_all
  show ?thesis
    using h g sigma_r2_nonnegative [OF h g one one two one one, of example_engine]
    by simp
qed

end
